(* ===== verification/Enclave_Prelude.thy ===== *)
theory Enclave_Prelude
  imports Main "HOL-Library.Sublist" "HOL-Library.Word"
begin

text \<open>
  Shared vocabulary of the development: byte strings, results, the parts of the Rust standard
  library that several components use (string splitting, UTF-8 validation, decimal printing,
  prefix stripping, trimming, numbers, \<open>Iterator::max\<close>), the theorem collections of the development and generic
  lemmas about them.

  A Rust \<open>u8\<close> is a HOL \<open>char\<close>, which has exactly 256 values; \<open>[u8]\<close>, \<open>Vec<u8>\<close>, \<open>Bytes\<close>,
  \<open>BytesMut\<close> and the bytes of a \<open>String\<close> are lists of them, so that literals can be written
  as in the source.
\<close>

section \<open>Names, types and collections\<close>

type_synonym byte = char
type_synonym bytes = "char list"
type_synonym u8 = "8 word"
type_synonym u16 = "16 word"
type_synonym u32 = "32 word"
type_synonym u64 = "64 word"

text \<open>\<open>Result<T, E>\<close>: \<open>Inl\<close> is \<open>Err\<close>, \<open>Inr\<close> is \<open>Ok\<close>.\<close>

type_synonym ('e, 'a) result = "'e + 'a"

text \<open>
  \<open>result_simps\<close>: equations for the plumbing of results and options;
  \<open>parser_laws\<close>: what the parsers accept;
  \<open>step_intros\<close>: introduction rules of the step relations.
\<close>

named_theorems result_simps
named_theorems parser_laws
named_theorems step_intros

section \<open>Results\<close>

text \<open>The \<open>?\<close> operator: continue with the value of an \<open>Ok\<close>, return an \<open>Err\<close> unchanged.\<close>

definition try_bind :: "('e, 'a) result \<Rightarrow> ('a \<Rightarrow> ('e, 'b) result) \<Rightarrow> ('e, 'b) result" where
  "try_bind r f = (case r of Inl e \<Rightarrow> Inl e | Inr x \<Rightarrow> f x)"

text \<open>\<open>map_err\<close> (also the \<open>From\<close> conversion that \<open>?\<close> applies to the error).\<close>

definition map_err :: "('e \<Rightarrow> 'f) \<Rightarrow> ('e, 'a) result \<Rightarrow> ('f, 'a) result" where
  "map_err f r = (case r of Inl e \<Rightarrow> Inl (f e) | Inr x \<Rightarrow> Inr x)"

definition res_ok :: "('e, 'a) result \<Rightarrow> 'a option" where
  "res_ok r = (case r of Inl e \<Rightarrow> None | Inr x \<Rightarrow> Some x)"

definition ok_or :: "'e \<Rightarrow> 'a option \<Rightarrow> ('e, 'a) result" where
  "ok_or e x = (case x of None \<Rightarrow> Inl e | Some v \<Rightarrow> Inr v)"

lemma try_bind_simps [simp, result_simps]:
  "try_bind (Inl e) f = Inl e" "try_bind (Inr x) f = f x"
  by (simp_all add: try_bind_def)

lemma map_err_simps [simp, result_simps]:
  "map_err g (Inl e) = Inl (g e)" "map_err g (Inr x) = Inr x"
  by (simp_all add: map_err_def)

lemma res_ok_simps [simp, result_simps]:
  "res_ok (Inl e) = None" "res_ok (Inr x) = Some x"
  by (simp_all add: res_ok_def)

lemma ok_or_simps [simp, result_simps]:
  "ok_or e None = Inl e" "ok_or e (Some v) = Inr v"
  by (simp_all add: ok_or_def)

lemma try_bind_eq_Inr [result_simps]:
  "try_bind r f = Inr y \<longleftrightarrow> (\<exists>x. r = Inr x \<and> f x = Inr y)"
  by (cases r) simp_all

lemma try_bind_eq_Inl [result_simps]:
  "try_bind r f = Inl e \<longleftrightarrow> r = Inl e \<or> (\<exists>x. r = Inr x \<and> f x = Inl e)"
  by (cases r) simp_all

lemma map_err_eq_Inr [result_simps]: "map_err g r = Inr y \<longleftrightarrow> r = Inr y"
  by (cases r) simp_all

lemma ok_or_eq_Inr [result_simps]: "ok_or e x = Inr y \<longleftrightarrow> x = Some y"
  by (cases x) simp_all

section \<open>Strings of the standard library\<close>

text \<open>\<open>str::split(c)\<close>: the substrings between the separators; one more than there are separators.\<close>

fun split_on :: "char \<Rightarrow> string \<Rightarrow> string list" where
  "split_on c [] = [[]]"
| "split_on c (x # xs) =
     (if x = c then [] # split_on c xs
      else (case split_on c xs of [] \<Rightarrow> [[x]] | s # ss \<Rightarrow> (x # s) # ss))"

definition join_with :: "string \<Rightarrow> string list \<Rightarrow> string" where
  "join_with sep ss = (case ss of [] \<Rightarrow> [] | s # rest \<Rightarrow> s @ concat (map (\<lambda>t. sep @ t) rest))"

text \<open>\<open>str::strip_prefix\<close>.\<close>

definition strip_prefix :: "string \<Rightarrow> string \<Rightarrow> string option" where
  "strip_prefix p s = (if prefix p s then Some (drop (length p) s) else None)"

lemma split_on_not_Nil [simp]: "split_on c s \<noteq> []"
  by (induction s) (auto split: list.splits)

lemma split_on_no_sep: "c \<notin> set s \<Longrightarrow> split_on c s = [s]"
  by (induction s) auto

lemma split_on_append_sep:
  "c \<notin> set s \<Longrightarrow> split_on c (s @ c # t) = s # split_on c t"
  by (induction s) auto

lemma split_on_pieces: "s \<in> set (split_on c t) \<Longrightarrow> c \<notin> set s"
proof (induction t arbitrary: s)
  case (Cons x t)
  then show ?case
    by (cases "split_on c t") (auto split: if_splits)
qed simp

lemma join_split_on: "join_with [c] (split_on c s) = s"
proof (induction s)
  case (Cons x s)
  then show ?case
    by (cases "split_on c s") (auto simp: join_with_def)
qed (simp add: join_with_def)

lemma split_on_join:
  "ss \<noteq> [] \<Longrightarrow> \<forall>s \<in> set ss. c \<notin> set s \<Longrightarrow> split_on c (join_with [c] ss) = ss"
proof (induction ss)
  case (Cons s ss)
  show ?case
  proof (cases ss)
    case Nil
    with Cons.prems show ?thesis by (simp add: join_with_def split_on_no_sep)
  next
    case (Cons t ts)
    have "join_with [c] (s # ss) = s @ c # join_with [c] ss"
      by (simp add: join_with_def Cons)
    with Cons.IH Cons.prems Cons show ?thesis
      by (simp add: split_on_append_sep)
  qed
qed simp

text \<open>\<open>u8::is_ascii_alphanumeric\<close>, \<open>is_ascii_digit\<close>.\<close>

definition is_ascii_digit :: "char \<Rightarrow> bool" where
  "is_ascii_digit c \<longleftrightarrow> 48 \<le> (of_char c :: nat) \<and> (of_char c :: nat) \<le> 57"

definition is_ascii_alphanumeric :: "char \<Rightarrow> bool" where
  "is_ascii_alphanumeric c \<longleftrightarrow>
     (let n = (of_char c :: nat) in
        (48 \<le> n \<and> n \<le> 57) \<or> (65 \<le> n \<and> n \<le> 90) \<or> (97 \<le> n \<and> n \<le> 122))"

text \<open>\<open>to_string\<close> of an unsigned integer: its decimal digits.\<close>

fun show_nat :: "nat \<Rightarrow> string" where
  "show_nat n =
     (if n < 10 then [char_of (48 + n)]
      else show_nat (n div 10) @ [char_of (48 + n mod 10)])"

declare show_nat.simps [simp del]

text \<open>\<open>str::parse\<close> to an unsigned integer of \<open>w\<close> bits: an optional plus sign, digits, no overflow.\<close>

definition parse_unsigned :: "nat \<Rightarrow> string \<Rightarrow> nat option" where
  "parse_unsigned w s =
     (let d = (case s of c # r \<Rightarrow> if c = CHR ''+'' then r else s | [] \<Rightarrow> []);
          n = foldl (\<lambda>a c. 10 * a + (of_char c - 48)) 0 d
      in if d \<noteq> [] \<and> list_all is_ascii_digit d \<and> n < 2 ^ w then Some n else None)"

abbreviation parse_usize :: "string \<Rightarrow> nat option" where "parse_usize \<equiv> parse_unsigned 64"
abbreviation parse_u64 :: "string \<Rightarrow> nat option" where "parse_u64 \<equiv> parse_unsigned 64"
abbreviation parse_u16 :: "string \<Rightarrow> nat option" where "parse_u16 \<equiv> parse_unsigned 16"

lemma digits_show_nat: "list_all is_ascii_digit (show_nat n)"
proof (induction n rule: show_nat.induct)
  case (1 n)
  have "n mod 10 \<le> 9" by (simp add: less_Suc_eq_le [symmetric])
  then have "is_ascii_digit (char_of (48 + n mod 10))" if "\<not> n < 10"
    by (simp add: is_ascii_digit_def)
  moreover have "is_ascii_digit (char_of (48 + n))" if "n < 10"
    using that by (simp add: is_ascii_digit_def)
  ultimately show ?case using 1 by (subst show_nat.simps) simp
qed

lemma digit_value: "d < 10 \<Longrightarrow> of_char (char_of (48 + d) :: char) = (48 + d :: nat)"
  by (simp add: of_char_of)

lemma foldl_show_nat: "foldl (\<lambda>a c. 10 * a + (of_char c - 48)) 0 (show_nat n) = (n :: nat)"
proof (induction n rule: show_nat.induct)
  case (1 n)
  show ?case
  proof (cases "n < 10")
    case True
    then show ?thesis by (simp add: show_nat.simps [of n] digit_value)
  next
    case False
    with 1 have "foldl (\<lambda>a c. 10 * a + (of_char c - 48)) 0 (show_nat (n div 10)) = n div 10" by simp
    with False show ?thesis by (simp add: show_nat.simps [of n] digit_value)
  qed
qed

lemma show_nat_not_Nil [simp]: "show_nat n \<noteq> []"
  by (simp add: show_nat.simps [of n])

lemma show_nat_digit: "c \<in> set (show_nat n) \<Longrightarrow> 48 \<le> (of_char c :: nat) \<and> (of_char c :: nat) \<le> 57"
  using digits_show_nat [of n] by (auto simp: list_all_iff is_ascii_digit_def)

lemma parse_show_nat: "n < 2 ^ w \<Longrightarrow> parse_unsigned w (show_nat n) = Some n"
proof -
  assume n: "n < 2 ^ w"
  obtain c r where cr: "show_nat n = c # r" by (cases "show_nat n") auto
  have "c \<noteq> CHR ''+''" using show_nat_digit [of c n] cr by auto
  then show ?thesis
    using n digits_show_nat [of n] foldl_show_nat [of n] by (simp add: parse_unsigned_def cr Let_def)
qed

lemma map_sum_eq_Inr: "map_sum f g z = Inr y \<Longrightarrow> (\<And>x. z = Inr x \<Longrightarrow> y = g x \<Longrightarrow> P) \<Longrightarrow> P"
  by (cases z) auto

section \<open>UTF-8\<close>

text \<open>
  \<open>std::str::from_utf8\<close>: the bytes as a string when they are valid UTF-8 (no overlong forms, no
  surrogates, at most U+10FFFF), an error otherwise.
\<close>

definition byte_in :: "nat \<Rightarrow> nat \<Rightarrow> char \<Rightarrow> bool" where
  "byte_in lo hi c \<longleftrightarrow> lo \<le> (of_char c :: nat) \<and> (of_char c :: nat) \<le> hi"

fun utf8_valid :: "bytes \<Rightarrow> bool" where
  "utf8_valid [] = True"
| "utf8_valid (b # bs) =
    (if byte_in 0 127 b then utf8_valid bs
     else if byte_in 194 223 b then
       (case bs of c1 # r \<Rightarrow> byte_in 128 191 c1 \<and> utf8_valid r | _ \<Rightarrow> False)
     else if byte_in 224 239 b then
       (case bs of c1 # c2 # r \<Rightarrow>
          byte_in (if of_char b = (224::nat) then 160 else 128)
                  (if of_char b = (237::nat) then 159 else 191) c1
          \<and> byte_in 128 191 c2 \<and> utf8_valid r
        | _ \<Rightarrow> False)
     else if byte_in 240 244 b then
       (case bs of c1 # c2 # c3 # r \<Rightarrow>
          byte_in (if of_char b = (240::nat) then 144 else 128)
                  (if of_char b = (244::nat) then 143 else 191) c1
          \<and> byte_in 128 191 c2 \<and> byte_in 128 191 c3 \<and> utf8_valid r
        | _ \<Rightarrow> False)
     else False)"

declare utf8_valid.simps(2) [simp del]

definition from_utf8 :: "bytes \<Rightarrow> string option" where
  "from_utf8 bs = (if utf8_valid bs then Some bs else None)"

lemma utf8_valid_ascii: "list_all (byte_in 0 127) bs \<Longrightarrow> utf8_valid bs"
  by (induction bs) (auto simp: utf8_valid.simps(2))

lemma from_utf8_ascii: "list_all (byte_in 0 127) bs \<Longrightarrow> from_utf8 bs = Some bs"
  by (simp add: from_utf8_def utf8_valid_ascii)

section \<open>Trimming\<close>

text \<open>\<open>str::trim\<close>: characters of the property White\_Space in UTF-8 are dropped at both ends.\<close>

definition is_white :: "bytes \<Rightarrow> bool" where
  "is_white c \<longleftrightarrow>
     (let n = map (of_char :: char \<Rightarrow> nat) c in
      n \<in> set [[9], [10], [11], [12], [13], [32], [194, 133], [194, 160], [225, 154, 128], [226, 128, 168], [226, 128, 169],
               [226, 128, 175], [226, 129, 159], [227, 128, 128]]
      \<or> (\<exists>b \<in> set [128..<139]. n = [226, 128, b]))"

definition white_prefix :: "bytes \<Rightarrow> nat" where
  "white_prefix s = (if is_white (take 1 s) then 1 else if is_white (take 2 s) then 2 else if is_white (take 3 s) then 3 else 0)"

definition white_suffix :: "bytes \<Rightarrow> nat" where
  "white_suffix s =
     (let n = length s in
      if is_white (drop (n - 1) s) then 1 else if is_white (drop (n - 2) s) then 2 else if is_white (drop (n - 3) s) then 3 else 0)"

fun trim_start :: "nat \<Rightarrow> bytes \<Rightarrow> bytes" where
  "trim_start 0 s = s"
| "trim_start (Suc fuel) s = (if white_prefix s = 0 then s else trim_start fuel (drop (white_prefix s) s))"

fun trim_end :: "nat \<Rightarrow> bytes \<Rightarrow> bytes" where
  "trim_end 0 s = s"
| "trim_end (Suc fuel) s = (if white_suffix s = 0 then s else trim_end fuel (take (length s - white_suffix s) s))"

definition str_trim :: "string \<Rightarrow> string" where
  "str_trim s = trim_end (length s) (trim_start (length s) s)"

section \<open>Maximum of an iterator\<close>

text \<open>
  \<open>Iterator::max\<close> through an \<open>Ord\<close> given by a rank: the fold keeps the later element when two are
  equally large.
\<close>

fun max_by_rank :: "('a \<Rightarrow> 'k::linorder) \<Rightarrow> 'a list \<Rightarrow> 'a option" where
  "max_by_rank rk [] = None"
| "max_by_rank rk (x # xs) =
     Some (foldl (\<lambda>m y. if rk m > rk y then m else y) x xs)"

lemma foldl_max_in:
  "foldl (\<lambda>m y. if rk m > rk y then m else y) x xs \<in> set (x # xs)"
proof (induction xs arbitrary: x)
  case (Cons y ys)
  from Cons.IH [of "if rk x > rk y then x else y"] show ?case
    by (auto split: if_splits)
qed simp

lemma foldl_max_ge:
  fixes rk :: "'a \<Rightarrow> 'k::linorder"
  shows "z \<in> set (x # xs) \<Longrightarrow> rk z \<le> rk (foldl (\<lambda>m y. if rk m > rk y then m else y) x xs)"
proof (induction xs arbitrary: x z)
  case (Cons y ys)
  let ?m = "if rk x > rk y then x else y"
  have "rk ?m \<le> rk (foldl (\<lambda>m y. if rk m > rk y then m else y) ?m ys)"
    by (rule Cons.IH) simp
  moreover have "rk x \<le> rk ?m" "rk y \<le> rk ?m" by auto
  moreover have "z \<in> set ys \<Longrightarrow> rk z \<le> rk (foldl (\<lambda>m y. if rk m > rk y then m else y) ?m ys)"
    by (rule Cons.IH) simp
  ultimately show ?case using Cons.prems by auto
qed simp

lemma max_by_rank_in: "max_by_rank rk xs = Some m \<Longrightarrow> m \<in> set xs"
  by (cases xs) (auto intro: foldl_max_in simp del: list.set)

lemma max_by_rank_ge: "max_by_rank rk xs = Some m \<Longrightarrow> x \<in> set xs \<Longrightarrow> rk x \<le> rk m"
  by (cases xs) (auto intro: foldl_max_ge simp del: list.set)

lemma max_by_rank_None [simp]: "max_by_rank rk xs = None \<longleftrightarrow> xs = []"
  by (cases xs) simp_all

section \<open>Lists\<close>

lemma list_all_take: "list_all P xs \<Longrightarrow> list_all P (take n xs)"
  by (auto simp: list_all_iff dest: in_set_takeD)

lemma list_all_drop: "list_all P xs \<Longrightarrow> list_all P (drop n xs)"
  by (auto simp: list_all_iff dest: in_set_dropD)

lemma prefix_length_conv: "prefix p s \<longleftrightarrow> length p \<le> length s \<and> take (length p) s = p"
  by (auto simp: prefix_def take_is_prefix) (metis append_take_drop_id)

end
