(* ===== verification/Ip_Address.thy ===== *)
theory Ip_Address
  imports Enclave_Prelude
begin

unbundle bit_operations_syntax

text \<open>
  Internet addresses as the egress path uses them: the types and the parsing and printing of
  \<open>std::net\<close>, and the test of \<open>control-plane/src/egressproxy.rs\<close> for addresses that are not
  globally reachable, which is shown equal to membership in a list of address blocks.
\<close>

section \<open>Addresses\<close>

datatype Ipv4Addr = Ipv4 (o1: u8) (o2: u8) (o3: u8) (o4: u8)

datatype Ipv6Addr = Ipv6 (s1: u16) (s2: u16) (s3: u16) (s4: u16) (s5: u16) (s6: u16) (s7: u16) (s8: u16)

datatype IpAddr = V4 Ipv4Addr | V6 Ipv6Addr

text \<open>\<open>Ipv4Addr::from_str\<close>: four decimal octets without superfluous leading zeros.\<close>

definition digit_value :: "char \<Rightarrow> nat" where
  "digit_value c = of_char c - 48"

definition parse_octet :: "string \<Rightarrow> u8 option" where
  "parse_octet s =
     (let n = foldl (\<lambda>a c. 10 * a + digit_value c) 0 s in
      if s \<noteq> [] \<and> length s \<le> 3 \<and> list_all is_ascii_digit s \<and> (length s = 1 \<or> hd s \<noteq> CHR ''0'')
         \<and> n \<le> 255
      then Some (of_nat n) else None)"

definition ipv4_from_str :: "string \<Rightarrow> Ipv4Addr option" where
  "ipv4_from_str s =
     (case map parse_octet (split_on CHR ''.'' s) of
        [Some a, Some b, Some c, Some d] \<Rightarrow> Some (Ipv4 a b c d)
      | _ \<Rightarrow> None)"

definition show_octet :: "u8 \<Rightarrow> string" where
  "show_octet w = show_nat (unat w)"

definition ipv4_to_string :: "Ipv4Addr \<Rightarrow> string" where
  "ipv4_to_string ip = join_with ''.'' [show_octet (o1 ip), show_octet (o2 ip), show_octet (o3 ip), show_octet (o4 ip)]"

text \<open>
  \<open>Display for Ipv6Addr\<close>: mapped addresses in mixed notation, otherwise hexadecimal segments with the
  first longest run of at least two zero segments abbreviated.
\<close>

definition hex_digit :: "nat \<Rightarrow> char" where
  "hex_digit d = (if d < 10 then char_of (48 + d) else char_of (87 + d))"

fun show_hex :: "nat \<Rightarrow> string" where
  "show_hex n = (if n < 16 then [hex_digit n] else show_hex (n div 16) @ [hex_digit (n mod 16)])"

declare show_hex.simps [simp del]

definition segments :: "Ipv6Addr \<Rightarrow> u16 list" where
  "segments ip = [s1 ip, s2 ip, s3 ip, s4 ip, s5 ip, s6 ip, s7 ip, s8 ip]"

definition zero_run_at :: "u16 list \<Rightarrow> nat \<Rightarrow> nat" where
  "zero_run_at segs i = length (takeWhile (\<lambda>w. w = 0) (drop i segs))"

text \<open>Start and length of the first longest run of zeros.\<close>

definition longest_zero_run :: "u16 list \<Rightarrow> nat \<times> nat" where
  "longest_zero_run segs =
     foldl (\<lambda>(st, len) i. if len < zero_run_at segs i then (i, zero_run_at segs i) else (st, len))
       (0, 0) [0..<length segs]"

definition show_segments :: "u16 list \<Rightarrow> string" where
  "show_segments segs = join_with '':'' (map (\<lambda>w. show_hex (unat w)) segs)"

definition ipv6_to_string :: "Ipv6Addr \<Rightarrow> string" where
  "ipv6_to_string ip =
     (if take 6 (segments ip) = [0, 0, 0, 0, 0, 0xffff]
      then ''::ffff:'' @ ipv4_to_string (Ipv4 (ucast (drop_bit 8 (s7 ip))) (ucast (s7 ip))
                                             (ucast (drop_bit 8 (s8 ip))) (ucast (s8 ip)))
      else (let (st, len) = longest_zero_run (segments ip) in
            if 1 < len
            then show_segments (take st (segments ip)) @ ''::'' @ show_segments (drop (st + len) (segments ip))
            else show_segments (segments ip)))"

definition ip_to_string :: "IpAddr \<Rightarrow> string" where
  "ip_to_string a = (case a of V4 ip \<Rightarrow> ipv4_to_string ip | V6 ip \<Rightarrow> ipv6_to_string ip)"

section \<open>Addresses that are not globally reachable\<close>

text \<open>The predicates of \<open>Ipv4Addr\<close> in the standard library.\<close>

definition is_private :: "Ipv4Addr \<Rightarrow> bool" where
  "is_private ip \<longleftrightarrow> o1 ip = 10 \<or> (o1 ip = 172 \<and> 16 \<le> o2 ip \<and> o2 ip \<le> 31) \<or> (o1 ip = 192 \<and> o2 ip = 168)"

definition is_loopback :: "Ipv4Addr \<Rightarrow> bool" where
  "is_loopback ip \<longleftrightarrow> o1 ip = 127"

definition is_link_local :: "Ipv4Addr \<Rightarrow> bool" where
  "is_link_local ip \<longleftrightarrow> o1 ip = 169 \<and> o2 ip = 254"

definition is_broadcast :: "Ipv4Addr \<Rightarrow> bool" where
  "is_broadcast ip \<longleftrightarrow> ip = Ipv4 255 255 255 255"

definition is_documentation :: "Ipv4Addr \<Rightarrow> bool" where
  "is_documentation ip \<longleftrightarrow> (o1 ip, o2 ip, o3 ip) \<in> {(192, 0, 2), (198, 51, 100), (203, 0, 113)}"

definition is_not_globally_reachable_ipv4 :: "Ipv4Addr \<Rightarrow> bool" where
  "is_not_globally_reachable_ipv4 ip =
     (if is_private ip \<or> is_loopback ip \<or> is_link_local ip \<or> is_broadcast ip \<or> is_documentation ip
      then True
      else if o1 ip = 192 \<and> o2 ip = 88 \<and> o3 ip = 99 then True
      else if o1 ip = 192 \<and> o2 ip = 0 \<and> o3 ip = 0 then o4 ip = 170 \<or> o4 ip = 171
      else if o1 ip = 198 then o2 ip = 18 \<or> o2 ip = 19
      else if o1 ip = 100 then o2 ip AND 0xC0 = 0x40
      else 240 \<le> o1 ip \<or> o1 ip = 0)"

text \<open>\<open>u128::from_be_bytes(ip.octets())\<close>: the segments, most significant first.\<close>

definition shift_in :: "nat \<Rightarrow> nat \<Rightarrow> nat \<Rightarrow> nat" where
  "shift_in m a b = a * 2 ^ m + b"

definition ipv6_bits :: "Ipv6Addr \<Rightarrow> nat" where
  "ipv6_bits ip = foldl (\<lambda>a w. shift_in 16 a (unat w)) 0 (segments ip)"

definition is_not_globally_reachable_ipv6 :: "Ipv6Addr \<Rightarrow> bool" where
  "is_not_globally_reachable_ipv6 ip \<longleftrightarrow>
     ip = Ipv6 0 0 0 0 0 0 0 0
     \<or> ip = Ipv6 0 0 0 0 0 0 0 1
     \<or> (s1 ip = 0 \<and> s2 ip = 0 \<and> s3 ip = 0 \<and> s4 ip = 0 \<and> s5 ip = 0 \<and> s6 ip = 0xffff)
     \<or> (s1 ip = 0x64 \<and> s2 ip = 0xff9b \<and> s3 ip = 1)
     \<or> (s1 ip = 0x100 \<and> s2 ip = 0 \<and> s3 ip = 0 \<and> s4 ip = 0)
     \<or> ((s1 ip = 0x2001 \<and> s2 ip < 0x200)
        \<and> \<not> (ipv6_bits ip = 0x20010001000000000000000000000001
             \<or> ipv6_bits ip = 0x20010001000000000000000000000002
             \<or> (s1 ip = 0x2001 \<and> s2 ip = 3)
             \<or> (s1 ip = 0x2001 \<and> s2 ip = 4 \<and> s3 ip = 0x112)
             \<or> (s1 ip = 0x2001 \<and> 0x20 \<le> s2 ip \<and> s2 ip \<le> 0x2F)))
     \<or> (s1 ip = 0x2001 \<and> s2 ip = 0xdb8)
     \<or> s1 ip AND 0xfe00 = 0xfc00
     \<or> s1 ip AND 0xffc0 = 0xfe80"

definition is_not_globally_reachable_ip :: "IpAddr \<Rightarrow> bool" where
  "is_not_globally_reachable_ip a =
     (case a of V4 ip \<Rightarrow> is_not_globally_reachable_ipv4 ip | V6 ip \<Rightarrow> is_not_globally_reachable_ipv6 ip)"

section \<open>Address blocks\<close>

text \<open>
  An address as a number, and a block \<open>(base, n)\<close> of addresses that share the bits above the lowest
  \<open>n\<close> with \<open>base\<close> (the block written \<open>base/(w - n)\<close> for addresses of \<open>w\<close> bits).
\<close>

definition ipv4_bits :: "Ipv4Addr \<Rightarrow> nat" where
  "ipv4_bits ip = foldl (\<lambda>a w. shift_in 8 a (unat w)) 0 [o1 ip, o2 ip, o3 ip, o4 ip]"

definition in_block :: "nat \<Rightarrow> nat \<times> nat \<Rightarrow> bool" where
  "in_block a blk \<longleftrightarrow> a div 2 ^ snd blk = fst blk div 2 ^ snd blk"

definition quad :: "nat \<Rightarrow> nat \<Rightarrow> nat \<Rightarrow> nat \<Rightarrow> nat" where
  "quad a b c d = ((a * 256 + b) * 256 + c) * 256 + d"

definition special_blocks_v4 :: "(nat \<times> nat) list" where
  "special_blocks_v4 =
     [(quad 0 0 0 0, 24), (quad 10 0 0 0, 24), (quad 100 64 0 0, 22), (quad 127 0 0 0, 24),
      (quad 169 254 0 0, 16), (quad 172 16 0 0, 20), (quad 192 0 0 170, 1), (quad 192 0 2 0, 8),
      (quad 192 88 99 0, 8), (quad 192 168 0 0, 16), (quad 198 18 0 0, 17), (quad 198 51 100 0, 8),
      (quad 203 0 113 0, 8), (quad 240 0 0 0, 28)]"

definition special_blocks_v6 :: "(nat \<times> nat) list" where
  "special_blocks_v6 =
     [(0, 0), (1, 0), (0xffff00000000, 32), (0x0064ff9b000100000000000000000000, 80),
      (0x01000000000000000000000000000000, 64), (0x20010db8000000000000000000000000, 96),
      (0xfc000000000000000000000000000000, 121), (0xfe800000000000000000000000000000, 118)]"

text \<open>The block of protocol assignments and the reachable addresses inside it.\<close>

definition protocol_block_v6 :: "nat \<times> nat" where
  "protocol_block_v6 = (0x20010000000000000000000000000000, 105)"

definition reachable_protocol_blocks_v6 :: "(nat \<times> nat) list" where
  "reachable_protocol_blocks_v6 =
     [(0x20010001000000000000000000000001, 0), (0x20010001000000000000000000000002, 0),
      (0x20010003000000000000000000000000, 96), (0x20010004011200000000000000000000, 80),
      (0x20010020000000000000000000000000, 100)]"

section \<open>Blocks and segments\<close>

lemma in_block_append:
  assumes "b < 2 ^ m"
  shows "in_block (shift_in m a b) (base, n) \<longleftrightarrow>
     (if n \<le> m then a = base div 2 ^ m \<and> in_block b (base mod 2 ^ m, n)
      else in_block a (base div 2 ^ m, n - m))"
proof (cases "n \<le> m")
  case True
  then obtain k where m: "m = n + k" using le_Suc_ex by blast
  have split: "(q * 2 ^ m + r) div 2 ^ n = q * 2 ^ k + r div 2 ^ n" for q r :: nat
  proof -
    have "q * 2 ^ m = 2 ^ n * (q * 2 ^ k)" by (simp add: m power_add)
    then have "(q * 2 ^ m + r) div 2 ^ n = (2 ^ n * (q * 2 ^ k) + r) div 2 ^ n" by (simp only:)
    then show ?thesis by simp
  qed
  have lt: "r div 2 ^ n < 2 ^ k" if "r < 2 ^ m" for r :: nat
    using that by (simp add: m less_mult_imp_div_less power_add mult.commute)
  have eq: "q * 2 ^ k + r = q' * 2 ^ k + r' \<longleftrightarrow> q = q' \<and> r = r'" if "r < 2 ^ k" "r' < 2 ^ k" for q q' r r' :: nat
    using that by (metis add.commute div_mult_self1 div_less add_0 mod_mult_self1 mod_less power_not_zero zero_neq_numeral)
  have "base = base div 2 ^ m * 2 ^ m + base mod 2 ^ m" by (rule div_mult_mod_eq [symmetric])
  then have "base div 2 ^ n = base div 2 ^ m * 2 ^ k + base mod 2 ^ m div 2 ^ n" by (metis split)
  with True show ?thesis using assms
    by (simp add: in_block_def shift_in_def split eq lt)
next
  case False
  then obtain k where "n = m + k" by (metis le_Suc_ex nle_le)
  with assms False show ?thesis by (simp add: in_block_def shift_in_def power_add div_mult2_eq)
qed

lemma high_mask_iff:
  fixes w :: "'a::len word"
  assumes "M = NOT (mask n)" "drop_bit n c = v" "push_bit n v = c"
  shows "w AND M = c \<longleftrightarrow> drop_bit n w = v"
proof -
  have "drop_bit n (w AND NOT (mask n)) = drop_bit n w"
    "w AND NOT (mask n) = push_bit n (drop_bit n w)"
    by (auto intro!: bit_word_eqI simp: bit_simps dest: bit_imp_le_length)
  with assms show ?thesis by metis
qed
lemma unat_u8 [simp]: "unat (w::u8) < 256"
  using unsigned_less [of w, where ?'a = nat] by simp

lemma unat_u16 [simp]: "unat (w::u16) < 65536"
  using unsigned_less [of w, where ?'a = nat] by simp

lemma and_mask_u8: "(w::u8) AND 0xC0 = 0x40 \<longleftrightarrow> unat w div 64 = 1"
  by (subst high_mask_iff [of _ 6 _ 1])
    (simp_all add: word_unat_eq_iff drop_bit_eq_div unat_div mask_eq_exp_minus_1)

lemma and_mask_u16:
  "(w::u16) AND 0xfe00 = 0xfc00 \<longleftrightarrow> unat w div 512 = 126"
  by (subst high_mask_iff [of _ 9 _ 126])
    (simp_all add: word_unat_eq_iff drop_bit_eq_div unat_div mask_eq_exp_minus_1)

lemma and_mask_u16':
  "(w::u16) AND 0xffc0 = 0xfe80 \<longleftrightarrow> unat w div 64 = 1018"
  by (subst high_mask_iff [of _ 6 _ 1018])
    (simp_all add: word_unat_eq_iff drop_bit_eq_div unat_div mask_eq_exp_minus_1)

lemma div_eq_range: "0 < k \<Longrightarrow> (n::nat) div k = q \<longleftrightarrow> q * k \<le> n \<and> n < q * k + k"
  by (metis add.commute div_nat_eqI mult.commute mult_Suc_right div_times_less_eq_dividend dividend_less_div_times)

lemma div_ranges:
  "(n::nat) div 2 = 9 \<longleftrightarrow> n = 18 \<or> n = 19" "n div 2 = 85 \<longleftrightarrow> n = 170 \<or> n = 171"
  "n div 16 = Suc 0 \<longleftrightarrow> 16 \<le> n \<and> n \<le> 31" "n < 256 \<Longrightarrow> n div 16 = 15 \<longleftrightarrow> 240 \<le> n"
  "n div 512 = 0 \<longleftrightarrow> n < 512" "n div 16 = 2 \<longleftrightarrow> 32 \<le> n \<and> n \<le> 47"
  by (auto simp: div_eq_range)

lemma shift_in_eq: "b < 2 ^ m \<Longrightarrow> shift_in m a b = n \<longleftrightarrow> a = n div 2 ^ m \<and> b = n mod 2 ^ m"
  by (auto simp: shift_in_def intro: div_mult_mod_eq)

text \<open>
  (C33) The test for IPv4 addresses accepts exactly fourteen address blocks; in particular the match on
  the octets overlooks none of them and adds no other address.
\<close>

theorem not_globally_reachable_v4_blocks:
  "is_not_globally_reachable_ipv4 ip \<longleftrightarrow> list_ex (in_block (ipv4_bits ip)) special_blocks_v4"
proof -
  obtain a b c d where ip: "ip = Ipv4 a b c d" by (cases ip)
  have blocks: "list_ex (in_block (ipv4_bits ip)) special_blocks_v4 \<longleftrightarrow>
    unat a = 0 \<or> unat a = 10 \<or> (unat a = 100 \<and> unat b div 64 = 1) \<or> unat a = 127 \<or>
    (unat a = 169 \<and> unat b = 254) \<or> (unat a = 172 \<and> unat b div 16 = 1) \<or>
    (unat a = 192 \<and> unat b = 0 \<and> unat c = 0 \<and> unat d div 2 = 85) \<or>
    (unat a = 192 \<and> unat b = 0 \<and> unat c = 2) \<or> (unat a = 192 \<and> unat b = 88 \<and> unat c = 99) \<or>
    (unat a = 192 \<and> unat b = 168) \<or> (unat a = 198 \<and> unat b div 2 = 9) \<or>
    (unat a = 198 \<and> unat b = 51 \<and> unat c = 100) \<or> (unat a = 203 \<and> unat b = 0 \<and> unat c = 113) \<or>
    unat a div 16 = 15"
    by (simp add: ip special_blocks_v4_def quad_def ipv4_bits_def in_block_append shift_in_eq)
      (simp add: in_block_def shift_in_def conj_assoc)
  show ?thesis
    unfolding blocks is_not_globally_reachable_ipv4_def and_mask_u8
    apply (simp add: ip div_ranges is_private_def
        is_loopback_def is_link_local_def is_broadcast_def is_documentation_def
        word_unat_eq_iff [where ?'a=8] word_le_nat_alt)
    apply (cases "unat a = 192"; cases "unat a = 198"; cases "unat a = 100"; simp)
     apply blast
    apply (simp only: neq0_conv [symmetric])
    apply argo
    done

qed

text \<open>
  The test for IPv6 addresses accepts exactly eight address blocks and, of the block of protocol
  assignments \<open>2001::/23\<close>, everything but its five reachable sub-blocks.
\<close>

theorem not_globally_reachable_v6_blocks:
  "is_not_globally_reachable_ipv6 ip \<longleftrightarrow> list_ex (in_block (ipv6_bits ip)) special_blocks_v6
  \<or> (in_block (ipv6_bits ip) protocol_block_v6
    \<and> \<not> list_ex (in_block (ipv6_bits ip)) reachable_protocol_blocks_v6)"
proof -
  obtain a b c d e f g h where ip: "ip = Ipv6 a b c d e f g h" by (cases ip)
  show ?thesis
    unfolding special_blocks_v6_def protocol_block_v6_def reachable_protocol_blocks_v6_def list_ex_Nil_iff list_ex_Cons_iff
    apply (simp add: ip in_block_append shift_in_eq ipv6_bits_def segments_def is_not_globally_reachable_ipv6_def and_mask_u16
        and_mask_u16' word_le_nat_alt word_less_nat_alt)
    apply (simp add: in_block_def word_unat_eq_iff shift_in_def div_ranges cong: conj_cong)
    apply (simp only: imp_conv_disj disj_ac)
    done
qed


section \<open>Printing and parsing\<close>

lemma char_digit:
  assumes "d < 10"
  shows "digit_value (char_of (48 + d)) = d" "is_ascii_digit (char_of (48 + d))"
    "char_of (48 + d) = CHR ''0'' \<longleftrightarrow> d = 0"
  using assms by (auto simp: digit_value_def is_ascii_digit_def char_of_eq_iff take_bit_eq_mod)

lemma digit_cases:
  assumes "is_ascii_digit c"
  obtains d :: nat where "d < 10" "c = char_of (48 + d)"
proof
  from assms show "of_char c - 48 < (10::nat)" "c = char_of (48 + (of_char c - 48 :: nat))"
    by (auto simp: is_ascii_digit_def)
qed

text \<open>The decimal strings of at most three digits without leading zeros are those of the numbers below 1000.\<close>

lemma show_nat_3:
  "n < 10 \<Longrightarrow> show_nat n = [char_of (48 + n)]"
  "10 \<le> n \<Longrightarrow> n < 100 \<Longrightarrow> show_nat n = [char_of (48 + n div 10), char_of (48 + n mod 10)]"
  "100 \<le> n \<Longrightarrow> n < 1000 \<Longrightarrow>
     show_nat n = [char_of (48 + n div 100), char_of (48 + n div 10 mod 10), char_of (48 + n mod 10)]"
proof -
  assume "100 \<le> n" "n < 1000"
  then have "n div 100 < 10" "\<not> n div 10 < 10" by (simp_all add: less_mult_imp_div_less div_less_iff_less_mult)
  with \<open>100 \<le> n\<close> show "show_nat n = [char_of (48 + n div 100), char_of (48 + n div 10 mod 10), char_of (48 + n mod 10)]"
    by (simp add: show_nat.simps div_mult2_eq [symmetric])
qed (simp_all add: show_nat.simps)

lemma decimal_3: "10 * (10 * (n div 100) + n div 10 mod 10) + n mod 10 = (n::nat)"
proof -
  have "10 * (n div 10 div 10) + n div 10 mod 10 = n div 10" "10 * (n div 10) + n mod 10 = n"
    by simp_all
  then show ?thesis by (simp add: div_mult2_eq [symmetric])
qed

lemma parse_octet_show: "parse_octet (show_octet w) = Some w"
proof -
  let ?n = "unat w"
  have n: "?n \<le> 255" using unat_u8 [of w] by linarith
  consider "?n < 10" | "10 \<le> ?n" "?n < 100" | "100 \<le> ?n" by linarith
  then show ?thesis
  proof cases
    case 1
    then show ?thesis by (simp add: parse_octet_def show_octet_def show_nat_3 char_digit)
  next
    case 2
    then have "?n div 10 < 10" "?n div 10 \<noteq> 0" by (simp_all add: div_eq_0_iff less_mult_imp_div_less)
    with 2 n show ?thesis by (simp add: parse_octet_def show_octet_def show_nat_3 char_digit)
  next
    case 3
    with n have "?n div 100 < 10" "?n div 100 \<noteq> 0" by (simp_all add: div_eq_0_iff less_mult_imp_div_less)
    with 3 n show ?thesis by (simp add: parse_octet_def show_octet_def show_nat_3 char_digit decimal_3 [simplified])
  qed
qed

lemma show_parse_octet:
  assumes a: "parse_octet s = Some w"
  shows "show_octet w = s"
proof -
  let ?n = "foldl (\<lambda>a c. 10 * a + digit_value c) 0 s"
  from a have w: "unat w = ?n" and s: "s \<noteq> []" "length s \<le> 3" "list_all is_ascii_digit s"
     "length s = 1 \<or> hd s \<noteq> CHR ''0''"
    by (auto simp: parse_octet_def Let_def unat_of_nat split: if_splits)
  from s(1,2) consider x where "s = [x]" | x y where "s = [x, y]" | x y z where "s = [x, y, z]"
    by (cases s; cases "tl s"; cases "tl (tl s)"; cases "tl (tl (tl s))") auto
  then have "show_nat ?n = s"
  proof cases
    case 1
    with s show ?thesis by (auto simp: show_nat_3 char_digit elim!: digit_cases)
  next
    case 2
    with s obtain d e :: nat where "d < 10" "e < 10" "s = [char_of (48 + d), char_of (48 + e)]" "d \<noteq> 0"
      by (auto simp: char_digit elim!: digit_cases)
    moreover from this have "10 \<le> 10 * d + e" "10 * d + e < 100" by linarith+
    ultimately show ?thesis by (simp add: show_nat_3 char_digit)
  next
    case 3
    with s obtain d e f :: nat where "d < 10" "e < 10" "f < 10"
      "s = [char_of (48 + d), char_of (48 + e), char_of (48 + f)]" "d \<noteq> 0"
      by (auto simp: char_digit elim!: digit_cases)
    moreover from this have "100 \<le> 10 * (10 * d + e) + f" "10 * (10 * d + e) + f < 1000"
       "(10 * (10 * d + e) + f) div 100 = d" "(10 * (10 * d + e) + f) div 10 = 10 * d + e"
       by auto
    moreover have "(10 * (10 * d + e) + f) mod 10 = f" using \<open>f < 10\<close> by (metis mod_less mod_mult_self4)
    ultimately show ?thesis by (simp add: show_nat_3 char_digit)
  qed
  with w show ?thesis by (simp add: show_octet_def)
qed

lemma sep_notin_octet: "c \<in> {CHR ''.'', CHR '':'', CHR '',''} \<Longrightarrow> c \<notin> set (show_octet w)"
  using digits_show_nat [of "unat w"] by (auto simp: show_octet_def list_all_iff is_ascii_digit_def)

lemma ipv4_from_to_string: "ipv4_from_str (ipv4_to_string ip) = Some ip"
  by (cases ip) (simp add: ipv4_from_str_def ipv4_to_string_def split_on_join sep_notin_octet parse_octet_show)

lemma ipv4_from_str_iff: "ipv4_from_str s = Some ip \<longleftrightarrow> s = ipv4_to_string ip"
proof
  assume "ipv4_from_str s = Some ip"
  then obtain p q r t where p: "split_on CHR ''.'' s = [p, q, r, t]" "parse_octet p = Some (o1 ip)" 
    "parse_octet q = Some (o2 ip)" "parse_octet r = Some (o3 ip)" "parse_octet t = Some (o4 ip)"
    by (auto simp: ipv4_from_str_def split: list.splits option.splits)
  with join_split_on [of "CHR ''.''" s] show "s = ipv4_to_string ip"
    by (auto simp: ipv4_to_string_def dest: show_parse_octet)
qed (simp add: ipv4_from_to_string)

lemma colon_in_ipv6: "CHR '':'' \<in> set (ipv6_to_string ip)"
proof -
  have "CHR '':'' \<in> set (show_segments (segments ip))"
    by (simp add: show_segments_def join_with_def segments_def)
  then show ?thesis
    by (cases "longest_zero_run (segments ip)") (simp add: ipv6_to_string_def)
qed

lemma colon_notin_ipv4: "CHR '':'' \<notin> set (ipv4_to_string ip)"
  by (auto simp: ipv4_to_string_def join_with_def sep_notin_octet)

lemma ip_to_string_v4_iff: "ip_to_string a = ipv4_to_string ip \<longleftrightarrow> a = V4 ip"
proof (cases a)
  case (V4 x) then show ?thesis using ipv4_from_to_string by (auto simp: ip_to_string_def) (metis option.inject)
next
  case (V6 x) then show ?thesis using colon_in_ipv6 [of x] colon_notin_ipv4 [of ip] by (auto simp: ip_to_string_def)
qed

end
