(* ===== verification/Egress_Policy.thy ===== *)
theory Egress_Policy
  imports Ip_Address
begin

text \<open>
  The egress allow list and the cache of resolved addresses, \<open>shared/src/server/egress.rs\<close>, used by
  both planes. \<open>dns_parser::Packet::parse\<close> is a parameter that returns what the code reads of a packet;
  \<open>ttl_cache::TtlCache\<close> is a record of operations with the locale \<open>ttl_cache\<close> for its documented
  behaviour. Time is a number of nanoseconds. The cache is a process-wide static behind a mutex: it is
  passed as a state, with the flag that makes \<open>lock\<close> fail.
\<close>

section \<open>Data\<close>

datatype EgressError =
    HostnameError string
  | EgressDomainNotAllowed string
  | EgressIpNotAllowed string
  | EgressClientHelloMissing
  | EgressExtensionMissing
  | DNSParseError
  | CouldntObtainLock

record EgressDestinations =
  wildcard :: "string list"
  exact :: "string list"
  allow_all :: bool
  ips :: "string list"

datatype RData = A Ipv4Addr | OtherData

record ResourceRecord =
  rr_name :: string
  rr_ttl :: u32
  rr_data :: RData

record dns_packet =
  questions :: "string list"
  answers :: "ResourceRecord list"

type_synonym dns_parse = "bytes \<Rightarrow> dns_packet option"

record 'c ttl_api =
  tc_new :: "nat \<Rightarrow> 'c"
  tc_insert :: "'c \<Rightarrow> nat \<Rightarrow> string \<Rightarrow> string \<Rightarrow> nat \<Rightarrow> 'c"
  tc_get :: "'c \<Rightarrow> nat \<Rightarrow> string \<Rightarrow> string option"

record 'c egress_state =
  ip_cache :: 'c
  lock_poisoned :: bool

definition ALLOWED_IPS_FROM_DNS :: "'c ttl_api \<Rightarrow> 'c egress_state" where
  "ALLOWED_IPS_FROM_DNS T = \<lparr>ip_cache = tc_new T 1000, lock_poisoned = False\<rparr>"

section \<open>The allow list\<close>

definition get_egress_allow_list :: "string \<Rightarrow> EgressDestinations" where
  "get_egress_allow_list domain_str =
     (let (ip_list, domains) = partition (\<lambda>d. ipv4_from_str d \<noteq> None) (split_on CHR '','' domain_str);
          (wc, ex) = partition (prefix ''*.'') domains
      in \<lparr>wildcard = List.map_filter (strip_prefix ''*'') wc,
          exact = ex,
          allow_all = (ex = [''''] \<or> ''*'' \<in> set ex),
          ips = ip_list\<rparr>)"

definition get_egress_allow_list_from_env :: "string option \<Rightarrow> EgressDestinations" where
  "get_egress_allow_list_from_env var =
     get_egress_allow_list (case var of Some s \<Rightarrow> s | None \<Rightarrow> '''')"

definition check_domain_allow_list :: "string \<Rightarrow> EgressDestinations \<Rightarrow> (EgressError, unit) result" where
  "check_domain_allow_list domain allowed =
     (let valid_wildcard = list_ex (\<lambda>w. suffix w domain) (wildcard allowed) in
      if domain \<in> set (exact allowed) \<or> allow_all allowed \<or> valid_wildcard then Inr ()
      else Inl (EgressDomainNotAllowed domain))"

text \<open>\<open>try_for_each\<close> over the questions.\<close>

fun check_questions :: "string list \<Rightarrow> EgressDestinations \<Rightarrow> (EgressError, unit) result" where
  "check_questions [] dest = Inr ()"
| "check_questions (q # qs) dest =
     try_bind (check_domain_allow_list q dest) (\<lambda>_. check_questions qs dest)"

definition check_dns_allowed_for_domain ::
  "dns_parse \<Rightarrow> bytes \<Rightarrow> EgressDestinations \<Rightarrow> (EgressError, unit) result" where
  "check_dns_allowed_for_domain parse packet dest =
     try_bind (ok_or DNSParseError (parse packet)) (\<lambda>p. check_questions (questions p) dest)"

section \<open>The cache of resolved addresses\<close>

definition from_secs :: "nat \<Rightarrow> nat" where
  "from_secs s = s * 10 ^ 9"

definition cache_ip ::
  "'c ttl_api \<Rightarrow> nat \<Rightarrow> string \<Rightarrow> ResourceRecord \<Rightarrow> 'c egress_state \<Rightarrow>
   'c egress_state \<times> (EgressError, unit) result" where
  "cache_ip T now ip answer st =
     (if lock_poisoned st then (st, Inl CouldntObtainLock)
      else (st\<lparr>ip_cache := tc_insert T (ip_cache st) now ip (rr_name answer)
                 (from_secs (unat (rr_ttl answer)))\<rparr>, Inr ()))"

fun cache_answers ::
  "'c ttl_api \<Rightarrow> nat \<Rightarrow> ResourceRecord list \<Rightarrow> 'c egress_state \<Rightarrow>
   'c egress_state \<times> (EgressError, unit) result" where
  "cache_answers T now [] st = (st, Inr ())"
| "cache_answers T now (a # as) st =
     (case rr_data a of
        A ip \<Rightarrow>
          (case cache_ip T now (ipv4_to_string ip) a st of
             (st', Inl e) \<Rightarrow> (st', Inl e)
           | (st', Inr _) \<Rightarrow> cache_answers T now as st')
      | OtherData \<Rightarrow> cache_answers T now as st)"

definition cache_ip_for_allowlist ::
  "dns_parse \<Rightarrow> 'c ttl_api \<Rightarrow> nat \<Rightarrow> bytes \<Rightarrow> 'c egress_state \<Rightarrow>
   'c egress_state \<times> (EgressError, unit) result" where
  "cache_ip_for_allowlist parse T now packet st =
     (case parse packet of
        None \<Rightarrow> (st, Inl DNSParseError)
      | Some p \<Rightarrow> cache_answers T now (answers p) st)"

definition is_valid_ip_from_dns ::
  "'c ttl_api \<Rightarrow> nat \<Rightarrow> 'c egress_state \<Rightarrow> string \<Rightarrow> (EgressError, bool) result" where
  "is_valid_ip_from_dns T now st ip =
     (if lock_poisoned st then Inl CouldntObtainLock
      else Inr (tc_get T (ip_cache st) now ip \<noteq> None))"

text \<open>The disjunction is evaluated from left to right: the cache is only consulted last.\<close>

definition check_ip_allow_list ::
  "'c ttl_api \<Rightarrow> nat \<Rightarrow> 'c egress_state \<Rightarrow> string \<Rightarrow> EgressDestinations \<Rightarrow> (EgressError, unit) result" where
  "check_ip_allow_list T now st ip allowed =
     (if allow_all allowed \<or> ip \<in> set (ips allowed) then Inr ()
      else try_bind (is_valid_ip_from_dns T now st ip)
             (\<lambda>valid. if valid then Inr () else Inl (EgressIpNotAllowed ip)))"

lemma set_map_filter: "set (List.map_filter f xs) = {y. \<exists>x \<in> set xs. f x = Some y}"
  by (induction xs) (auto simp: List.map_filter_simps split: option.splits)

section \<open>The allow list as a set of entries\<close>

text \<open>
  What the entries of the comma-separated list mean: an address, a wildcard for the subdomains of a
  domain, or a domain name.
\<close>

definition entries :: "string \<Rightarrow> string list" where
  "entries s = split_on CHR '','' s"

definition is_ip_entry :: "string \<Rightarrow> bool" where
  "is_ip_entry e \<longleftrightarrow> (\<exists>ip. e = ipv4_to_string ip)"

definition plain_entries :: "string \<Rightarrow> string list" where
  "plain_entries s = filter (\<lambda>e. \<not> is_ip_entry e \<and> \<not> prefix ''*.'' e) (entries s)"

definition opens_everything :: "string \<Rightarrow> bool" where
  "opens_everything s \<longleftrightarrow> ''*'' \<in> set (entries s) \<or> plain_entries s = ['''']"

lemma is_ip_entry_parse: "ipv4_from_str e \<noteq> None \<longleftrightarrow> is_ip_entry e"
  using ipv4_from_str_iff by (auto simp: is_ip_entry_def)

lemma not_ip_entry_parse: "ipv4_from_str e = None \<longleftrightarrow> \<not> is_ip_entry e"
  using is_ip_entry_parse [of e] by blast

lemma star_not_ip: "\<not> is_ip_entry (CHR ''*'' # e)"
proof
  assume "is_ip_entry (CHR ''*'' # e)"
  then obtain ip where ip: "ipv4_to_string ip = CHR ''*'' # e" by (auto simp: is_ip_entry_def)
  obtain x xs where x: "show_octet (o1 ip) = x # xs" "is_ascii_digit x"
    using digits_show_nat [of "unat (o1 ip)"]
    by (cases "show_octet (o1 ip)") (auto simp: show_octet_def show_nat.simps [of "unat (o1 ip)"] split: if_splits)
  with ip show False by (simp add: ipv4_to_string_def join_with_def is_ascii_digit_def)
qed

lemma allow_list_fields:
  "ips (get_egress_allow_list s) = filter is_ip_entry (entries s)"
  "exact (get_egress_allow_list s) = plain_entries s"
  "allow_all (get_egress_allow_list s) \<longleftrightarrow> opens_everything s"
  "set (wildcard (get_egress_allow_list s)) = {CHR ''.'' # d | d. ''*.'' @ d \<in> set (entries s)}"
proof -
  show "ips (get_egress_allow_list s) = filter is_ip_entry (entries s)"
    by (simp add: get_egress_allow_list_def Let_def is_ip_entry_parse entries_def del: not_None_eq)
  show ex: "exact (get_egress_allow_list s) = plain_entries s"
    by (simp add: get_egress_allow_list_def Let_def not_ip_entry_parse entries_def plain_entries_def
        o_def conj_commute)
  have "''*'' \<in> set (plain_entries s) \<longleftrightarrow> ''*'' \<in> set (entries s)"
    using star_not_ip [of "[]"] by (simp add: plain_entries_def)
  moreover have "allow_all (get_egress_allow_list s) \<longleftrightarrow>
      exact (get_egress_allow_list s) = [[]] \<or> ''*'' \<in> set (exact (get_egress_allow_list s))"
    by (simp add: get_egress_allow_list_def Let_def)
  ultimately show "allow_all (get_egress_allow_list s) \<longleftrightarrow> opens_everything s"
    unfolding ex opens_everything_def by blast
  show "set (wildcard (get_egress_allow_list s)) = {CHR ''.'' # d | d. ''*.'' @ d \<in> set (entries s)}"
  proof -
    have "set (wildcard (get_egress_allow_list s)) =
        {d. \<exists>e \<in> set (entries s). \<not> is_ip_entry e \<and> prefix ''*.'' e \<and> strip_prefix ''*'' e = Some d}"
      by (auto simp: get_egress_allow_list_def Let_def not_ip_entry_parse entries_def set_map_filter)
    also have "\<dots> = {d. \<exists>b. ''*.'' @ b \<in> set (entries s) \<and> d = CHR ''.'' # b}"
      by (auto simp: strip_prefix_def prefix_def star_not_ip intro!: bexI [of _ "CHR ''*'' # CHR ''.'' # _"])
    finally show ?thesis by blast
  qed
qed

text \<open>
  (C34) A domain passes the check exactly when the list opens everything, names the domain, or has a
  wildcard whose domain is a proper suffix at a dot. The list opens everything exactly when \<open>*\<close> is an
  entry or the entries that are neither addresses nor wildcards are one empty entry.
\<close>

theorem domain_check_decides_policy:
  "check_domain_allow_list d (get_egress_allow_list s) = Inr () \<longleftrightarrow>
     opens_everything s \<or> d \<in> set (plain_entries s)
     \<or> (\<exists>base. ''*.'' @ base \<in> set (entries s) \<and> suffix (CHR ''.'' # base) d)"
proof -
  have "list_ex (\<lambda>w. suffix w d) (wildcard (get_egress_allow_list s)) \<longleftrightarrow>
      (\<exists>base. ''*.'' @ base \<in> set (entries s) \<and> suffix (CHR ''.'' # base) d)"
    unfolding list_ex_iff allow_list_fields(4) by blast
  then show ?thesis by (auto simp: check_domain_allow_list_def allow_list_fields Let_def)
qed

text \<open>
  A trailing comma after a list of addresses and wildcards leaves one empty entry, and the list
  then opens egress to every destination.
\<close>

theorem trailing_comma_opens_everything:
  assumes "\<forall>e \<in> set (entries s). is_ip_entry e \<or> prefix ''*.'' e"
  shows "allow_all (get_egress_allow_list (s @ '',''))"
proof -
  have "split_on CHR '','' (s @ '','') = split_on CHR '','' s @ ['''']"
    by (induction s) (auto split: list.splits)
  moreover have "\<not> is_ip_entry ''''"
    unfolding is_ip_entry_parse [symmetric] by (simp add: ipv4_from_str_def parse_octet_def)
  ultimately have "plain_entries (s @ '','') = ['''']"
    using assms by (auto simp: plain_entries_def entries_def filter_empty_conv)
  then show ?thesis by (simp add: allow_list_fields opens_everything_def)
qed

lemma is_ip_entry_one: "is_ip_entry ''1.1.1.1''"
proof -
  have "ipv4_to_string (Ipv4 1 1 1 1) = ''1.1.1.1''"
    by code_simp
  then show ?thesis unfolding is_ip_entry_def by metis
qed

theorem trailing_comma_opens_everything_witness:
  "allow_all (get_egress_allow_list ''1.1.1.1,'') \<and> \<not> allow_all (get_egress_allow_list ''1.1.1.1'')"
proof -
  have "\<forall>e \<in> set (entries ''1.1.1.1''). is_ip_entry e \<or> prefix ''*.'' e"
    by (simp add: entries_def is_ip_entry_one)
  from trailing_comma_opens_everything [OF this] show ?thesis
    by (simp add: allow_list_fields(3) [of "''1.1.1.1''"] opens_everything_def plain_entries_def
        entries_def is_ip_entry_one)
qed

section \<open>Every cached address comes from a response\<close>

text \<open>\<open>resolved log t ip\<close>: a logged response has an A record for the address that is still alive at \<open>t\<close>.\<close>

definition resolved :: "(nat \<times> dns_packet) list \<Rightarrow> nat \<Rightarrow> string \<Rightarrow> bool" where
  "resolved log t k \<longleftrightarrow>
     (\<exists>(t0, p) \<in> set log. \<exists>a \<in> set (answers p). \<exists>ip. rr_data a = A ip \<and> k = ipv4_to_string ip
        \<and> t0 \<le> t \<and> t \<le> t0 + from_secs (unat (rr_ttl a)))"

text \<open>Whatever the cache answers from now on is the address of a logged response.\<close>

definition justified ::
  "'c ttl_api \<Rightarrow> (nat \<times> dns_packet) list \<Rightarrow> nat \<Rightarrow> 'c egress_state \<Rightarrow> bool" where
  "justified T log now st \<longleftrightarrow>
     (\<forall>t k v. now \<le> t \<longrightarrow> tc_get T (ip_cache st) t k = Some v \<longrightarrow> resolved log t k)"

lemma resolved_mono: "resolved log t k \<Longrightarrow> set log \<subseteq> set log' \<Longrightarrow> resolved log' t k"
  by (force simp: resolved_def)

lemma justified_mono:
  "justified T log now st \<Longrightarrow> now \<le> now' \<Longrightarrow> set log \<subseteq> set log' \<Longrightarrow> justified T log' now' st"
  by (meson justified_def le_trans resolved_mono)

text \<open>
  What the code relies on of the cache: a value is found until its time to live has passed, and nothing
  is found that was not inserted. Entries other than the newest may be evicted at any time.
\<close>

locale ttl_cache =
  fixes T :: "'c ttl_api"
  assumes get_new: "tc_get T (tc_new T cap) t k = None"
    and get_insert: "t0 \<le> t \<Longrightarrow> tc_get T (tc_insert T c t0 k v d) t k' = Some w \<Longrightarrow>
      (k' = k \<and> w = v \<and> t \<le> t0 + d) \<or> tc_get T c t k' = Some w"
    and get_fresh: "t0 \<le> t \<Longrightarrow> t < t0 + d \<Longrightarrow> tc_get T (tc_insert T c t0 k v d) t k = Some v"
begin

lemma justified_new: "justified T log now (ALLOWED_IPS_FROM_DNS T)"
  by (simp add: justified_def ALLOWED_IPS_FROM_DNS_def get_new)

lemma cache_answers_justified:
  "justified T log now st \<Longrightarrow> (now, p) \<in> set log \<Longrightarrow> set as \<subseteq> set (answers p) \<Longrightarrow>
   justified T log now (fst (cache_answers T now as st))"
proof (induction as arbitrary: st)
  case (Cons a as)
  show ?case
  proof (cases "rr_data a")
    case (A ip)
    let ?st = "st\<lparr>ip_cache := tc_insert T (ip_cache st) now (ipv4_to_string ip) (rr_name a)
        (from_secs (unat (rr_ttl a)))\<rparr>"
    have "resolved log t k" if "now \<le> t" "tc_get T (ip_cache ?st) t k = Some v" for t k v
    proof -
      from get_insert [OF that(1)] that(2) consider
        "k = ipv4_to_string ip" "t \<le> now + from_secs (unat (rr_ttl a))" | "tc_get T (ip_cache st) t k = Some v"
        by fastforce
      then show ?thesis
      proof cases
        case 1
        moreover from Cons.prems(3) have "a \<in> set (answers p)" by simp
        ultimately show ?thesis unfolding resolved_def using A that(1) Cons.prems(2) by blast
      next
        case 2
        with Cons.prems(1) that(1) show ?thesis unfolding justified_def by blast
      qed
    qed
    then have "justified T log now ?st" unfolding justified_def by blast
    with Cons A show ?thesis by (simp add: cache_ip_def)
  qed (use Cons in simp)
qed simp

lemma cache_ip_for_allowlist_justified:
  "justified T log now st \<Longrightarrow>
   justified T (case parse packet of None \<Rightarrow> log | Some p \<Rightarrow> (now, p) # log) now
     (fst (cache_ip_for_allowlist parse T now packet st))"
  by (auto simp: cache_ip_for_allowlist_def split: option.splits
      intro!: cache_answers_justified elim: justified_mono)

lemma check_ip_justified:
  "justified T log now st \<Longrightarrow> check_ip_allow_list T now st ip dest = Inr () \<Longrightarrow>
   allow_all dest \<or> ip \<in> set (ips dest) \<or> resolved log now ip"
  by (auto simp: check_ip_allow_list_def is_valid_ip_from_dns_def justified_def split: if_splits)

lemma cached_answer_allows_ip:
  assumes "\<not> lock_poisoned st" "cache_ip T now (ipv4_to_string ip) a st = (st', r)"
    "t < now + from_secs (unat (rr_ttl a))" "now \<le> t"
  shows "check_ip_allow_list T t st' (ipv4_to_string ip) dest = Inr ()"
  using assms get_fresh by (auto simp: check_ip_allow_list_def is_valid_ip_from_dns_def cache_ip_def)

end

section \<open>A concrete cache\<close>

text \<open>An association list of values with their expiry, newest first, cut to the capacity.\<close>

record alist_cache =
  ac_capacity :: nat
  ac_entries :: "(string \<times> string \<times> nat) list"

definition alist_ttl :: "alist_cache ttl_api" where
  "alist_ttl =
     \<lparr>tc_new = (\<lambda>cap. \<lparr>ac_capacity = cap, ac_entries = []\<rparr>),
      tc_insert = (\<lambda>c now k v d. c\<lparr>ac_entries :=
         (k, v, now + d) # take (ac_capacity c - 1) (filter (\<lambda>e. fst e \<noteq> k) (ac_entries c))\<rparr>),
      tc_get = (\<lambda>c now k. case map_of (ac_entries c) k of
         Some (v, expiry) \<Rightarrow> if now < expiry then Some v else None | None \<Rightarrow> None)\<rparr>"

lemma map_of_take_filter:
  "map_of (take n (filter (\<lambda>e. fst e \<noteq> k) xs)) x = Some y \<Longrightarrow> map_of xs x = Some y"
proof (induction xs arbitrary: n)
  case (Cons e xs)
  show ?case
  proof (cases "fst e = k")
    case True
    have "x \<noteq> k"
      using Cons.prems True by (auto dest!: map_of_SomeD in_set_takeD)
    with True Cons show ?thesis by simp
  next
    case False
    with Cons show ?thesis by (cases n) (auto split: if_splits)
  qed
qed simp

interpretation alist_ttl: ttl_cache alist_ttl
  by unfold_locales
    (auto simp: alist_ttl_def split: option.splits if_splits prod.splits dest: map_of_take_filter)

end
