(* ===== verification/Egress_Proxy.thy ===== *)
theory Egress_Proxy
  imports Egress_Policy
begin

text \<open>
  The way of traffic out of the enclave: the egress and DNS proxies of the data plane
  (\<open>data-plane/src/dns/egressproxy.rs\<close>, \<open>data-plane/src/dns/enclavedns.rs\<close>), the message between the
  planes (\<open>shared/src/rpc/request.rs\<close>) and the egress and DNS proxies of the control plane
  (\<open>control-plane/src/egressproxy.rs\<close>, \<open>control-plane/src/dnsproxy.rs\<close>). Sockets are records of what
  their operations return; what a handler does to the outside is a list of effects in order. The
  MessagePack codec of \<open>rmp_serde\<close> is a parameter.
\<close>

section \<open>Shared pieces\<close>

datatype RpcError = DecodeError | EncodeError

record ExternalRequest =
  er_ip :: IpAddr
  er_data :: bytes
  er_port :: u16

record rmp_codec =
  rmp_serialize :: "ExternalRequest \<Rightarrow> bytes option"
  rmp_deserialize :: "bytes \<Rightarrow> ExternalRequest option"

definition to_bytes :: "rmp_codec \<Rightarrow> ExternalRequest \<Rightarrow> (RpcError, bytes) result" where
  "to_bytes R r = ok_or EncodeError (rmp_serialize R r)"

definition from_bytes :: "rmp_codec \<Rightarrow> bytes \<Rightarrow> (RpcError, ExternalRequest) result" where
  "from_bytes R b = ok_or DecodeError (rmp_deserialize R b)"

text \<open>The outcome of \<open>copy_bidirectional\<close>, and \<open>pipe_streams\<close>, for which a broken pipe is a normal end.\<close>

datatype copy_outcome = CopyDone | CopyBrokenPipe | CopyFailed

definition pipe_streams :: "copy_outcome \<Rightarrow> (unit, unit) result" where
  "pipe_streams c = (case c of CopyDone \<Rightarrow> Inr () | CopyBrokenPipe \<Rightarrow> Inr () | CopyFailed \<Rightarrow> Inl ())"

text \<open>One \<open>read\<close> into a buffer of \<open>n\<close> bytes, given the bytes that are available (none at the end).\<close>

definition read_into :: "nat \<Rightarrow> bytes \<Rightarrow> bytes" where
  "read_into n available = take n available"

section \<open>Control plane: egress proxy\<close>

datatype CpServerError =
    CpIo
  | CpRpc RpcError
  | IllegalInternalIp IpAddr
  | CpEgressError EgressError
  | CpDnsError
  | InvalidDnsConfig

datatype net_effect = Connect IpAddr u16 | WriteRemote bytes | PipeStreams | ShutdownClient

definition validate_requested_ip :: "IpAddr \<Rightarrow> bool \<Rightarrow> (CpServerError, unit) result" where
  "validate_requested_ip ip_addr allow_egress_to_internal =
     (if is_not_globally_reachable_ip ip_addr \<and> \<not> allow_egress_to_internal
      then Inl (IllegalInternalIp ip_addr) else Inr ())"

text \<open>What the sockets of a connection do: \<open>None\<close> and \<open>False\<close> are I/O errors.\<close>

record egress_io =
  eg_read :: "bytes option"
  eg_connect :: "IpAddr \<Rightarrow> u16 \<Rightarrow> bool"
  eg_write :: bool
  eg_copy :: copy_outcome

definition handle_connection ::
  "rmp_codec \<Rightarrow> 'c ttl_api \<Rightarrow> bool \<Rightarrow> nat \<Rightarrow> 'c egress_state \<Rightarrow> EgressDestinations \<Rightarrow> egress_io \<Rightarrow>
   net_effect list \<times> (CpServerError, unit) result" where
  "handle_connection R T allow_internal now st dest io =
     (case eg_read io of
        None \<Rightarrow> ([], Inl CpIo)
      | Some available \<Rightarrow>
         (case from_bytes R (read_into 4096 available) of
            Inl e \<Rightarrow> ([], Inl (CpRpc e))
          | Inr req \<Rightarrow>
             (case validate_requested_ip (er_ip req) allow_internal of
                Inl e \<Rightarrow> ([ShutdownClient], Inl e)
              | Inr _ \<Rightarrow>
                 (case check_ip_allow_list T now st (ip_to_string (er_ip req)) dest of
                    Inl e \<Rightarrow> ([ShutdownClient], Inr ())
                  | Inr _ \<Rightarrow>
                     if \<not> eg_connect io (er_ip req) (er_port req) then ([], Inl CpIo)
                     else if \<not> eg_write io then ([Connect (er_ip req) (er_port req)], Inl CpIo)
                     else ([Connect (er_ip req) (er_port req), WriteRemote (er_data req), PipeStreams],
                           map_err (\<lambda>_. CpIo) (pipe_streams (eg_copy io)))))))"

section \<open>Control plane: DNS proxy\<close>

definition DNS_SERVERS :: "IpAddr list" where
  "DNS_SERVERS =
     [V4 (Ipv4 1 1 1 1), V4 (Ipv4 8 8 8 8), V4 (Ipv4 208 67 222 222),
      V4 (Ipv4 1 0 0 1), V4 (Ipv4 8 8 4 4), V4 (Ipv4 208 67 220 220)]"

definition read_dns_server_ips_from_env_var ::
  "(string \<Rightarrow> IpAddr option) \<Rightarrow> string option \<Rightarrow> IpAddr list option" where
  "read_dns_server_ips_from_env_var parse_ip var =
     map_option (\<lambda>s. List.map_filter parse_ip (split_on CHR '','' s)) var"

text \<open>
  The connection from the data plane: the chunks that will still be read from it (none: the end of the
  stream) and what was written to it.
\<close>

record dns_conn =
  dc_incoming :: "bytes list"
  dc_written :: "bytes list"

text \<open>One \<open>read\<close>: the next chunk as far as it fits; the rest of the chunk stays.\<close>

definition conn_read :: "nat \<Rightarrow> dns_conn \<Rightarrow> bytes \<times> dns_conn" where
  "conn_read n c =
     (case dc_incoming c of
        [] \<Rightarrow> ([], c)
      | b # bs \<Rightarrow>
          (take n b, c\<lparr>dc_incoming := (if length b \<le> n then bs else drop n b # bs)\<rparr>))"

text \<open>
  A DNS server as seen through its UDP socket: binding and connecting, sending, the datagram received,
  and writing the response back to the data plane.
\<close>

record dns_server_io =
  ds_read :: bool
  ds_socket :: bool
  ds_send :: bool
  ds_recv :: "bytes option"
  ds_write_back :: bool

record 'c dns_outcome =
  do_conn :: dns_conn
  do_state :: "'c egress_state"
  do_sent :: "(IpAddr \<times> bytes) list"
  do_result :: "(CpServerError, unit) result"

definition proxy_dns_connection ::
  "dns_parse \<Rightarrow> 'c ttl_api \<Rightarrow> nat \<Rightarrow> EgressDestinations \<Rightarrow> dns_server_io \<Rightarrow> IpAddr \<Rightarrow>
   dns_conn \<Rightarrow> 'c egress_state \<Rightarrow> 'c dns_outcome" where
  "proxy_dns_connection parse T now dest io target_ip conn st =
     (let (request, conn1) = conn_read 512 conn;
          fin = (\<lambda>sent c s r. \<lparr>do_conn = c, do_state = s, do_sent = sent, do_result = r\<rparr>)
      in if \<not> ds_read io then fin [] conn st (Inl CpIo)
         else if \<not> ds_socket io then fin [] conn1 st (Inl CpIo)
         else (case check_dns_allowed_for_domain parse request dest of
                 Inl e \<Rightarrow> fin [] conn1 st (Inl (CpEgressError e))
               | Inr _ \<Rightarrow>
                  if \<not> ds_send io then fin [] conn1 st (Inl CpIo)
                  else (case ds_recv io of
                          None \<Rightarrow> fin [(target_ip, request)] conn1 st (Inl CpIo)
                        | Some datagram \<Rightarrow>
                           (let response = read_into 512 datagram in
                            case cache_ip_for_allowlist parse T now response st of
                              (st1, Inl e) \<Rightarrow> fin [(target_ip, request)] conn1 st1 (Inl (CpEgressError e))
                            | (st1, Inr _) \<Rightarrow>
                               if ds_write_back io
                               then fin [(target_ip, request)]
                                      (conn1\<lparr>dc_written := dc_written conn1 @ [response]\<rparr>) st1 (Inr ())
                               else fin [(target_ip, request)] conn1 st1 (Inl CpIo)))))"

text \<open>
  The task of one connection in \<open>DnsProxy::listen\<close>: the servers in shuffled order, until one succeeds
  or the query is rejected by the policy.
\<close>

fun dns_failover ::
  "dns_parse \<Rightarrow> 'c ttl_api \<Rightarrow> nat \<Rightarrow> EgressDestinations \<Rightarrow> (IpAddr \<times> dns_server_io) list \<Rightarrow>
   dns_conn \<Rightarrow> 'c egress_state \<Rightarrow> dns_conn \<times> 'c egress_state \<times> (IpAddr \<times> bytes) list" where
  "dns_failover parse T now dest [] conn st = (conn, st, [])"
| "dns_failover parse T now dest ((target, io) # services) conn st =
     (let out = proxy_dns_connection parse T now dest io target conn st in
      case do_result out of
        Inr _ \<Rightarrow> (do_conn out, do_state out, do_sent out)
      | Inl (CpEgressError e) \<Rightarrow> (do_conn out, do_state out, do_sent out)
      | Inl e \<Rightarrow>
         (let (conn', st', sent) = dns_failover parse T now dest services (do_conn out) (do_state out)
          in (conn', st', do_sent out @ sent)))"

section \<open>Data plane: egress proxy\<close>

datatype DNSError =
    DnsIo
  | DNSNoQuestionsFound
  | DnsRpcError RpcError
  | DnsEgressError EgressError
  | DNSTimeout

text \<open>
  \<open>getsockopt(SO_ORIGINAL_DST)\<close> fills the address in network byte order: the bytes as they are in
  memory, or \<open>None\<close> for the return code -1.
\<close>

record original_dst =
  od_v4 :: "((u8 \<times> u8 \<times> u8 \<times> u8) \<times> (u8 \<times> u8)) option"
  od_v6 :: "(Ipv6Addr \<times> (u8 \<times> u8)) option"

definition u16_from_be :: "u8 \<times> u8 \<Rightarrow> u16" where
  "u16_from_be p = ucast (fst p) * 256 + ucast (snd p)"

definition get_destination_ipv4 :: "original_dst \<Rightarrow> (DNSError, IpAddr \<times> u16) result" where
  "get_destination_ipv4 fd =
     (case od_v4 fd of
        None \<Rightarrow> Inl DnsIo
      | Some ((a, b, c, d), port) \<Rightarrow> Inr (V4 (Ipv4 a b c d), u16_from_be port))"

definition get_destination_ipv6 :: "original_dst \<Rightarrow> (DNSError, IpAddr \<times> u16) result" where
  "get_destination_ipv6 fd =
     (case od_v6 fd of
        None \<Rightarrow> Inl DnsIo
      | Some (ip, port) \<Rightarrow> Inr (V6 ip, u16_from_be port))"

definition get_destination :: "original_dst \<Rightarrow> (DNSError, IpAddr \<times> u16) result" where
  "get_destination fd =
     (case get_destination_ipv4 fd of Inr ip \<Rightarrow> Inr ip | Inl _ \<Rightarrow> get_destination_ipv6 fd)"

record dp_egress_io =
  dp_read :: "bytes option"
  dp_vsock :: bool
  dp_dst :: original_dst
  dp_write :: bool
  dp_copy :: copy_outcome

text \<open>The bytes written to the vsock connection before the two streams are joined, and the result.\<close>

definition handle_egress_connection ::
  "rmp_codec \<Rightarrow> 'c ttl_api \<Rightarrow> nat \<Rightarrow> 'c egress_state \<Rightarrow> EgressDestinations \<Rightarrow> dp_egress_io \<Rightarrow>
   bytes list \<times> (DNSError, unit) result" where
  "handle_egress_connection R T now st allowed_domains io =
     (case dp_read io of
        None \<Rightarrow> ([], Inl DnsIo)
      | Some available \<Rightarrow>
         (let customer_data = read_into 4096 available in
          if \<not> dp_vsock io then ([], Inl DnsIo)
          else (case get_destination (dp_dst io) of
             Inl e \<Rightarrow> ([], Inl e)
           | Inr (ip, port) \<Rightarrow>
              (case check_ip_allow_list T now st (ip_to_string ip) allowed_domains of
                 Inl e \<Rightarrow> ([], Inl (DnsEgressError e))
               | Inr _ \<Rightarrow>
                  (case to_bytes R \<lparr>er_ip = ip, er_data = customer_data, er_port = port\<rparr> of
                     Inl e \<Rightarrow> ([], Inl (DnsRpcError e))
                   | Inr external_request \<Rightarrow>
                       if \<not> dp_write io then ([], Inl DnsIo)
                       else ([external_request], map_err (\<lambda>_. DnsIo) (pipe_streams (dp_copy io))))))))"

section \<open>Data plane: DNS proxy\<close>

record dns_forward_io =
  df_vsock :: bool
  df_write :: bool
  df_reply :: "bytes option"
  df_timeout :: bool

text \<open>What is sent to the host, and the answer.\<close>

definition forward_dns_lookup :: "dns_forward_io \<Rightarrow> bytes \<Rightarrow> bytes list \<times> (DNSError, bytes) result" where
  "forward_dns_lookup io packet =
     (if \<not> df_vsock io then ([], Inl DnsIo)
      else if \<not> df_write io then ([], Inl DnsIo)
      else (case df_reply io of
              None \<Rightarrow> ([packet], Inl DnsIo)
            | Some b \<Rightarrow> ([packet], Inr (read_into 512 b))))"

definition perform_dns_lookup ::
  "dns_parse \<Rightarrow> 'c ttl_api \<Rightarrow> nat \<Rightarrow> EgressDestinations \<Rightarrow> dns_forward_io \<Rightarrow> bytes \<Rightarrow> 'c egress_state \<Rightarrow>
   'c egress_state \<times> bytes list \<times> (DNSError, bytes) result" where
  "perform_dns_lookup parse T now allowed io dns_packet st =
     (case check_dns_allowed_for_domain parse dns_packet allowed of
        Inl e \<Rightarrow> (st, [], Inl (DnsEgressError e))
      | Inr _ \<Rightarrow>
         (let (sent, reply) = forward_dns_lookup io dns_packet in
          if df_timeout io then (st, sent, Inl DNSTimeout)
          else (case reply of
                  Inl e \<Rightarrow> (st, sent, Inl e)
                | Inr response \<Rightarrow>
                   (case cache_ip_for_allowlist parse T now response st of
                      (st', Inl e) \<Rightarrow> (st', sent, Inl (DnsEgressError e))
                    | (st', Inr _) \<Rightarrow> (st', sent, Inr response)))))"

section \<open>Both planes together\<close>

text \<open>
  The two processes with their own caches, the clock, what each of them learnt (time, query and
  response), what the data plane handed to the host and which connections the control plane opened.
  The allow lists of the two planes are read from different places and may differ. Nothing is assumed
  of the network: sockets, DNS servers and the bytes on the vsock connections are arbitrary.
\<close>

type_synonym dns_log = "(nat \<times> bytes \<times> dns_packet) list"

record 'c egress_system =
  es_now :: nat
  es_dp :: "'c egress_state"
  es_cp :: "'c egress_state"
  es_dp_log :: dns_log
  es_cp_log :: dns_log
  es_forwarded :: "(nat \<times> bytes) list"
  es_opened :: "(nat \<times> IpAddr \<times> u16) list"

record 'c egress_env =
  ee_parse :: dns_parse
  ee_ttl :: "'c ttl_api"
  ee_codec :: rmp_codec
  ee_internal :: bool
  ee_dp_list :: string
  ee_cp_list :: string

definition responses :: "dns_log \<Rightarrow> (nat \<times> dns_packet) list" where
  "responses log = map (\<lambda>(t, q, p). (t, p)) log"

definition egress_init :: "'c egress_env \<Rightarrow> 'c egress_system" where
  "egress_init E =
     \<lparr>es_now = 0, es_dp = ALLOWED_IPS_FROM_DNS (ee_ttl E), es_cp = ALLOWED_IPS_FROM_DNS (ee_ttl E),
      es_dp_log = [], es_cp_log = [], es_forwarded = [], es_opened = []\<rparr>"

text \<open>A response that was received for a query that had been sent enters the log when it parses.\<close>

definition log_response :: "dns_parse \<Rightarrow> nat \<Rightarrow> bytes list \<Rightarrow> bytes option \<Rightarrow> dns_log \<Rightarrow> dns_log" where
  "log_response parse now sent reply log =
     (case (sent, Option.bind reply (\<lambda>b. parse (read_into 512 b))) of
        (q # _, Some p) \<Rightarrow> (now, q, p) # log
      | _ \<Rightarrow> log)"

definition connects :: "nat \<Rightarrow> net_effect list \<Rightarrow> (nat \<times> IpAddr \<times> u16) list" where
  "connects now effs =
     List.map_filter (\<lambda>e. case e of Connect ip port \<Rightarrow> Some (now, ip, port) | _ \<Rightarrow> None) effs"

inductive egress_step :: "'c egress_env \<Rightarrow> 'c egress_system \<Rightarrow> 'c egress_system \<Rightarrow> bool"
  for E :: "'c egress_env" where
  tick: "egress_step E s (s\<lparr>es_now := es_now s + d\<rparr>)"
| dp_lookup:
    "perform_dns_lookup (ee_parse E) (ee_ttl E) (es_now s) (get_egress_allow_list (ee_dp_list E)) io packet
       (es_dp s) = (st, sent, r) \<Longrightarrow>
     egress_step E s (s\<lparr>es_dp := st, es_dp_log := (if df_timeout io then es_dp_log s
        else log_response (ee_parse E) (es_now s) sent (df_reply io) (es_dp_log s))\<rparr>)"
| cp_lookup:
    "out = proxy_dns_connection (ee_parse E) (ee_ttl E) (es_now s) (get_egress_allow_list (ee_cp_list E))
       io target conn (es_cp s) \<Longrightarrow>
     egress_step E s (s\<lparr>es_cp := do_state out, es_cp_log :=
        log_response (ee_parse E) (es_now s) (map snd (do_sent out)) (ds_recv io) (es_cp_log s)\<rparr>)"
| dp_egress:
    "handle_egress_connection (ee_codec E) (ee_ttl E) (es_now s) (es_dp s)
       (get_egress_allow_list (ee_dp_list E)) dio = (sent, r) \<Longrightarrow>
     egress_step E s (s\<lparr>es_forwarded := es_forwarded s @ map (\<lambda>b. (es_now s, b)) sent\<rparr>)"
| cp_egress:
    "handle_connection (ee_codec E) (ee_ttl E) (ee_internal E) (es_now s) (es_cp s)
       (get_egress_allow_list (ee_cp_list E)) cio = (effs, r) \<Longrightarrow>
     egress_step E s (s\<lparr>es_opened := es_opened s @ connects (es_now s) effs\<rparr>)"

inductive egress_reachable :: "'c egress_env \<Rightarrow> 'c egress_system \<Rightarrow> bool" for E :: "'c egress_env" where
  egress_start: "egress_reachable E (egress_init E)"
| egress_next: "egress_reachable E s \<Longrightarrow> egress_step E s s' \<Longrightarrow> egress_reachable E s'"

lemmas egress_intros [step_intros] = egress_start egress_next tick dp_lookup cp_lookup dp_egress cp_egress

text \<open>
  A destination is permitted at a time when the list opens everything or the destination is an IPv4
  address that is listed or that a live A record of a logged response names, where the query of the
  response had passed the domain check.
\<close>

definition permitted :: "dns_parse \<Rightarrow> string \<Rightarrow> dns_log \<Rightarrow> nat \<Rightarrow> IpAddr \<Rightarrow> bool" where
  "permitted parse allow_list log t ip \<longleftrightarrow>
     opens_everything allow_list
     \<or> (\<exists>v4. ip = V4 v4
          \<and> (ipv4_to_string v4 \<in> set (entries allow_list)
             \<or> (\<exists>(t0, q, p) \<in> set log. \<exists>a \<in> set (answers p). rr_data a = A v4
                  \<and> t0 \<le> t \<and> t \<le> t0 + from_secs (unat (rr_ttl a))
                  \<and> check_dns_allowed_for_domain parse q (get_egress_allow_list allow_list) = Inr ())))"

definition log_ok :: "dns_parse \<Rightarrow> string \<Rightarrow> dns_log \<Rightarrow> bool" where
  "log_ok parse allow_list log \<longleftrightarrow>
     (\<forall>(t0, q, p) \<in> set log. check_dns_allowed_for_domain parse q (get_egress_allow_list allow_list) = Inr ())"

lemma permitted_mono: "permitted parse l log t ip \<Longrightarrow> set log \<subseteq> set log' \<Longrightarrow> permitted parse l log' t ip"
  unfolding permitted_def by blast

lemma set_log_response: "set log \<subseteq> set (log_response parse now sent reply log)"
  by (auto simp: log_response_def split: list.splits option.splits)

lemma log_response_ok:
  assumes "log_ok parse l log"
    and "\<And>q. q \<in> set sent \<Longrightarrow> check_dns_allowed_for_domain parse q (get_egress_allow_list l) = Inr ()"
  shows "log_ok parse l (log_response parse now sent reply log)"
  using assms by (auto simp: log_ok_def log_response_def split: list.splits option.splits)

lemma cp_sent_allowed:
  "(ip, q) \<in> set (do_sent (proxy_dns_connection parse T now dest io target conn st)) \<Longrightarrow>
   check_dns_allowed_for_domain parse q dest = Inr () \<and> ip = target"
  by (auto simp: proxy_dns_connection_def Let_def split: prod.splits if_splits sum.splits option.splits)

lemma dp_sent_allowed:
  "perform_dns_lookup parse T now dest io packet st = (st', sent, r) \<Longrightarrow> q \<in> set sent \<Longrightarrow>
   check_dns_allowed_for_domain parse q dest = Inr () \<and> q = packet"
  by (auto simp: perform_dns_lookup_def forward_dns_lookup_def Let_def
      split: prod.splits if_splits sum.splits option.splits)

context ttl_cache
begin

lemma cp_state_justified:
  assumes "justified T (responses log) now st"
    and "out = proxy_dns_connection parse T now dest io target conn st"
  shows "justified T (responses (log_response parse now (map snd (do_sent out)) (ds_recv io) log)) now (do_state out)"
  using cache_ip_for_allowlist_justified [OF assms(1), of parse "read_into 512 (the (ds_recv io))"] assms(1)
  by (auto simp: assms(2) proxy_dns_connection_def Let_def log_response_def responses_def
      cache_ip_for_allowlist_def split: prod.splits if_splits sum.splits option.splits)

lemma dp_state_justified:
  assumes "justified T (responses log) now st"
    and "perform_dns_lookup parse T now dest io packet st = (st', sent, r)"
  shows "justified T (responses (if df_timeout io then log
     else log_response parse now sent (df_reply io) log)) now st'"
  using cache_ip_for_allowlist_justified [OF assms(1), of parse "read_into 512 (the (df_reply io))"] assms
  by (auto simp: perform_dns_lookup_def forward_dns_lookup_def Let_def log_response_def responses_def
      cache_ip_for_allowlist_def split: prod.splits if_splits sum.splits option.splits)

lemma check_ip_permitted:
  assumes "justified T (responses log) now st" "log_ok parse l log"
    and "check_ip_allow_list T now st (ip_to_string ip) (get_egress_allow_list l) = Inr ()"
  shows "permitted parse l log now ip"
proof -
  from check_ip_justified [OF assms(1,3)] consider "opens_everything l"
    | "ip_to_string ip \<in> set (filter is_ip_entry (entries l))" | "resolved (responses log) now (ip_to_string ip)"
    by (auto simp: allow_list_fields)
  then show ?thesis
  proof cases
    case 2
    then show ?thesis
      by (auto simp: is_ip_entry_def ip_to_string_v4_iff permitted_def ip_to_string_def [of "V4 _"])
  next
    case 3
    then obtain t0 q p a v4 where e: "(t0, q, p) \<in> set log" "a \<in> set (answers p)" "rr_data a = A v4"
      "ip_to_string ip = ipv4_to_string v4" "t0 \<le> now" "now \<le> t0 + from_secs (unat (rr_ttl a))"
      by (force simp: resolved_def responses_def)
    with assms(2) have "check_dns_allowed_for_domain parse q (get_egress_allow_list l) = Inr ()"
      by (auto simp: log_ok_def)
    with e show ?thesis unfolding permitted_def ip_to_string_v4_iff by blast
  qed (simp add: permitted_def)
qed

end

definition egress_inv :: "'c egress_env \<Rightarrow> 'c egress_system \<Rightarrow> bool" where
  "egress_inv E s \<longleftrightarrow>
     justified (ee_ttl E) (responses (es_dp_log s)) (es_now s) (es_dp s)
     \<and> justified (ee_ttl E) (responses (es_cp_log s)) (es_now s) (es_cp s)
     \<and> log_ok (ee_parse E) (ee_dp_list E) (es_dp_log s)
     \<and> log_ok (ee_parse E) (ee_cp_list E) (es_cp_log s)
     \<and> (\<forall>(t, ip, port) \<in> set (es_opened s).
          (is_not_globally_reachable_ip ip \<longrightarrow> ee_internal E)
          \<and> permitted (ee_parse E) (ee_cp_list E) (es_cp_log s) t ip)
     \<and> (\<forall>(t, b) \<in> set (es_forwarded s). \<exists>req. rmp_serialize (ee_codec E) req = Some b
          \<and> permitted (ee_parse E) (ee_dp_list E) (es_dp_log s) t (er_ip req))"

lemma cp_connects:
  assumes "handle_connection R T internal now st dest io = (effs, r)" "(t, ip, port) \<in> set (connects now effs)"
  shows "t = now \<and> (is_not_globally_reachable_ip ip \<longrightarrow> internal)
    \<and> check_ip_allow_list T now st (ip_to_string ip) dest = Inr ()"
  using assms
  by (auto simp: handle_connection_def connects_def validate_requested_ip_def List.map_filter_simps
      split: option.splits sum.splits if_splits)

lemma dp_forwards:
  assumes "handle_egress_connection R T now st dest io = (sent, r)" "b \<in> set sent"
  shows "\<exists>req. rmp_serialize R req = Some b
    \<and> check_ip_allow_list T now st (ip_to_string (er_ip req)) dest = Inr ()"
proof -
  from assms obtain d where "b = d" "\<exists>ip port data. rmp_serialize R \<lparr>er_ip = ip, er_data = data, er_port = port\<rparr> = Some d
      \<and> check_ip_allow_list T now st (ip_to_string ip) dest = Inr ()"
    by (force simp: handle_egress_connection_def Let_def to_bytes_def ok_or_eq_Inr
        split: option.splits sum.splits if_splits prod.splits)
  then show ?thesis by (metis ExternalRequest.select_convs(1))
qed

lemma egress_step_inv:
  assumes T: "ttl_cache (ee_ttl E)" and inv: "egress_inv E s" and step: "egress_step E s s'"
  shows "egress_inv E s'"
  using step
proof cases
  case (tick d)
  with inv show ?thesis by (auto simp: egress_inv_def elim: justified_mono)
next
  case (dp_lookup io packet st sent r)
  let ?log = "if df_timeout io then es_dp_log s
      else log_response (ee_parse E) (es_now s) sent (df_reply io) (es_dp_log s)"
  have "justified (ee_ttl E) (responses ?log) (es_now s) st"
    using inv by (intro ttl_cache.dp_state_justified [OF T _ dp_lookup(2)]) (simp add: egress_inv_def)
  moreover have "log_ok (ee_parse E) (ee_dp_list E) ?log"
    using inv dp_sent_allowed [OF dp_lookup(2)] by (auto simp: egress_inv_def intro: log_response_ok)
  moreover have "set (es_dp_log s) \<subseteq> set ?log" using set_log_response by auto
  ultimately show ?thesis
    using inv dp_lookup(1) by (auto simp: egress_inv_def) (use permitted_mono in blast)+
next
  case (cp_lookup out io target conn)
  let ?log = "log_response (ee_parse E) (es_now s) (map snd (do_sent out)) (ds_recv io) (es_cp_log s)"
  have "justified (ee_ttl E) (responses ?log) (es_now s) (do_state out)"
    using inv by (intro ttl_cache.cp_state_justified [OF T _ cp_lookup(2)]) (simp add: egress_inv_def)
  moreover have "log_ok (ee_parse E) (ee_cp_list E) ?log"
    using inv by (intro log_response_ok) (auto simp: egress_inv_def cp_lookup(2) dest: cp_sent_allowed)
  moreover have "permitted (ee_parse E) (ee_cp_list E) ?log t ip"
    if "permitted (ee_parse E) (ee_cp_list E) (es_cp_log s) t ip" for t ip
    using that set_log_response by (rule permitted_mono)
  ultimately show ?thesis
    using inv cp_lookup(1) by (auto simp: egress_inv_def)
next
  case (dp_egress dio sent r)
  have "\<exists>req. rmp_serialize (ee_codec E) req = Some b
      \<and> permitted (ee_parse E) (ee_dp_list E) (es_dp_log s) (es_now s) (er_ip req)" if "b \<in> set sent" for b
    using dp_forwards [OF dp_egress(2) that] inv ttl_cache.check_ip_permitted [OF T]
    unfolding egress_inv_def by blast
  with inv dp_egress(1) show ?thesis by (auto simp: egress_inv_def)
next
  case (cp_egress cio effs r)
  have "(is_not_globally_reachable_ip ip \<longrightarrow> ee_internal E)
      \<and> permitted (ee_parse E) (ee_cp_list E) (es_cp_log s) t ip"
    if "(t, ip, port) \<in> set (connects (es_now s) effs)" for t ip port
    using cp_connects [OF cp_egress(2) that] inv ttl_cache.check_ip_permitted [OF T]
    unfolding egress_inv_def by blast
  with inv cp_egress(1) show ?thesis by (auto simp: egress_inv_def)
qed

lemma egress_reachable_inv:
  assumes "ttl_cache (ee_ttl E)" and "egress_reachable E s"
  shows "egress_inv E s"
  using assms(2)
proof (induction rule: egress_reachable.induct)
  case egress_start
  show ?case
    using ttl_cache.justified_new [OF assms(1)]
    by (simp add: egress_inv_def egress_init_def log_ok_def)
next
  case egress_next
  then show ?case using egress_step_inv [OF assms(1)] by blast
qed

section \<open>Properties of the egress path\<close>

text \<open>
  (C1) Every connection the control plane opens, in any interleaving of lookups, connections and time, is to
  an address that is globally reachable (or internal egress was enabled) and that the allow list
  permits: everything is open, or the address is an IPv4 address that is listed or that a live A record
  names, in a response to a query all of whose names passed the domain check.
\<close>

theorem egress_only_to_permitted:
  assumes "ttl_cache (ee_ttl E)" and "egress_reachable E s" and "(t, ip, port) \<in> set (es_opened s)"
  shows "(is_not_globally_reachable_ip ip \<longrightarrow> ee_internal E)
    \<and> permitted (ee_parse E) (ee_cp_list E) (es_cp_log s) t ip"
  using egress_reachable_inv [OF assms(1,2)] assms(3) by (auto simp: egress_inv_def)

text \<open>
  (C22) What the data plane hands to the host are requests for destinations its own allow list permits, by
  what it learnt itself from answers to lookups its policy allowed, whatever the interleaving of connections and lookups.
\<close>

theorem forwarded_requests_permitted:
  assumes "ttl_cache (ee_ttl E)" and "egress_reachable E s" and "(t, b) \<in> set (es_forwarded s)"
  shows "\<exists>req. rmp_serialize (ee_codec E) req = Some b
    \<and> permitted (ee_parse E) (ee_dp_list E) (es_dp_log s) t (er_ip req)"
  using egress_reachable_inv [OF assms(1,2)] assms(3) by (auto simp: egress_inv_def)

text \<open>
  The address of an answered lookup can be used until its time to live has passed.
\<close>

theorem lookup_opens_address:
  assumes "ttl_cache T" and "\<not> lock_poisoned st"
    and "perform_dns_lookup parse T now dest io packet st = (st', sent, Inr response)"
    and "parse response = Some p" and "answers p = [a]" and "rr_data a = A ip"
    and "now \<le> t" and "t < now + from_secs (unat (rr_ttl a))"
  shows "check_ip_allow_list T t st' (ip_to_string (V4 ip)) dest = Inr ()"
proof -
  from assms(3-6) have "fst (cache_ip T now (ipv4_to_string ip) a st) = st'"
    by (auto simp: perform_dns_lookup_def Let_def cache_ip_for_allowlist_def
        split: sum.splits prod.splits if_splits option.splits)
  then show ?thesis
    using ttl_cache.cached_answer_allows_ip [OF assms(1,2) prod.collapse [symmetric] assms(8,7), of ip dest]
    by (simp add: ip_to_string_def)
qed

section \<open>From one plane to the other\<close>

text \<open>
  The codec: decoding inverts encoding, a truncated message is an error, and the encoding is longer than
  the data it carries.
\<close>

locale rmp_messages =
  fixes R :: rmp_codec
  assumes decode_encode: "rmp_serialize R r = Some b \<Longrightarrow> rmp_deserialize R b = Some r"
    and decode_truncated: "rmp_serialize R r = Some b \<Longrightarrow> n < length b \<Longrightarrow> rmp_deserialize R (take n b) = None"
    and encode_longer: "rmp_serialize R r = Some b \<Longrightarrow> length (er_data r) < length b"
begin

lemma from_bytes_prefix:
  assumes "to_bytes R req = Inr b" and "prefix got b"
  shows "from_bytes R (read_into 4096 got) = (if got = b \<and> length b \<le> 4096 then Inr req else Inl DecodeError)"
proof -
  have b: "rmp_serialize R req = Some b" using assms(1) by (simp add: to_bytes_def ok_or_eq_Inr)
  have "read_into 4096 got = take (min 4096 (length got)) b"
    using assms(2) by (auto simp: read_into_def prefix_def min_def)
  moreover have "got = b \<and> length b \<le> 4096 \<longleftrightarrow> length b \<le> min 4096 (length got)"
    using assms(2) prefix_length_le [OF assms(2)] by (auto simp: prefix_def)
  ultimately show ?thesis
    using decode_encode [OF b] decode_truncated [OF b, of "min 4096 (length got)"]
    by (auto simp: from_bytes_def result_simps not_le)
qed

lemma from_bytes_read:
  assumes "to_bytes R req = Inr b"
  shows "from_bytes R (read_into 4096 b) = (if length b \<le> 4096 then Inr req else Inl DecodeError)"
  using from_bytes_prefix [OF assms, of b] by simp

lemma handled_request:
  assumes "handle_egress_connection R T now st dest io = ([b], r)"
  shows "\<exists>ip port data req. get_destination (dp_dst io) = Inr (ip, port) \<and> dp_read io = Some data
    \<and> req = \<lparr>er_ip = ip, er_data = read_into 4096 data, er_port = port\<rparr> \<and> to_bytes R req = Inr b"
  using assms
  by (auto simp: handle_egress_connection_def Let_def split: option.splits sum.splits if_splits prod.splits)

end

text \<open>
  (C35) What becomes of a connection that both planes admit: when the encoded request arrives in the first read of the control plane,
  which takes at most 4096 bytes, the control plane connects to the destination the application had chosen and writes exactly the
  bytes the application had sent first. When only a part of it arrives in that read, or it is longer than 4096 bytes, the connection
  is refused with a decoding error and nothing is sent. The encoding is longer than the data, so an application whose first read
  fills the buffer of the data plane is always refused.
\<close>

theorem egress_request_delivered:
  assumes "rmp_messages R"
    and "handle_egress_connection R T now st dest io = ([b], r)"
    and "get_destination (dp_dst io) = Inr (ip, port)" and "dp_read io = Some data"
    and "eg_read cio = Some got" and "prefix got b"
    and "validate_requested_ip ip internal = Inr ()"
    and "check_ip_allow_list T' now' st' (ip_to_string ip) dest' = Inr ()"
    and "eg_connect cio ip port" and "eg_write cio"
  shows "(if got = b \<and> length b \<le> 4096
      then fst (handle_connection R T' internal now' st' dest' cio) =
        [Connect ip port, WriteRemote (take 4096 data), PipeStreams]
      else handle_connection R T' internal now' st' dest' cio = ([], Inl (CpRpc DecodeError)))
    \<and> (4096 \<le> length data \<longrightarrow> 4096 < length b)"
proof -
  let ?req = "\<lparr>er_ip = ip, er_data = read_into 4096 data, er_port = port\<rparr>"
  have b: "to_bytes R ?req = Inr b"
    using rmp_messages.handled_request [OF assms(1,2)] assms(3,4) by auto
  have "length (read_into 4096 data) < length b"
    using rmp_messages.encode_longer [OF assms(1), of ?req b] b by (simp add: to_bytes_def ok_or_eq_Inr)
  then have long: "4096 \<le> length data \<longrightarrow> 4096 < length b" by (auto simp: read_into_def)
  note got = rmp_messages.from_bytes_prefix [OF assms(1) b assms(6)]
  have data: "read_into 4096 data = take 4096 data" by (simp add: read_into_def)
  show ?thesis
  proof (cases "got = b \<and> length b \<le> 4096")
    case True
    then have "from_bytes R (read_into 4096 got) = Inr ?req" using got by simp
    then show ?thesis using True assms(5,7-10) long data by (simp add: handle_connection_def)
  next
    case False
    then have "from_bytes R (read_into 4096 got) = Inl DecodeError" using got by simp
    then have "handle_connection R T' internal now' st' dest' cio = ([], Inl (CpRpc DecodeError))"
      using assms(5) by (simp add: handle_connection_def)
    with False long show ?thesis by (simp only: if_False simp_thms)
  qed
qed

text \<open>
  A first read of the application that fills the data plane's buffer is never delivered: the encoded
  request is longer than the buffer the control plane reads it into, which fails to decode it.
\<close>

theorem full_buffer_is_refused:
  assumes "rmp_messages R"
    and "handle_egress_connection R T now st dest io = ([b], r)"
    and "dp_read io = Some data" and "4096 \<le> length data" and "eg_read cio = Some b"
  shows "handle_connection R T' internal now' st' dest' cio = ([], Inl (CpRpc DecodeError))"
proof -
  obtain ip port where "to_bytes R \<lparr>er_ip = ip, er_data = take 4096 data, er_port = port\<rparr> = Inr b"
    using rmp_messages.handled_request [OF assms(1,2)] assms(3) by (auto simp: read_into_def)
  then obtain req where req: "er_data req = take 4096 data" "to_bytes R req = Inr b"
    by (metis ExternalRequest.select_convs(2))
  with assms(4) have "4096 < length b"
    using rmp_messages.encode_longer [OF assms(1), of req b] by (simp add: to_bytes_def ok_or_eq_Inr)
  with rmp_messages.from_bytes_read [OF assms(1) req(2)] assms(5) show ?thesis
    by (simp add: handle_connection_def)
qed

lemma proxy_dns_empty:
  assumes "parse [] = None" and "dc_incoming conn = []"
  shows "do_sent (proxy_dns_connection parse T now dest io target conn st) = []
    \<and> dc_incoming (do_conn (proxy_dns_connection parse T now dest io target conn st)) = []"
  using assms by (simp add: proxy_dns_connection_def conn_read_def check_dns_allowed_for_domain_def)

lemma dns_failover_empty:
  assumes "parse [] = None" and "dc_incoming conn = []"
  shows "snd (snd (dns_failover parse T now dest services conn st)) = []"
  using assms
proof (induction services arbitrary: conn st)
  case (Cons s services)
  obtain target io where s: "s = (target, io)" by fastforce
  show ?case
    using Cons.IH Cons.prems proxy_dns_empty [of parse conn T now dest io target st]
    by (auto simp: s Let_def split: sum.splits CpServerError.splits prod.splits)
qed simp

text \<open>
  The proxy has a list of DNS servers to fall back on, but the request is read from the connection
  again for each of them: a request that arrived in one piece is sent to the first server at most.
\<close>

theorem dns_failover_asks_first_server_only:
  assumes "parse [] = None" and "dc_incoming conn = [request]" and "length request \<le> 512"
    and "ds_read (snd first)" and "dns_failover parse T now dest (first # others) conn st = (conn', st', sent)"
  shows "sent = [] \<or> sent = [(fst first, request)]"
proof -
  obtain target io where f: "first = (target, io)" by fastforce
  let ?out = "proxy_dns_connection parse T now dest io target conn st"
  have "dc_incoming (do_conn ?out) = []" "do_sent ?out = [] \<or> do_sent ?out = [(target, request)]"
    using assms(2-4) f by (auto simp: proxy_dns_connection_def conn_read_def Let_def
        split: prod.splits if_splits sum.splits option.splits)
  with assms(5) dns_failover_empty [of parse "do_conn ?out" T now dest others "do_state ?out"] assms(1) f
  show ?thesis
    by (auto simp: Let_def split: sum.splits CpServerError.splits prod.splits)
qed

section \<open>A concrete codec and a concrete run\<close>

text \<open>A self-delimiting codec for IPv4 requests: the address, the port and the marked data bytes.\<close>

fun enc_data :: "bytes \<Rightarrow> bytes" where
  "enc_data [] = [CHR 0x00]"
| "enc_data (b # bs) = CHR 0x01 # b # enc_data bs"

fun dec_data :: "bytes \<Rightarrow> bytes option" where
  "dec_data [c] = (if c = CHR 0x00 then Some [] else None)"
| "dec_data (c # b # bs) = (if c = CHR 0x01 then map_option (Cons b) (dec_data bs) else None)"
| "dec_data [] = None"

definition u8_char :: "u8 \<Rightarrow> char" where
  "u8_char w = char_of (unat w)"

definition char_u8 :: "char \<Rightarrow> u8" where
  "char_u8 c = of_nat (of_char c)"

definition ref_codec :: rmp_codec where
  "ref_codec =
     \<lparr>rmp_serialize = (\<lambda>r. case er_ip r of
         V4 ip \<Rightarrow> Some (map u8_char [o1 ip, o2 ip, o3 ip, o4 ip,
            ucast (drop_bit 8 (er_port r)), ucast (er_port r)] @ enc_data (er_data r))
       | V6 _ \<Rightarrow> None),
      rmp_deserialize = (\<lambda>bs. if length bs < 6 then None else
        map_option (\<lambda>d. \<lparr>er_ip = V4 (Ipv4 (char_u8 (bs ! 0)) (char_u8 (bs ! 1)) (char_u8 (bs ! 2)) (char_u8 (bs ! 3))),
           er_data = d, er_port = u16_from_be (char_u8 (bs ! 4), char_u8 (bs ! 5))\<rparr>)
          (dec_data (drop 6 bs)))\<rparr>"

lemma char_u8_u8_char [simp]: "char_u8 (u8_char w) = w"
  by (simp add: char_u8_def u8_char_def)

lemma u16_split_join: "u16_from_be (ucast (drop_bit 8 p), ucast p) = p"
proof -
  have "unat p < 65536" using unat_u16 .
  then have "unat p div 256 < 256" by (simp add: less_mult_imp_div_less)
  then show ?thesis
    by (simp add: u16_from_be_def word_unat_eq_iff unat_word_ariths
        drop_bit_eq_div unat_div unsigned_ucast_eq take_bit_eq_mod)
qed

lemma dec_enc_data: "dec_data (enc_data d) = Some d"
  by (induction d) simp_all

lemma dec_enc_data_truncated: "n < length (enc_data d) \<Longrightarrow> dec_data (take n (enc_data d)) = None"
proof (induction d arbitrary: n)
  case (Cons b d)
  then show ?case
    by (cases n; cases "n - 1") (auto simp: take_Cons')
qed simp

lemma length_enc_data: "length (enc_data d) = 2 * length d + 1"
  by (induction d) simp_all

interpretation ref_codec: rmp_messages ref_codec
proof (unfold_locales, goal_cases)
  case (1 r b)
  then show ?case
    by (auto simp: ref_codec_def u16_split_join dec_enc_data split: IpAddr.splits)
next
  case (2 r b n)
  then show ?case
    by (cases "n < 6") (auto simp: ref_codec_def dec_enc_data_truncated drop_take split: IpAddr.splits)
next
  case (3 r b)
  then show ?case
    by (auto simp: ref_codec_def length_enc_data split: IpAddr.splits)
qed

definition sample_parse :: dns_parse where
  "sample_parse b =
     (if b = ''q'' then Some \<lparr>questions = [''a.com''], answers = []\<rparr>
      else if b = ''r'' then Some \<lparr>questions = [''a.com''],
        answers = [\<lparr>rr_name = ''a.com'', rr_ttl = 60, rr_data = A (Ipv4 9 9 9 9)\<rparr>]\<rparr>
      else None)"

definition sample_egress :: "alist_cache egress_env" where
  "sample_egress =
     \<lparr>ee_parse = sample_parse, ee_ttl = alist_ttl, ee_codec = ref_codec, ee_internal = False,
      ee_dp_list = ''1.1.1.1,a.com'', ee_cp_list = ''1.1.1.1,a.com''\<rparr>"

definition sample_req :: ExternalRequest where
  "sample_req = \<lparr>er_ip = V4 (Ipv4 1 1 1 1), er_data = ''hi'', er_port = 443\<rparr>"

definition sample_bytes :: bytes where
  "sample_bytes = the (rmp_serialize ref_codec sample_req)"

definition sample_dp_io :: "bytes \<Rightarrow> dp_egress_io" where
  "sample_dp_io data = \<lparr>dp_read = Some data, dp_vsock = True,
     dp_dst = \<lparr>od_v4 = Some ((1, 1, 1, 1), (1, 187)), od_v6 = None\<rparr>, dp_write = True, dp_copy = CopyDone\<rparr>"

definition sample_cp_io :: "bytes \<Rightarrow> egress_io" where
  "sample_cp_io b = \<lparr>eg_read = Some b, eg_connect = (\<lambda>_ _. True), eg_write = True, eg_copy = CopyDone\<rparr>"

definition sample_list :: EgressDestinations where
  "sample_list = \<lparr>wildcard = [], exact = [''a.com''], allow_all = False, ips = [''1.1.1.1'']\<rparr>"

lemma sample_list: "get_egress_allow_list ''1.1.1.1,a.com'' = sample_list"
  unfolding sample_list_def by code_simp

lemma sample_text: "ip_to_string (V4 (Ipv4 1 1 1 1)) = ''1.1.1.1''"
  by code_simp

lemma sample_validate: "validate_requested_ip (V4 (Ipv4 1 1 1 1)) False = Inr ()"
  by code_simp

lemma sample_to_bytes: "to_bytes ref_codec sample_req = Inr sample_bytes"
  by (simp add: to_bytes_def sample_bytes_def sample_req_def ref_codec_def)

lemma sample_bytes_length: "length sample_bytes = 11"
  by (simp add: sample_bytes_def sample_req_def ref_codec_def)

lemma sample_handle_connection:
  "handle_connection ref_codec T False now st sample_list (sample_cp_io sample_bytes) =
   ([Connect (V4 (Ipv4 1 1 1 1)) 443, WriteRemote ''hi'', PipeStreams], Inr ())"
  using ref_codec.from_bytes_read [OF sample_to_bytes]
  by (simp add: handle_connection_def sample_cp_io_def sample_bytes_length sample_req_def
      sample_validate check_ip_allow_list_def sample_list_def sample_text pipe_streams_def)

lemma sample_handle_egress:
  "handle_egress_connection ref_codec T now st sample_list (sample_dp_io ''hi'') = ([sample_bytes], Inr ())"
proof -
  have "to_bytes ref_codec \<lparr>er_ip = V4 (Ipv4 1 1 1 1), er_data = ''hi'', er_port = 443\<rparr> = Inr sample_bytes"
    using sample_to_bytes by (simp add: sample_req_def)
  then show ?thesis
    by (simp add: handle_egress_connection_def sample_dp_io_def read_into_def get_destination_def
        get_destination_ipv4_def u16_from_be_def check_ip_allow_list_def sample_list_def sample_text
        pipe_streams_def)
qed

lemma sample_egress_fields [simp]:
  "ee_parse sample_egress = sample_parse" "ee_ttl sample_egress = alist_ttl"
  "ee_codec sample_egress = ref_codec" "ee_internal sample_egress = False"
  "ee_dp_list sample_egress = ''1.1.1.1,a.com''" "ee_cp_list sample_egress = ''1.1.1.1,a.com''"
  by (simp_all add: sample_egress_def)

lemma sample_run:
  "\<exists>s. egress_reachable sample_egress s \<and> (0, V4 (Ipv4 1 1 1 1), 443) \<in> set (es_opened s)
     \<and> (0, sample_bytes) \<in> set (es_forwarded s)"
proof -
  let ?s0 = "egress_init sample_egress"
  let ?s1 = "?s0\<lparr>es_forwarded := [(0, sample_bytes)]\<rparr>"
  have d: "handle_egress_connection (ee_codec sample_egress) (ee_ttl sample_egress) (es_now ?s0) (es_dp ?s0)
     (get_egress_allow_list (ee_dp_list sample_egress)) (sample_dp_io ''hi'') = ([sample_bytes], Inr ())"
    by (simp add: sample_list sample_handle_egress)
  have s1: "egress_reachable sample_egress ?s1"
    using egress_next [OF egress_start dp_egress [OF d]] by (simp add: egress_init_def)
  have "handle_connection (ee_codec sample_egress) (ee_ttl sample_egress) (ee_internal sample_egress)
      (es_now ?s1) (es_cp ?s1) (get_egress_allow_list (ee_cp_list sample_egress)) (sample_cp_io sample_bytes)
    = ([Connect (V4 (Ipv4 1 1 1 1)) 443, WriteRemote ''hi'', PipeStreams], Inr ())"
    by (simp add: sample_list sample_handle_connection)
  from egress_next [OF s1 cp_egress [OF this]] show ?thesis
    by (force simp: connects_def List.map_filter_simps egress_init_def)
qed

theorem egress_only_to_permitted_witness:
  "\<exists>s :: alist_cache egress_system. (0, V4 (Ipv4 1 1 1 1), 443) \<in> set (es_opened s)
     \<and> permitted sample_parse ''1.1.1.1,a.com'' (es_cp_log s) 0 (V4 (Ipv4 1 1 1 1))"
proof -
  from sample_run obtain s where s: "egress_reachable sample_egress s"
    "(0, V4 (Ipv4 1 1 1 1), 443) \<in> set (es_opened s)" by blast
  have "ttl_cache (ee_ttl sample_egress)" by (simp add: alist_ttl.ttl_cache_axioms)
  from egress_only_to_permitted [OF this s] s(2) show ?thesis by auto
qed

theorem forwarded_requests_permitted_witness:
  "\<exists>s :: alist_cache egress_system. (0, sample_bytes) \<in> set (es_forwarded s)
     \<and> (\<exists>req. rmp_serialize ref_codec req = Some sample_bytes
         \<and> permitted sample_parse ''1.1.1.1,a.com'' (es_dp_log s) 0 (er_ip req))"
proof -
  from sample_run obtain s where s: "egress_reachable sample_egress s"
    "(0, sample_bytes) \<in> set (es_forwarded s)" by blast
  have "ttl_cache (ee_ttl sample_egress)" by (simp add: alist_ttl.ttl_cache_axioms)
  from forwarded_requests_permitted [OF this s] s(2) show ?thesis by auto
qed

theorem egress_request_delivered_witness:
  "fst (handle_connection ref_codec alist_ttl False 7 (ALLOWED_IPS_FROM_DNS alist_ttl) sample_list
     (sample_cp_io sample_bytes)) = [Connect (V4 (Ipv4 1 1 1 1)) 443, WriteRemote ''hi'', PipeStreams]"
proof -
  have d: "get_destination (dp_dst (sample_dp_io ''hi'')) = Inr (V4 (Ipv4 1 1 1 1), 443)"
    by (simp add: sample_dp_io_def get_destination_def get_destination_ipv4_def u16_from_be_def)
  have r: "dp_read (sample_dp_io ''hi'') = Some ''hi''" by (simp add: sample_dp_io_def)
  show ?thesis
    using egress_request_delivered [OF ref_codec.rmp_messages_axioms sample_handle_egress d r,
        of "sample_cp_io sample_bytes" sample_bytes False alist_ttl 7 "ALLOWED_IPS_FROM_DNS alist_ttl" sample_list]
    by (simp add: sample_cp_io_def sample_bytes_length sample_validate check_ip_allow_list_def sample_list_def sample_text)
qed

theorem full_buffer_is_refused_witness:
  "\<exists>b. handle_egress_connection ref_codec alist_ttl 0 (ALLOWED_IPS_FROM_DNS alist_ttl) sample_list
         (sample_dp_io (replicate 4096 CHR ''x'')) = ([b], Inr ())
     \<and> handle_connection ref_codec alist_ttl False 0 (ALLOWED_IPS_FROM_DNS alist_ttl) sample_list
         (sample_cp_io b) = ([], Inl (CpRpc DecodeError))"
proof -
  let ?io = "sample_dp_io (replicate 4096 CHR ''x'')"
  obtain b where b: "rmp_serialize ref_codec
      \<lparr>er_ip = V4 (Ipv4 1 1 1 1), er_data = replicate 4096 CHR ''x'', er_port = 443\<rparr> = Some b"
    by (simp add: ref_codec_def)
  then have d: "handle_egress_connection ref_codec alist_ttl 0 (ALLOWED_IPS_FROM_DNS alist_ttl) sample_list ?io
      = ([b], Inr ())"
    by (simp add: handle_egress_connection_def sample_dp_io_def read_into_def get_destination_def
        get_destination_ipv4_def u16_from_be_def check_ip_allow_list_def sample_list_def sample_text
        pipe_streams_def to_bytes_def)
  have "dp_read ?io = Some (replicate 4096 CHR ''x'')" by (simp add: sample_dp_io_def)
  from full_buffer_is_refused [OF ref_codec.rmp_messages_axioms d this, of "sample_cp_io b"] d
  show ?thesis by (auto simp: sample_cp_io_def)
qed

definition sample_lookup_io :: dns_forward_io where
  "sample_lookup_io = \<lparr>df_vsock = True, df_write = True, df_reply = Some ''r'', df_timeout = False\<rparr>"

theorem lookup_opens_address_witness:
  "\<exists>st sent. perform_dns_lookup sample_parse alist_ttl 5 sample_list sample_lookup_io ''q''
       (ALLOWED_IPS_FROM_DNS alist_ttl) = (st, sent, Inr ''r'')
     \<and> check_ip_allow_list alist_ttl 1000 st (ip_to_string (V4 (Ipv4 9 9 9 9))) sample_list = Inr ()"
proof -
  obtain st sent where l: "perform_dns_lookup sample_parse alist_ttl 5 sample_list sample_lookup_io ''q''
       (ALLOWED_IPS_FROM_DNS alist_ttl) = (st, sent, Inr ''r'')"
    by (simp add: perform_dns_lookup_def check_dns_allowed_for_domain_def sample_parse_def sample_list_def
        check_domain_allow_list_def forward_dns_lookup_def sample_lookup_io_def read_into_def
        cache_ip_for_allowlist_def cache_ip_def ALLOWED_IPS_FROM_DNS_def)
  have n: "\<not> lock_poisoned (ALLOWED_IPS_FROM_DNS alist_ttl)" by (simp add: ALLOWED_IPS_FROM_DNS_def)
  show ?thesis
    using lookup_opens_address [OF alist_ttl.ttl_cache_axioms n l, of _ _ "Ipv4 9 9 9 9" 1000] l
    by (simp add: sample_parse_def from_secs_def)
qed

definition dead_server :: dns_server_io where
  "dead_server = \<lparr>ds_read = True, ds_socket = True, ds_send = True, ds_recv = None, ds_write_back = True\<rparr>"

definition live_server :: dns_server_io where
  "live_server = \<lparr>ds_read = True, ds_socket = True, ds_send = True, ds_recv = Some ''r'', ds_write_back = True\<rparr>"

theorem dns_failover_asks_first_server_only_witness:
  "\<exists>conn st. dns_failover sample_parse alist_ttl 0 sample_list
       [(V4 (Ipv4 1 1 1 1), dead_server), (V4 (Ipv4 8 8 8 8), live_server)]
       \<lparr>dc_incoming = [''q''], dc_written = []\<rparr> (ALLOWED_IPS_FROM_DNS alist_ttl)
     = (conn, st, [(V4 (Ipv4 1 1 1 1), ''q'')])"
proof -
  let ?r = "dns_failover sample_parse alist_ttl 0 sample_list
       [(V4 (Ipv4 1 1 1 1), dead_server), (V4 (Ipv4 8 8 8 8), live_server)]
       \<lparr>dc_incoming = [''q''], dc_written = []\<rparr> (ALLOWED_IPS_FROM_DNS alist_ttl)"
  obtain c s sent where r: "?r = (c, s, sent)" by (metis prod_cases3)
  have "sent = [] \<or> sent = [(V4 (Ipv4 1 1 1 1), ''q'')]"
    using dns_failover_asks_first_server_only [OF _ _ _ _ r, of "''q''"] by (simp add: sample_parse_def dead_server_def)
  moreover have "sent \<noteq> []"
    using r by (auto simp: proxy_dns_connection_def conn_read_def check_dns_allowed_for_domain_def
        sample_parse_def sample_list_def check_domain_allow_list_def dead_server_def Let_def
        split: prod.splits)
  ultimately show ?thesis using r by auto
qed

end
