(* ===== verification/Dns_Driver.thy ===== *)
theory Dns_Driver
  imports Egress_Proxy
begin

text \<open>
  The DNS server of the data plane, \<open>data-plane/src/dns/enclavedns.rs\<close>: the loop that reads datagrams and
  queues them (\<open>bind_server\<close>), the driver that takes them from the queue and starts a task for each
  (\<open>start_driver\<close>), and the tasks, which run concurrently. The bounded channel and the semaphore are
  those of tokio: \<open>send\<close> waits while the channel is full (here for at most a second, after which the
  datagram is dropped) and \<open>acquire_owned\<close> waits for a free permit.
\<close>

section \<open>State and steps\<close>

type_synonym 'a lookup = "bytes \<times> 'a"

text \<open>
  The datagrams received so far, the channel, the lookup for which the driver waits for a permit, the
  running tasks, the datagrams sent.
\<close>

record ('a, 'c) dns_driver =
  dr_received :: "'a lookup list"
  dr_channel :: "'a lookup list"
  dr_waiting :: "'a lookup option"
  dr_tasks :: "'a lookup list"
  dr_sent :: "('a \<times> bytes) list"
  dr_cache :: "'c egress_state"
  dr_now :: nat

definition channel_capacity :: nat where "channel_capacity = 500"

definition max_concurrent_requests :: nat where "max_concurrent_requests = 250"

definition driver_init :: "'c ttl_api \<Rightarrow> ('a, 'c) dns_driver" where
  "driver_init T =
     \<lparr>dr_received = [], dr_channel = [], dr_waiting = None, dr_tasks = [], dr_sent = [],
      dr_cache = ALLOWED_IPS_FROM_DNS T, dr_now = 0\<rparr>"

text \<open>\<open>recv_from\<close> into a buffer of 512 bytes and \<open>send\<close> on the channel with a timeout.\<close>

definition dispatch :: "bytes \<Rightarrow> 'a \<Rightarrow> ('a, 'c) dns_driver \<Rightarrow> ('a, 'c) dns_driver" where
  "dispatch datagram src s =
     (let item = (read_into 512 datagram, src); s = s\<lparr>dr_received := dr_received s @ [item]\<rparr> in
      if length (dr_channel s) < channel_capacity
      then s\<lparr>dr_channel := dr_channel s @ [item]\<rparr> else s)"

text \<open>\<open>recv\<close> on the channel: the driver takes the oldest lookup.\<close>

definition take_lookup :: "('a, 'c) dns_driver \<Rightarrow> ('a, 'c) dns_driver option" where
  "take_lookup s =
     (case (dr_waiting s, dr_channel s) of
        (None, item # rest) \<Rightarrow> Some (s\<lparr>dr_channel := rest, dr_waiting := Some item\<rparr>)
      | _ \<Rightarrow> None)"

text \<open>\<open>acquire_owned\<close> and \<open>spawn\<close>: a permit is free while fewer tasks run than there are permits.\<close>

definition spawn_lookup :: "('a, 'c) dns_driver \<Rightarrow> ('a, 'c) dns_driver option" where
  "spawn_lookup s =
     (case dr_waiting s of
        Some item \<Rightarrow>
          if length (dr_tasks s) < max_concurrent_requests
          then Some (s\<lparr>dr_waiting := None, dr_tasks := dr_tasks s @ [item]\<rparr>) else None
      | None \<Rightarrow> None)"

text \<open>A task: the lookup, the response to the source when it succeeded; the permit is dropped at the end.\<close>

definition run_task ::
  "dns_parse \<Rightarrow> 'c ttl_api \<Rightarrow> EgressDestinations \<Rightarrow> dns_forward_io \<Rightarrow> bool \<Rightarrow> nat \<Rightarrow>
   ('a, 'c) dns_driver \<Rightarrow> ('a, 'c) dns_driver option" where
  "run_task parse T dest io send_ok i s =
     (if i < length (dr_tasks s)
      then (let (packet, src) = dr_tasks s ! i;
                (st, _, r) = perform_dns_lookup parse T (dr_now s) dest io packet (dr_cache s);
                s = s\<lparr>dr_tasks := take i (dr_tasks s) @ drop (Suc i) (dr_tasks s), dr_cache := st\<rparr>
            in Some (case r of
                 Inl e \<Rightarrow> s
               | Inr response \<Rightarrow> if send_ok then s\<lparr>dr_sent := dr_sent s @ [(src, response)]\<rparr> else s))
      else None)"

inductive driver_step ::
  "dns_parse \<Rightarrow> 'c ttl_api \<Rightarrow> EgressDestinations \<Rightarrow> ('a, 'c) dns_driver \<Rightarrow> ('a, 'c) dns_driver \<Rightarrow> bool"
  for parse T dest where
  dr_tick: "driver_step parse T dest s (s\<lparr>dr_now := dr_now s + d\<rparr>)"
| dr_dispatch: "driver_step parse T dest s (dispatch datagram src s)"
| dr_take: "take_lookup s = Some s' \<Longrightarrow> driver_step parse T dest s s'"
| dr_spawn: "spawn_lookup s = Some s' \<Longrightarrow> driver_step parse T dest s s'"
| dr_task: "run_task parse T dest io ok i s = Some s' \<Longrightarrow> driver_step parse T dest s s'"

inductive driver_reachable ::
  "dns_parse \<Rightarrow> 'c ttl_api \<Rightarrow> EgressDestinations \<Rightarrow> ('a, 'c) dns_driver \<Rightarrow> bool"
  for parse T dest where
  dr_start: "driver_reachable parse T dest (driver_init T)"
| dr_next: "driver_reachable parse T dest s \<Longrightarrow> driver_step parse T dest s s' \<Longrightarrow> driver_reachable parse T dest s'"

lemmas driver_intros [step_intros] = dr_start dr_next dr_tick dr_dispatch dr_take dr_spawn dr_task

section \<open>Invariant\<close>

definition pending :: "('a, 'c) dns_driver \<Rightarrow> 'a lookup list" where
  "pending s = dr_channel s @ (case dr_waiting s of None \<Rightarrow> [] | Some i \<Rightarrow> [i]) @ dr_tasks s"

text \<open>The queue and the tasks are bounded, nothing is looked up that was not received, and every
  datagram sent answers an admitted query of the source it goes to.\<close>

definition driver_inv :: "dns_parse \<Rightarrow> EgressDestinations \<Rightarrow> ('a, 'c) dns_driver \<Rightarrow> bool" where
  "driver_inv parse dest s \<longleftrightarrow>
     length (dr_channel s) \<le> channel_capacity \<and> length (dr_tasks s) \<le> max_concurrent_requests
     \<and> set (pending s) \<subseteq> set (dr_received s)
     \<and> (\<forall>(src, response) \<in> set (dr_sent s). \<exists>packet. (packet, src) \<in> set (dr_received s)
          \<and> check_dns_allowed_for_domain parse packet dest = Inr () \<and> parse response \<noteq> None)"

lemma lookup_answer:
  "perform_dns_lookup parse T now dest io packet st = (st', sent, Inr response) \<Longrightarrow>
   check_dns_allowed_for_domain parse packet dest = Inr () \<and> parse response \<noteq> None"
  by (auto simp: perform_dns_lookup_def Let_def cache_ip_for_allowlist_def
      split: sum.splits prod.splits if_splits option.splits)

lemma run_task_inv:
  assumes "driver_inv parse dest s" "run_task parse T dest io ok i s = Some s'"
  shows "driver_inv parse dest s'"
proof -
  from assms(2) have i: "i < length (dr_tasks s)" by (simp add: run_task_def split: if_splits)
  obtain packet src where t: "dr_tasks s ! i = (packet, src)" by fastforce
  obtain st sent r where l: "perform_dns_lookup parse T (dr_now s) dest io packet (dr_cache s) = (st, sent, r)"
    by (metis prod_cases3)
  let ?s = "s\<lparr>dr_tasks := take i (dr_tasks s) @ drop (Suc i) (dr_tasks s), dr_cache := st\<rparr>"
  have s': "s' = ?s \<or> (\<exists>response. r = Inr response \<and> s' = ?s\<lparr>dr_sent := dr_sent s @ [(src, response)]\<rparr>)"
    using assms(2) i t l by (auto simp: run_task_def Let_def split: sum.splits if_splits)
  have "(packet, src) \<in> set (pending s)" using i t by (auto simp: pending_def) (metis nth_mem)
  with assms(1) have rcv: "(packet, src) \<in> set (dr_received s)" by (auto simp: driver_inv_def)
  have "set (pending ?s) \<subseteq> set (pending s)"
    by (auto simp: pending_def dest: in_set_takeD in_set_dropD)
  moreover have "length (dr_tasks ?s) \<le> length (dr_tasks s)" by simp
  ultimately have inv: "driver_inv parse dest ?s" using assms(1) by (auto simp: driver_inv_def)
  from s' show ?thesis
  proof
    assume "\<exists>response. r = Inr response \<and> s' = ?s\<lparr>dr_sent := dr_sent s @ [(src, response)]\<rparr>"
    then obtain response where r: "r = Inr response" "s' = ?s\<lparr>dr_sent := dr_sent s @ [(src, response)]\<rparr>"
      by blast
    have "pending s' = pending ?s" by (simp add: r(2) pending_def)
    with inv lookup_answer [OF l [unfolded r(1)]] rcv show ?thesis by (auto simp: driver_inv_def r(2))
  qed (simp add: inv)
qed

lemma driver_step_inv:
  assumes "driver_inv parse dest s" "driver_step parse T dest s s'"
  shows "driver_inv parse dest s'"
  using assms(2)
proof cases
  case (dr_task io ok i)
  then show ?thesis using run_task_inv assms(1) by blast
next
  case (dr_tick d)
  with assms(1) show ?thesis by (simp add: driver_inv_def pending_def)
next
  case (dr_dispatch datagram src)
  show ?thesis
    unfolding dr_dispatch dispatch_def Let_def
    using assms(1) by (simp add: driver_inv_def pending_def) blast
next
  case dr_take
  with assms(1) show ?thesis
    by (auto simp: driver_inv_def pending_def take_lookup_def split: list.splits option.splits)
next
  case dr_spawn
  with assms(1) show ?thesis
    by (auto simp: driver_inv_def pending_def spawn_lookup_def split: option.splits if_splits)
qed

text \<open>
  (C20) The DNS server never holds more than 500 queued lookups and never runs more than 250 at a time, and
  every datagram it sends goes to a source that had asked a question whose names are all allowed, and
  is a well-formed packet.
\<close>

theorem driver_bounded_and_answers:
  assumes "driver_reachable parse T dest s"
  shows "length (dr_channel s) \<le> 500 \<and> length (dr_tasks s) \<le> 250
    \<and> (\<forall>(src, response) \<in> set (dr_sent s). \<exists>packet. (packet, src) \<in> set (dr_received s)
          \<and> check_dns_allowed_for_domain parse packet dest = Inr () \<and> parse response \<noteq> None)"
proof -
  from assms have "driver_inv parse dest s"
  proof induction
    case dr_start
    show ?case by (simp add: driver_inv_def driver_init_def pending_def)
  qed (rule driver_step_inv)
  then show ?thesis by (simp add: driver_inv_def channel_capacity_def max_concurrent_requests_def)
qed

theorem driver_bounded_and_answers_witness:
  "\<exists>s :: (nat, alist_cache) dns_driver. dr_sent s = [(7, ''r'')]
     \<and> (\<exists>packet. (packet, 7) \<in> set (dr_received s)
          \<and> check_dns_allowed_for_domain sample_parse packet sample_list = Inr ())"
proof -
  let ?s0 = "driver_init alist_ttl :: (nat, alist_cache) dns_driver"
  let ?s1 = "dispatch ''q'' 7 ?s0"
  let ?s2 = "?s1\<lparr>dr_channel := [], dr_waiting := Some (''q'', 7)\<rparr>"
  let ?s3 = "?s2\<lparr>dr_waiting := None, dr_tasks := [(''q'', 7)]\<rparr>"
  have r1: "driver_reachable sample_parse alist_ttl sample_list ?s1"
    by (rule dr_next [OF dr_start dr_dispatch])
  have r2: "driver_reachable sample_parse alist_ttl sample_list ?s2"
    by (rule dr_next [OF r1 dr_take])
      (simp add: take_lookup_def dispatch_def Let_def driver_init_def channel_capacity_def read_into_def)
  have r3: "driver_reachable sample_parse alist_ttl sample_list ?s3"
    by (rule dr_next [OF r2 dr_spawn])
      (simp add: spawn_lookup_def dispatch_def Let_def driver_init_def channel_capacity_def max_concurrent_requests_def)
  obtain s where s: "run_task sample_parse alist_ttl sample_list sample_lookup_io True 0 ?s3 = Some s"
    "dr_sent s = [(7, ''r'')]"
    by (simp add: run_task_def dispatch_def Let_def driver_init_def channel_capacity_def perform_dns_lookup_def
        check_dns_allowed_for_domain_def sample_parse_def sample_list_def
        check_domain_allow_list_def forward_dns_lookup_def sample_lookup_io_def read_into_def
        cache_ip_for_allowlist_def cache_ip_def ALLOWED_IPS_FROM_DNS_def)
  from driver_bounded_and_answers [OF dr_next [OF r3 dr_task [OF s(1)]]] s(2) show ?thesis by fastforce
qed

end
