(* ===== verification/Http_Types.thy ===== *)
theory Http_Types
  imports Enclave_Prelude
begin

text \<open>
  HTTP messages as the tower layers of the data plane see them. Header maps, header names and header
  values are types of the \<open>http\<close> crate: their operations are the fields of a record that the layers
  take as a parameter, and the locale \<open>header_map\<close> states the documented behaviour the layers rely on
  (\<open>insert\<close> replaces, \<open>append\<close> adds, \<open>get\<close> returns the first value, names compare without case, visible
  ASCII is a valid value and a string).
  The extensions of a request or response are the two values the repository stores in them: the
  transaction context and the remote address. A body is its bytes, or \<open>None\<close> when reading it fails.
\<close>

record 'h headers_api =
  hm_empty :: 'h
  hm_get :: "'h \<Rightarrow> string \<Rightarrow> bytes option"
  hm_insert :: "string \<Rightarrow> bytes \<Rightarrow> 'h \<Rightarrow> 'h"
  hm_append :: "string \<Rightarrow> bytes \<Rightarrow> 'h \<Rightarrow> 'h"
  hm_remove :: "string \<Rightarrow> 'h \<Rightarrow> 'h"
  hm_iter :: "'h \<Rightarrow> (string \<times> bytes) list"
  hm_into_iter :: "'h \<Rightarrow> (string option \<times> bytes) list"
  header_name :: "string \<Rightarrow> string option"
  header_value :: "bytes \<Rightarrow> bytes option"
  header_to_str :: "bytes \<Rightarrow> string option"

record ('h, 'x) http_request =
  rq_method :: string
  rq_path :: string
  rq_query :: "string option"
  rq_headers :: 'h
  rq_body :: "bytes option"
  rq_context :: "'x option"
  rq_remote_ip :: "string option"

record ('h, 'x) http_response =
  rs_version :: string
  rs_status :: nat
  rs_headers :: 'h
  rs_body :: "bytes option"
  rs_context :: "'x option"

text \<open>
  What a service does with a request: it answers, it fails with the error of the service it wraps,
  or it panics (\<open>expect\<close> on a missing value).
\<close>

datatype 'r outcome = Panic | Fails | Answers 'r

section \<open>The header map\<close>

locale header_map =
  fixes H :: "'h headers_api"
  assumes get_empty: "hm_get H (hm_empty H) k = None"
    and get_insert_same: "hm_get H (hm_insert H k v h) k = Some v"
    and get_insert_other:
      "header_name H k \<noteq> header_name H k' \<Longrightarrow> hm_get H (hm_insert H k v h) k' = hm_get H h k'"
    and get_append_none: "hm_get H h k = None \<Longrightarrow> hm_get H (hm_append H k v h) k = Some v"
    and get_append_some: "hm_get H h k = Some w \<Longrightarrow> hm_get H (hm_append H k v h) k = Some w"
    and get_append_other:
      "header_name H k \<noteq> header_name H k' \<Longrightarrow> hm_get H (hm_append H k v h) k' = hm_get H h k'"
    and get_remove_same: "hm_get H (hm_remove H k h) k = None"
    and get_remove_other:
      "header_name H k \<noteq> header_name H k' \<Longrightarrow> hm_get H (hm_remove H k h) k' = hm_get H h k'"
    and name_lower: "s \<noteq> [] \<Longrightarrow> list_all (\<lambda>c. byte_in 97 122 c \<or> c = CHR ''-'') s \<Longrightarrow> header_name H s = Some s"
    and value_visible: "list_all (byte_in 32 126) v \<Longrightarrow> header_value H v = Some v"
    and to_str_visible: "list_all (byte_in 32 126) v \<Longrightarrow> header_to_str H v = Some v"
begin

lemmas get_simps = get_empty get_insert_same get_insert_other get_append_none get_append_some
  get_append_other get_remove_same get_remove_other

end

text \<open>
  A concrete header map: an association list in insertion order under lower-case names, tokens as
  names and visible ASCII (with blanks and tabs) as values.
\<close>

definition to_lower :: "char \<Rightarrow> char" where
  "to_lower c =
     (let n = (of_char c :: nat) in if 65 \<le> n \<and> n \<le> 90 then char_of (n + 32) else c)"

definition ref_header_name :: "string \<Rightarrow> string option" where
  "ref_header_name s =
     (if s \<noteq> [] \<and> list_all (\<lambda>c. is_ascii_alphanumeric c \<or> c \<in> set ''!#$%&*+-.^_`|~'') s
      then Some (map to_lower s) else None)"

definition ref_key :: "string \<Rightarrow> string" where
  "ref_key s = (case ref_header_name s of None \<Rightarrow> '''' | Some k \<Rightarrow> k)"

text \<open>Consuming iteration names only the first value of each header.\<close>

fun name_first :: "string set \<Rightarrow> (string \<times> bytes) list \<Rightarrow> (string option \<times> bytes) list" where
  "name_first seen [] = []"
| "name_first seen ((k, v) # h) =
     (if k \<in> seen then None else Some k, v) # name_first (insert k seen) h"

definition ref_headers :: "(string \<times> bytes) list headers_api" where
  "ref_headers =
     \<lparr>hm_empty = [],
      hm_get = (\<lambda>h k. map_of h (ref_key k)),
      hm_insert = (\<lambda>k v h. filter (\<lambda>(k', _). k' \<noteq> ref_key k) h @ [(ref_key k, v)]),
      hm_append = (\<lambda>k v h. h @ [(ref_key k, v)]),
      hm_remove = (\<lambda>k h. filter (\<lambda>(k', _). k' \<noteq> ref_key k) h),
      hm_iter = (\<lambda>h. h),
      hm_into_iter = name_first {},
      header_name = ref_header_name,
      header_value = (\<lambda>v. if list_all (\<lambda>c. byte_in 32 126 c \<or> c = CHR 0x09 \<or> byte_in 128 255 c) v
                        then Some v else None),
      header_to_str = (\<lambda>v. if list_all (\<lambda>c. byte_in 32 126 c \<or> c = CHR 0x09) v then Some v else None)\<rparr>"

lemma map_of_filter_neq:
  "map_of (filter (\<lambda>(k', _). k' \<noteq> k) h) x = (if x = k then None else map_of h x)"
  by (induction h) auto

lemma ref_header_name_not_Nil: "ref_header_name s \<noteq> Some ''''"
  by (auto simp: ref_header_name_def)

lemma ref_key_neq: "ref_header_name k \<noteq> ref_header_name k' \<Longrightarrow> ref_key k \<noteq> ref_key k'"
  using ref_header_name_not_Nil [of k] ref_header_name_not_Nil [of k']
  by (cases "ref_header_name k"; cases "ref_header_name k'") (auto simp: ref_key_def)

lemma to_lower_id: "\<not> byte_in 65 90 c \<Longrightarrow> to_lower c = c"
  by (auto simp add: to_lower_def byte_in_def Let_def)

lemma ref_header_name_lower:
  assumes "s \<noteq> []" "list_all (\<lambda>c. byte_in 97 122 c \<or> c = CHR ''-'') s"
  shows "ref_header_name s = Some s"
proof -
  have "list_all (\<lambda>c. is_ascii_alphanumeric c \<or> c \<in> set ''!#$%&*+-.^_`|~'') s"
    using assms(2) by (rule list.pred_mono_strong) (auto simp: is_ascii_alphanumeric_def byte_in_def Let_def)
  moreover have "map to_lower s = s"
    using assms(2) by (intro map_idI to_lower_id) (auto simp: list_all_iff byte_in_def)
  ultimately show ?thesis using assms(1) by (simp add: ref_header_name_def)
qed

interpretation ref_hm: header_map ref_headers
proof (unfold_locales, goal_cases)
  case (9 s)
  then show ?case by (simp add: ref_headers_def ref_header_name_lower)
qed (auto simp: ref_headers_def map_of_filter_neq map_add_def list_all_iff dest: ref_key_neq split: option.splits)

end
