(* ===== verification/Trx_Logging.thy ===== *)
theory Trx_Logging
  imports Http_Types
begin

text \<open>
  Transaction logs: the context that is built up along a request (\<open>shared/src/logging.rs\<close>) and the
  handler that batches finished contexts for the control plane
  (\<open>data-plane/src/utils/trx_handler.rs\<close>). A \<open>derive_builder\<close> builder has an optional value per field;
  \<open>build\<close> fails when a field without a default was never set. The choice of random identifiers, the clock and the JSON
  text of a header map are parameters.
\<close>

section \<open>Contexts\<close>

datatype RequestType = HTTP | Websocket | TCP

definition request_type_string :: "RequestType \<Rightarrow> string" where
  "request_type_string t = (case t of HTTP \<Rightarrow> ''HTTP'' | TCP \<Rightarrow> ''TCP'' | Websocket \<Rightarrow> ''Websocket'')"

record TrxContext =
  txid :: string
  ts :: string
  msg :: string
  uri :: "string option"
  trx_type :: string
  request_method :: "string option"
  remote_ip :: "string option"
  request_headers :: "string option"
  user_agent :: "string option"
  response_headers :: "string option"
  response_code :: "string option"
  status_group :: "string option"
  resource_name :: string
  resource_uuid :: string
  app_uuid :: string
  team_uuid :: string
  n_decrypted_fields :: "nat option"
  content_type :: "string option"
  response_content_type :: "string option"
  elapsed :: "nat option"
  request_type :: string

text \<open>The builder: every field may be unset.\<close>

record TrxContextBuilder =
  b_txid :: "string option"
  b_ts :: "string option"
  b_msg :: "string option"
  b_uri :: "string option option"
  b_type :: "string option"
  b_request_method :: "string option option"
  b_remote_ip :: "string option option"
  b_request_headers :: "string option option"
  b_user_agent :: "string option option"
  b_response_headers :: "string option option"
  b_response_code :: "string option option"
  b_status_group :: "string option option"
  b_resource_name :: "string option"
  b_resource_uuid :: "string option"
  b_app_uuid :: "string option"
  b_team_uuid :: "string option"
  b_n_decrypted_fields :: "nat option option"
  b_content_type :: "string option option"
  b_response_content_type :: "string option option"
  b_elapsed :: "nat option option"
  b_request_type :: "string option"

definition dflt :: "'a option option \<Rightarrow> 'a option" where
  "dflt x = (case x of Some v \<Rightarrow> v | None \<Rightarrow> None)"

definition build :: "TrxContextBuilder \<Rightarrow> TrxContext option" where
  "build b =
     (case (b_txid b, b_ts b, b_msg b, b_uri b, b_type b, b_request_method b) of
        (Some i, Some t, Some m, Some u, Some ty, Some rm) \<Rightarrow>
          (case (b_resource_name b, b_resource_uuid b, b_app_uuid b, b_team_uuid b, b_request_type b) of
             (Some rn, Some ru, Some au, Some tu, Some rt) \<Rightarrow>
               Some \<lparr>txid = i, ts = t, msg = m, uri = u, trx_type = ty, request_method = rm,
                 remote_ip = dflt (b_remote_ip b), request_headers = dflt (b_request_headers b),
                 user_agent = dflt (b_user_agent b), response_headers = dflt (b_response_headers b),
                 response_code = dflt (b_response_code b), status_group = dflt (b_status_group b),
                 resource_name = rn, resource_uuid = ru, app_uuid = au, team_uuid = tu,
                 n_decrypted_fields = dflt (b_n_decrypted_fields b), content_type = dflt (b_content_type b),
                 response_content_type = dflt (b_response_content_type b), elapsed = dflt (b_elapsed b),
                 request_type = rt\<rparr>
           | _ \<Rightarrow> None)
      | _ \<Rightarrow> None)"

definition builder_new :: "string \<Rightarrow> string \<Rightarrow> RequestType \<Rightarrow> TrxContextBuilder" where
  "builder_new timestamp trx_id rt =
     \<lparr>b_txid = Some trx_id, b_ts = Some timestamp, b_msg = Some ''Transaction Complete'', b_uri = None,
      b_type = Some ''enclave_trx'', b_request_method = None, b_remote_ip = None, b_request_headers = None,
      b_user_agent = None, b_response_headers = None, b_response_code = None, b_status_group = None,
      b_resource_name = None, b_resource_uuid = None, b_app_uuid = None, b_team_uuid = None,
      b_n_decrypted_fields = None, b_content_type = None, b_response_content_type = None,
      b_elapsed = None, b_request_type = Some (request_type_string rt)\<rparr>"

definition init_trx_context_with_enclave_details ::
  "string \<Rightarrow> string \<Rightarrow> string \<Rightarrow> string \<Rightarrow> string \<Rightarrow> string \<Rightarrow> RequestType \<Rightarrow> TrxContextBuilder" where
  "init_trx_context_with_enclave_details timestamp trx_id uuid name app_id team_id rt =
     (builder_new timestamp trx_id rt)\<lparr>b_resource_uuid := Some uuid, b_resource_name := Some name,
        b_app_uuid := Some app_id, b_team_uuid := Some team_id\<rparr>"

definition get_trx_id :: "string \<Rightarrow> TrxContextBuilder \<Rightarrow> string" where
  "get_trx_id fresh b = (case b_txid b of Some i \<Rightarrow> i | None \<Rightarrow> fresh)"

text \<open>
  The system clock in nanoseconds, when the timer was started and now: \<open>elapsed().unwrap()\<close> panics (the outer \<open>None\<close>) when the
  clock has been set back in between. The inner \<open>None\<close> is the error of \<open>build\<close>.
\<close>

definition stop_timer_and_build :: "int \<Rightarrow> int \<Rightarrow> TrxContextBuilder \<Rightarrow> TrxContext option option" where
  "stop_timer_and_build started now b =
     (if now < started then None
      else Some (build (b\<lparr>b_elapsed := Some (Some (nat ((now - started) div 1000000)))\<rparr>)))"

section \<open>Status groups\<close>

datatype StatusGroup = Information | Success | Redirection | RequestErr | ServerErr

definition status_group_from_u16 :: "nat \<Rightarrow> StatusGroup option" where
  "status_group_from_u16 val =
     (if val < 200 then Some Information
      else if val < 300 then Some Success
      else if val < 400 then Some Redirection
      else if val < 500 then Some RequestErr
      else if val < 600 then Some ServerErr
      else None)"

definition status_group_display :: "StatusGroup \<Rightarrow> string" where
  "status_group_display g = (case g of Information \<Rightarrow> ''1XX'' | Success \<Rightarrow> ''2XX'' | Redirection \<Rightarrow> ''3XX''
     | RequestErr \<Rightarrow> ''4XX'' | ServerErr \<Rightarrow> ''5XX'')"

definition add_status_and_group :: "nat \<Rightarrow> TrxContextBuilder \<Rightarrow> TrxContextBuilder" where
  "add_status_and_group status_code b =
     b\<lparr>b_status_group := Some (map_option status_group_display (status_group_from_u16 status_code)),
       b_response_code := Some (Some (show_nat status_code))\<rparr>"

section \<open>Headers\<close>

definition SENSITIVE_HEADERS :: "string list" where
  "SENSITIVE_HEADERS = [''authorization'', ''proxy-authorization'', ''api-key'']"

definition NON_SENSITIVE_HEADERS :: "string list" where
  "NON_SENSITIVE_HEADERS =
     [''accept'', ''accept-charset'', ''accept-encoding'', ''accept-language'', ''accept-ranges'',
      ''access-control-allow-credentials'', ''access-control-allow-headers'', ''access-control-allow-methods'',
      ''access-control-allow-origin'', ''access-control-expose-headers'', ''access-control-max-age'',
      ''access-control-request-headers'', ''access-control-request-method'', ''age'', ''allow'', ''alt-svc'',
      ''cache-control'', ''connection'', ''content-disposition'', ''content-encoding'', ''content-language'',
      ''content-length'', ''content-location'', ''content-range'', ''content-security-policy'',
      ''content-security-policy-report-only'', ''content-type'', ''dnt'', ''date'', ''etag'', ''expect'',
      ''expires'', ''forwarded'', ''from'', ''host'', ''if-match'', ''if-modified-since'', ''if-none-match'',
      ''if-range'', ''if-unmodified-since'', ''last-modified'', ''link'', ''location'', ''max-forwards'',
      ''origin'', ''pragma'', ''public-key-pins'', ''public-key-pins-report-only'', ''range'', ''referer'',
      ''referrer-policy'', ''refresh'', ''retry-after'', ''sec-websocket-accept'', ''sec-websocket-extensions'',
      ''sec-websocket-key'', ''sec-websocket-protocol'', ''sec-websocket-version'', ''server'',
      ''strict-transport-security'', ''te'', ''trailer'', ''transfer-encoding'', ''upgrade'',
      ''upgrade-insecure-requests'', ''user-agent'', ''vary'', ''via'', ''warning'', ''x-content-type-options'',
      ''x-dns-prefetch-control'', ''x-frame-options'', ''x-xss-protection'', ''x-forwarded-for'',
      ''x-request-id'', ''x-amzn-trace-id'', ''x-download-options'', ''x-evervault-region'',
      ''x-global-transaction-id'']"

definition is_trusted_header :: "string list \<Rightarrow> string \<Rightarrow> bool" where
  "is_trusted_header trusted_headers header_key =
     (if header_key \<in> set SENSITIVE_HEADERS then False
      else if header_key \<in> set NON_SENSITIVE_HEADERS then True
      else list_ex (\<lambda>trusted. if suffix ''*'' trusted then prefix (butlast trusted) header_key
                            else header_key = trusted) trusted_headers)"

text \<open>The JSON object of the headers: later entries of a name replace earlier ones.\<close>

definition convert_headers_to_map :: "'h headers_api \<Rightarrow> 'h \<Rightarrow> string list \<Rightarrow> (string \<rightharpoonup> string)" where
  "convert_headers_to_map H headers trusted_headers =
     foldl (\<lambda>m (header_key, header_value).
         case header_to_str H header_value of
           Some v \<Rightarrow> if is_trusted_header trusted_headers header_key then m(header_key \<mapsto> v)
                    else m(header_key \<mapsto> ''***'')
         | None \<Rightarrow> m(header_key \<mapsto> ''***''))
       Map.empty (hm_iter H headers)"

text \<open>
  The environment of the log: the header map and the JSON text of an object of strings, or of strings and nulls.
\<close>

record 'h log_env =
  le_headers :: "'h headers_api"
  le_json :: "(string \<rightharpoonup> string) \<Rightarrow> string option"
  le_json_nulls :: "(string \<rightharpoonup> string option) \<Rightarrow> string option"

definition add_headers_to_request ::
  "'h log_env \<Rightarrow> 'h \<Rightarrow> string list \<Rightarrow> TrxContextBuilder \<Rightarrow> TrxContextBuilder" where
  "add_headers_to_request L headers trusted b =
     (case le_json L (convert_headers_to_map (le_headers L) headers trusted) of
        Some s \<Rightarrow> b\<lparr>b_request_headers := Some (Some s)\<rparr> | None \<Rightarrow> b)"

definition add_headers_to_response ::
  "'h log_env \<Rightarrow> 'h \<Rightarrow> string list \<Rightarrow> TrxContextBuilder \<Rightarrow> TrxContextBuilder" where
  "add_headers_to_response L headers trusted b =
     (case le_json L (convert_headers_to_map (le_headers L) headers trusted) of
        Some s \<Rightarrow> b\<lparr>b_response_headers := Some (Some s)\<rparr> | None \<Rightarrow> b)"

text \<open>\<open>to_str().expect(..)\<close> of a header that may be absent: \<open>None\<close> is the panic.\<close>

definition header_text :: "'h log_env \<Rightarrow> 'h \<Rightarrow> string \<Rightarrow> string option option" where
  "header_text L headers name =
     (case hm_get (le_headers L) headers name of
        None \<Rightarrow> Some None
      | Some v \<Rightarrow> (case header_to_str (le_headers L) v of None \<Rightarrow> None | Some s \<Rightarrow> Some (Some s)))"

definition build_log_uri :: "string \<Rightarrow> string option \<Rightarrow> string" where
  "build_log_uri path query = (case query of Some q \<Rightarrow> path @ ''?'' @ q | None \<Rightarrow> path)"

definition add_req_to_trx_context ::
  "'h log_env \<Rightarrow> ('h, 'x) http_request \<Rightarrow> string list \<Rightarrow> TrxContextBuilder \<Rightarrow> TrxContextBuilder option" where
  "add_req_to_trx_context L req trusted b =
     (let b = b\<lparr>b_uri := Some (Some (build_log_uri (rq_path req) (rq_query req))),
                b_request_method := Some (Some (rq_method req))\<rparr>;
          b = add_headers_to_request L (rq_headers req) trusted b
      in case header_text L (rq_headers req) ''content-type'' of
           None \<Rightarrow> None
         | Some ct \<Rightarrow>
            (let b = (case ct of Some s \<Rightarrow> b\<lparr>b_content_type := Some (Some s)\<rparr> | None \<Rightarrow> b) in
             case header_text L (rq_headers req) ''user-agent'' of
               None \<Rightarrow> None
             | Some ua \<Rightarrow> Some (case ua of Some s \<Rightarrow> b\<lparr>b_user_agent := Some (Some s)\<rparr> | None \<Rightarrow> b)))"

definition add_res_to_trx_context ::
  "'h log_env \<Rightarrow> ('h, 'x) http_response \<Rightarrow> string list \<Rightarrow> TrxContextBuilder \<Rightarrow> TrxContextBuilder option" where
  "add_res_to_trx_context L res trusted b =
     (let b = add_headers_to_response L (rs_headers res) trusted (add_status_and_group (rs_status res) b)
      in case header_text L (rs_headers res) ''content-type'' of
           None \<Rightarrow> None
         | Some ct \<Rightarrow> Some (case ct of Some s \<Rightarrow> b\<lparr>b_response_content_type := Some (Some s)\<rparr> | None \<Rightarrow> b))"

text \<open>The headers of a request of \<open>httparse\<close>, its path, method and headers; a value that is not UTF-8 is null.\<close>

definition format_headers :: "'h log_env \<Rightarrow> (string \<times> bytes) list \<Rightarrow> string option" where
  "format_headers L headers = le_json_nulls L (foldl (\<lambda>m (name, val). m(name \<mapsto> from_utf8 val)) Map.empty headers)"

definition add_httparse_to_trx ::
  "'h log_env \<Rightarrow> bool \<Rightarrow> (string option \<times> string option \<times> (string \<times> bytes) list) option \<Rightarrow> string option \<Rightarrow>
   TrxContextBuilder \<Rightarrow> TrxContextBuilder" where
  "add_httparse_to_trx L authorized request remote b =
     (let b = (case request of
                 Some (path, meth, headers) \<Rightarrow> b\<lparr>b_uri := Some path, b_request_method := Some meth,
                    b_request_headers := Some (format_headers L headers)\<rparr>
               | None \<Rightarrow> b);
          b = (if \<not> authorized then add_status_and_group 401 b else b)
      in b\<lparr>b_remote_ip := Some remote\<rparr>)"

definition can_build :: "TrxContextBuilder \<Rightarrow> bool" where
  "can_build b \<longleftrightarrow> b_uri b \<noteq> None \<and> b_resource_name b \<noteq> None \<and> b_resource_uuid b \<noteq> None \<and> b_request_method b \<noteq> None
     \<and> b_request_headers b \<noteq> None"

section \<open>The log handler\<close>

datatype 'l LogHandlerMessage = TickMsg | TrxMsg "'l option"

text \<open>The buffer and the batches handed to the config client, whether or not their delivery succeeds.\<close>

record 'l log_handler =
  lh_buffer :: "'l list"
  lh_posted :: "'l list list"

definition send_logs :: "'l log_handler \<Rightarrow> 'l log_handler" where
  "send_logs h = h\<lparr>lh_buffer := [], lh_posted := lh_posted h @ [lh_buffer h]\<rparr>"

definition handle_log_message :: "'l LogHandlerMessage \<Rightarrow> 'l log_handler \<Rightarrow> 'l log_handler" where
  "handle_log_message m h =
     (case m of
        TickMsg \<Rightarrow> if length (lh_buffer h) > 0 then send_logs h else h
      | TrxMsg log \<Rightarrow>
         (let h = (case log of Some l \<Rightarrow> h\<lparr>lh_buffer := lh_buffer h @ [l]\<rparr> | None \<Rightarrow> h) in
          if length (lh_buffer h) \<ge> 15 then send_logs h else h))"

definition start_log_handler :: "'l LogHandlerMessage list \<Rightarrow> 'l log_handler" where
  "start_log_handler ms = foldl (\<lambda>h m. handle_log_message m h) \<lparr>lh_buffer = [], lh_posted = []\<rparr> ms"

text \<open>
  \<open>start_log_timer\<close>: an interval of 30 seconds whose first tick is due at once sends into the channel of the logs. The channel
  holds what was sent in the order of the seconds; \<open>logs k\<close> are the logs sent between the ticks \<open>k\<close> and \<open>k + 1\<close>.
\<close>

definition start_log_timer :: "nat \<Rightarrow> nat" where
  "start_log_timer k = 30 * k"

definition log_channel :: "(nat \<Rightarrow> 'l list) \<Rightarrow> nat \<Rightarrow> 'l LogHandlerMessage list" where
  "log_channel logs n = concat (map (\<lambda>k. TickMsg # map (\<lambda>l. TrxMsg (Some l)) (logs k)) [0..<n])"

definition logs_between :: "(nat \<times> 'l) list \<Rightarrow> nat \<Rightarrow> 'l list" where
  "logs_between sent k = map snd (filter (\<lambda>(t, _). start_log_timer k \<le> t \<and> t < start_log_timer (Suc k)) sent)"

section \<open>What is logged of headers\<close>

lemma convert_headers_entry:
  assumes "convert_headers_to_map H headers trusted k = Some v"
  shows "v = ''***'' \<or> (is_trusted_header trusted k \<and> (\<exists>raw. (k, raw) \<in> set (hm_iter H headers) \<and> header_to_str H raw = Some v))"
proof -
  let ?step = "\<lambda>m (header_key, header_value). case header_to_str H header_value of
      Some v \<Rightarrow> if is_trusted_header trusted header_key then m(header_key \<mapsto> v) else m(header_key \<mapsto> ''***'')
    | None \<Rightarrow> m(header_key \<mapsto> ''***'')"
  have "v = ''***'' \<or> (is_trusted_header trusted k \<and> (\<exists>raw. (k, raw) \<in> set hs \<and> header_to_str H raw = Some v))"
    if "foldl ?step Map.empty hs k = Some v" for hs
    using that
  proof (induction hs rule: rev_induct)
    case (snoc x hs)
    obtain key raw where x: "x = (key, raw)" by fastforce
    show ?case
    proof (cases "k = key")
      case True
      with snoc.prems x show ?thesis by (auto split: option.splits if_splits)
    next
      case False
      with snoc.prems x have "foldl ?step Map.empty hs k = Some v" by (auto split: option.splits if_splits)
      with snoc.IH show ?thesis by auto
    qed
  qed simp
  from this [of "hm_iter H headers"] assms show ?thesis by (simp add: convert_headers_to_map_def)
qed

text \<open>
  A trusted header is in the fixed list or matches an entry of the configured list; the authorization headers and the API key
  never are, whatever the configured list says.
\<close>

lemma is_trusted_headerD:
  assumes "is_trusted_header trusted k"
  shows "k \<notin> {''authorization'', ''proxy-authorization'', ''api-key''}"
    and "k \<in> set NON_SENSITIVE_HEADERS \<or> k \<in> set trusted \<or> (\<exists>p. p @ ''*'' \<in> set trusted \<and> prefix p k)"
proof -
  from assms have "k \<notin> set SENSITIVE_HEADERS"
    and c: "k \<in> set NON_SENSITIVE_HEADERS \<or> (\<exists>t \<in> set trusted. if suffix ''*'' t then prefix (butlast t) k else k = t)"
    by (auto simp: is_trusted_header_def list_ex_iff split: if_splits)
  then show "k \<notin> {''authorization'', ''proxy-authorization'', ''api-key''}" by (simp add: SENSITIVE_HEADERS_def)
  from c show "k \<in> set NON_SENSITIVE_HEADERS \<or> k \<in> set trusted \<or> (\<exists>p. p @ ''*'' \<in> set trusted \<and> prefix p k)"
    by (auto simp: suffix_def split: if_splits)
qed

text \<open>
  \<open>format_headers\<close> masks nothing: when a request of \<open>httparse\<close> is added, its headers go into the context as they are. The only call
  in the program, for connections that are not HTTP, passes no request.
\<close>

lemma httparse_headers_unmasked:
  assumes "le_json_nulls L [''api-key'' \<mapsto> Some ''secret''] = Some s"
  shows "b_request_headers (add_httparse_to_trx L authorized (Some (path, meth, [(''api-key'', ''secret'')])) remote b) = Some (Some s)"
    and "b_request_headers (add_httparse_to_trx L authorized None remote b) = b_request_headers b"
proof -
  have "from_utf8 ''secret'' = Some ''secret''" by code_simp
  with assms show "b_request_headers (add_httparse_to_trx L authorized (Some (path, meth, [(''api-key'', ''secret'')])) remote b) = Some (Some s)"
    by (simp add: add_httparse_to_trx_def format_headers_def add_status_and_group_def Let_def)
qed (simp add: add_httparse_to_trx_def add_status_and_group_def Let_def)

section \<open>Which contexts can be built\<close>

lemma build_init:
  assumes "b = init_trx_context_with_enclave_details t i u n a tm rt"
  shows "build (add_httparse_to_trx L authorized None remote b) = None"
  using assms
  by (simp add: build_def init_trx_context_with_enclave_details_def builder_new_def add_httparse_to_trx_def
      add_status_and_group_def Let_def)

definition identified :: "TrxContextBuilder \<Rightarrow> bool" where
  "identified b \<longleftrightarrow> b_txid b \<noteq> None \<and> b_ts b \<noteq> None \<and> b_msg b \<noteq> None \<and> b_type b \<noteq> None \<and> b_resource_name b \<noteq> None
     \<and> b_resource_uuid b \<noteq> None \<and> b_app_uuid b \<noteq> None \<and> b_team_uuid b \<noteq> None \<and> b_request_type b \<noteq> None"

lemma build_iff: "build b \<noteq> None \<longleftrightarrow> identified b \<and> b_uri b \<noteq> None \<and> b_request_method b \<noteq> None"
  by (auto simp: build_def identified_def split: option.splits)

lemma build_response_code: "build b = Some l \<Longrightarrow> response_code l = dflt (b_response_code b)"
  unfolding build_def by (auto split: option.splits)

lemma build_headers:
  "build b = Some l \<Longrightarrow> request_headers l = dflt (b_request_headers b) \<and> response_headers l = dflt (b_response_headers b)"
  unfolding build_def by (auto split: option.splits)

lemma identified_init: "identified (init_trx_context_with_enclave_details t i u n a tm rt)"
  by (simp add: identified_def init_trx_context_with_enclave_details_def builder_new_def)

lemma add_headers_fields [simp]:
  "identified (add_headers_to_request L hs tr b) = identified b"
  "b_uri (add_headers_to_request L hs tr b) = b_uri b"
  "b_request_method (add_headers_to_request L hs tr b) = b_request_method b"
  "identified (add_headers_to_response L hs tr b) = identified b"
  "b_uri (add_headers_to_response L hs tr b) = b_uri b"
  "b_request_method (add_headers_to_response L hs tr b) = b_request_method b"
  by (simp_all add: add_headers_to_request_def add_headers_to_response_def identified_def split: option.split)

text \<open>A context to which a request was added can be built.\<close>

definition complete :: "TrxContextBuilder \<Rightarrow> bool" where
  "complete b \<longleftrightarrow> identified b \<and> b_uri b \<noteq> None \<and> b_request_method b \<noteq> None"

lemma identified_update [simp]:
  "identified (b\<lparr>b_uri := u\<rparr>) = identified b" "identified (b\<lparr>b_request_method := u\<rparr>) = identified b"
  "identified (b\<lparr>b_content_type := u\<rparr>) = identified b" "identified (b\<lparr>b_user_agent := u\<rparr>) = identified b"
  "identified (b\<lparr>b_response_content_type := u\<rparr>) = identified b" "identified (b\<lparr>b_remote_ip := u\<rparr>) = identified b"
  "identified (b\<lparr>b_elapsed := e\<rparr>) = identified b" "identified (b\<lparr>b_n_decrypted_fields := e\<rparr>) = identified b"
  "identified (add_status_and_group n b) = identified b"
  by (simp_all add: identified_def add_status_and_group_def)

lemma complete_add_req:
  "add_req_to_trx_context L req tr b = Some b' \<Longrightarrow> identified b \<Longrightarrow> complete b'"
  by (auto simp: add_req_to_trx_context_def complete_def Let_def split: option.splits)

lemma complete_add_res:
  "add_res_to_trx_context L res tr b = Some b' \<Longrightarrow> complete b \<Longrightarrow> complete b'"
  by (auto simp: add_res_to_trx_context_def complete_def add_status_and_group_def identified_def Let_def
      add_headers_to_response_def split: option.splits)

lemma complete_updates:
  "complete b \<Longrightarrow> complete (b\<lparr>b_remote_ip := r\<rparr>)" "complete b \<Longrightarrow> complete (b\<lparr>b_n_decrypted_fields := n\<rparr>)"
  "complete b \<Longrightarrow> complete (add_httparse_to_trx L auth request remote b)"
  by (auto simp: complete_def add_httparse_to_trx_def add_status_and_group_def identified_def Let_def split: option.split)

text \<open>
  \<open>can_build\<close> asks for the headers too, which \<open>build\<close> does not need: for a context with the details of its enclave it is
  enough, and it is what is missing when the headers had no JSON text.
\<close>

lemma can_build_builds: "identified b \<Longrightarrow> can_build b \<longleftrightarrow> build b \<noteq> None \<and> b_request_headers b \<noteq> None"
  unfolding build_iff by (auto simp: can_build_def identified_def)

lemma can_build_httparse:
  assumes "identified b"
  shows "can_build (add_httparse_to_trx L authorized (Some r) remote b)"
  using assms by (cases r) (simp add: can_build_def identified_def add_httparse_to_trx_def add_status_and_group_def Let_def)

lemma complete_builds: "complete b \<Longrightarrow> started \<le> now \<Longrightarrow> \<exists>l. stop_timer_and_build started now b = Some (Some l)"
  using build_iff [of "b\<lparr>b_elapsed := Some (Some (nat ((now - started) div 1000000)))\<rparr>"]
  by (auto simp: stop_timer_and_build_def complete_def)

section \<open>Batches of logs\<close>

definition logs_of :: "'l LogHandlerMessage list \<Rightarrow> 'l list" where
  "logs_of ms = List.map_filter (\<lambda>m. case m of TrxMsg l \<Rightarrow> l | TickMsg \<Rightarrow> None) ms"

lemma logs_of_snoc [simp]:
  "logs_of (ms @ [m]) = logs_of ms @ (case m of TrxMsg (Some l) \<Rightarrow> [l] | _ \<Rightarrow> [])"
  by (simp add: logs_of_def List.map_filter_def split: LogHandlerMessage.split option.split)

lemma start_log_handler_snoc:
  "start_log_handler (ms @ [m]) = handle_log_message m (start_log_handler ms)"
  by (simp add: start_log_handler_def)

lemma log_handler_inv:
  "concat (lh_posted (start_log_handler ms)) @ lh_buffer (start_log_handler ms) = logs_of ms
   \<and> list_all (\<lambda>batch. 1 \<le> length batch \<and> length batch \<le> 15) (lh_posted (start_log_handler ms))
   \<and> length (lh_buffer (start_log_handler ms)) < 15"
proof (induction ms rule: rev_induct)
  case Nil
  show ?case by (simp add: start_log_handler_def logs_of_def List.map_filter_simps)
next
  case (snoc m ms)
  obtain b p where h: "start_log_handler ms = \<lparr>lh_buffer = b, lh_posted = p\<rparr>"
    by (cases "start_log_handler ms")
  with snoc show ?case
    unfolding start_log_handler_snoc h
    by (cases m) (auto simp: handle_log_message_def send_logs_def Let_def Suc_le_eq split: option.splits)
qed

text \<open>
  (C23) Every log is handed to the control plane once and in order: the batches and the buffer are always a
  partition of the logs received, the batches have one to fifteen logs, the buffer has fewer than fifteen,
  and a tick leaves it empty.
\<close>

theorem log_handler_partitions_logs:
  "concat (lh_posted (start_log_handler ms)) @ lh_buffer (start_log_handler ms) = logs_of ms
   \<and> list_all (\<lambda>batch. 1 \<le> length batch \<and> length batch \<le> 15) (lh_posted (start_log_handler ms))
   \<and> length (lh_buffer (start_log_handler ms)) < 15
   \<and> lh_buffer (start_log_handler (ms @ [TickMsg])) = []"
  using log_handler_inv [of ms]
  by (simp add: start_log_handler_snoc handle_log_message_def [of TickMsg] send_logs_def)

text \<open>A log waits for at most 30 seconds: with the next tick of the timer every log sent before it has been handed over.\<close>

lemma logs_of_append: "logs_of (xs @ ys) = logs_of xs @ logs_of ys"
  by (induction ys rule: rev_induct) (simp_all add: logs_of_def List.map_filter_def)

lemma logs_of_channel: "logs_of (log_channel logs n) = concat (map logs [0..<n])"
proof (induction n)
  case (Suc n)
  have "logs_of (TickMsg # map (\<lambda>l. TrxMsg (Some l)) xs) = xs" for xs
    by (induction xs rule: rev_induct) (simp_all add: logs_of_def List.map_filter_def)
  with Suc show ?case by (simp add: log_channel_def logs_of_append)
qed (simp add: log_channel_def logs_of_def List.map_filter_def)

theorem logs_wait_for_a_tick:
  "concat (lh_posted (start_log_handler (log_channel (logs_between sent) n @ [TickMsg])))
     = concat (map (logs_between sent) [0..<n])"
proof -
  let ?h = "start_log_handler (log_channel (logs_between sent) n @ [TickMsg])"
  have "lh_buffer ?h = []"
    by (simp add: start_log_handler_snoc handle_log_message_def send_logs_def)
  then show ?thesis
    using log_handler_inv [of "log_channel (logs_between sent) n @ [TickMsg]"] by (simp add: logs_of_channel)
qed

lemma sent_before_tick:
  assumes "(t, l) \<in> set sent" and "t < start_log_timer n"
  shows "l \<in> set (concat (map (logs_between sent) [0..<n]))"
proof -
  have "t div 30 < n" using assms(2) by (simp add: start_log_timer_def div_less_iff_less_mult mult.commute)
  moreover have "l \<in> set (logs_between sent (t div 30))"
    using assms(1) dividend_less_times_div [of 30 t] by (force simp: logs_between_def start_log_timer_def)
  ultimately show ?thesis by auto
qed

section \<open>Identifiers\<close>

text \<open>\<open>TrxContextId\<close>: a random number of 128 bits, printed with \<open>{:X}\<close>, in capitals and without leading zeros.\<close>

type_synonym TrxContextId = "128 word"

definition upper_hex_digit :: "nat \<Rightarrow> char" where
  "upper_hex_digit d = (if d < 10 then char_of (48 + d) else char_of (55 + d))"

fun upper_hex :: "nat \<Rightarrow> string" where
  "upper_hex n = (if n < 16 then [upper_hex_digit n] else upper_hex (n div 16) @ [upper_hex_digit (n mod 16)])"

declare upper_hex.simps [simp del]

definition trx_id_fmt :: "TrxContextId \<Rightarrow> string" where
  "trx_id_fmt w = upper_hex (unat w)"

definition upper_hex_value :: "char \<Rightarrow> nat" where
  "upper_hex_value c = (if (of_char c :: nat) < 58 then of_char c - 48 else of_char c - 55)"

lemma upper_hex_value_digit: "d < 16 \<Longrightarrow> upper_hex_value (upper_hex_digit d) = d"
  by (auto simp: upper_hex_value_def upper_hex_digit_def of_char_of)

lemma upper_hex_reads_back: "foldl (\<lambda>n c. 16 * n + upper_hex_value c) 0 (upper_hex n) = n"
proof (induction n rule: upper_hex.induct)
  case (1 n)
  then show ?case
    by (cases "n < 16") (simp_all add: upper_hex.simps [of n] upper_hex_value_digit)
qed

lemma upper_hex_length: "0 < k \<Longrightarrow> n < 16 ^ k \<Longrightarrow> length (upper_hex n) \<le> k"
proof (induction n arbitrary: k rule: upper_hex.induct)
  case (1 n)
  show ?case
  proof (cases "n < 16")
    case False
    then obtain m where k: "k = Suc m" "0 < m" using 1(2,3) by (cases k; cases "k - 1") auto
    with 1(3) have "n div 16 < 16 ^ m" by (simp add: div_less_iff_less_mult mult.commute)
    with 1(1) [OF False k(2)] k False show ?thesis by (simp add: upper_hex.simps [of n])
  qed (use 1(2) in \<open>simp add: upper_hex.simps [of n]\<close>)
qed

text \<open>Different requests are told apart in the log by at most 32 characters.\<close>

theorem trx_ids_identify:
  "trx_id_fmt a = trx_id_fmt b \<longleftrightarrow> a = b" "length (trx_id_fmt a) \<le> 32"
proof -
  have "trx_id_fmt a = trx_id_fmt b \<Longrightarrow> unat a = unat b"
    by (metis trx_id_fmt_def upper_hex_reads_back)
  then show "trx_id_fmt a = trx_id_fmt b \<longleftrightarrow> a = b" by (auto intro: unsigned_word_eqI)
  have "unat a < 16 ^ 32" using unsigned_less [of a, where 'a = nat] by simp
  then show "length (trx_id_fmt a) \<le> 32" by (simp add: trx_id_fmt_def upper_hex_length)
qed

end
