(* ===== verification/Acme_Jws.thy ===== *)
theory Acme_Jws
  imports Enclave_Prelude
begin

text \<open>
  Signed ACME messages, \<open>shared/src/acme/jws.rs\<close>. OpenSSL (coordinates of a key, signatures, the
  numbers of a DER signature, big numbers as bytes), base64 and JSON are parameters; the locale
  \<open>big_num\<close> states what the code relies on of big numbers. A panic is \<open>None\<close>.
\<close>

section \<open>Messages\<close>

datatype key_id = HMAC | EC

record PKey =
  pk_id :: key_id
  pk_material :: bytes

datatype SharedAcmeError = SharedOpenSSLError | SharedSerdeError | PrivateKeyNotSet

record Jwk =
  jwk_alg :: string
  jwk_crv :: string
  jwk_kty :: string
  jwk_use :: string
  jwk_x :: string
  jwk_y :: string

record JwsHeader =
  jh_alg :: string
  jh_jwk :: "Jwk option"
  jh_kid :: "string option"
  jh_nonce :: "string option"
  jh_url :: string

record JwsResult =
  jr_protected :: string
  jr_payload :: string
  jr_signature :: string

record openssl_api =
  os_coordinates :: "PKey \<Rightarrow> (nat \<times> nat) option"
  os_sign :: "PKey \<Rightarrow> bytes \<Rightarrow> bytes option"
  os_from_der :: "bytes \<Rightarrow> (nat \<times> nat) option"
  os_to_vec :: "nat \<Rightarrow> bytes"
  os_b64 :: "bytes \<Rightarrow> string"
  os_header_json :: "JwsHeader \<Rightarrow> string"

definition extract_ec_coordinates :: "openssl_api \<Rightarrow> PKey \<Rightarrow> (SharedAcmeError, string \<times> string) result" where
  "extract_ec_coordinates L key =
     (case os_coordinates L key of
        None \<Rightarrow> Inl SharedOpenSSLError
      | Some (x, y) \<Rightarrow> Inr (os_b64 L (os_to_vec L x), os_b64 L (os_to_vec L y)))"

definition jwk_new :: "openssl_api \<Rightarrow> PKey \<Rightarrow> (SharedAcmeError, Jwk) result" where
  "jwk_new L pkey =
     (if pk_id pkey = HMAC then Inl SharedOpenSSLError
      else try_bind (extract_ec_coordinates L pkey) (\<lambda>(x, y).
        Inr \<lparr>jwk_alg = ''ES256'', jwk_crv = ''P-256'', jwk_kty = ''EC'', jwk_use = ''sig'', jwk_x = x, jwk_y = y\<rparr>))"

text \<open>
  Copying a number into the end of an array of 32 zero bytes; \<open>32 - len\<close> underflows for a longer one, which
  panics (in a release build the slice index does).
\<close>

definition pad32 :: "bytes \<Rightarrow> bytes option" where
  "pad32 v = (if length v \<le> 32 then Some (replicate (32 - length v) (CHR 0x00) @ v) else None)"

definition raw_sig :: "openssl_api \<Rightarrow> nat \<Rightarrow> nat \<Rightarrow> bytes option" where
  "raw_sig L r s =
     Option.bind (pad32 (os_to_vec L r)) (\<lambda>r_arr. map_option (\<lambda>s_arr. r_arr @ s_arr) (pad32 (os_to_vec L s)))"

definition der_sig_to_jws_sig :: "openssl_api \<Rightarrow> bytes \<Rightarrow> (SharedAcmeError, string) result option" where
  "der_sig_to_jws_sig L der_encoded_sig =
     (case os_from_der L der_encoded_sig of
        None \<Rightarrow> Some (Inl SharedOpenSSLError)
      | Some (r, s) \<Rightarrow> map_option (\<lambda>sig. Inr (os_b64 L sig)) (raw_sig L r s))"

definition jws_alg :: "PKey option \<Rightarrow> string" where
  "jws_alg pkey = (case pkey of Some key \<Rightarrow> if pk_id key = HMAC then ''HS256'' else ''ES256'' | None \<Rightarrow> ''ES256'')"

definition jws_header ::
  "openssl_api \<Rightarrow> string \<Rightarrow> string option \<Rightarrow> PKey option \<Rightarrow> string option \<Rightarrow> (SharedAcmeError, JwsHeader) result" where
  "jws_header L url nonce pkey account_id =
     (let header = \<lparr>jh_alg = jws_alg pkey, jh_jwk = None, jh_kid = None, jh_nonce = nonce, jh_url = url\<rparr> in
      case (account_id, pkey) of
        (Some kid, _) \<Rightarrow> Inr (header\<lparr>jh_kid := Some kid\<rparr>)
      | (None, Some pkey) \<Rightarrow> try_bind (jwk_new L pkey) (\<lambda>jwk. Inr (header\<lparr>jh_jwk := Some jwk\<rparr>))
      | (None, None) \<Rightarrow> Inr header)"

definition jws ::
  "openssl_api \<Rightarrow> string \<Rightarrow> string option \<Rightarrow> string \<Rightarrow> PKey option \<Rightarrow> string option \<Rightarrow> (SharedAcmeError, JwsResult) result option" where
  "jws L url nonce payload pkey account_id =
     (let payload_b64 = os_b64 L payload in
      case jws_header L url nonce pkey account_id of
        Inl e \<Rightarrow> Some (Inl e)
      | Inr header \<Rightarrow>
         (let protected_b64 = os_b64 L (os_header_json L header) in
          case pkey of
            None \<Rightarrow> Some (Inl PrivateKeyNotSet)
          | Some private_key \<Rightarrow>
             (case os_sign L private_key (protected_b64 @ ''.'' @ payload_b64) of
                None \<Rightarrow> Some (Inl SharedOpenSSLError)
              | Some der_encoded_sig \<Rightarrow>
                 map_option (\<lambda>sig. try_bind sig (\<lambda>signature_b64.
                     Inr \<lparr>jr_protected = protected_b64, jr_payload = payload_b64, jr_signature = signature_b64\<rparr>))
                   (if jws_alg pkey = ''HS256'' then Some (Inr (os_b64 L der_encoded_sig))
                    else der_sig_to_jws_sig L der_encoded_sig))))"

section \<open>Big numbers\<close>

fun of_be :: "nat \<Rightarrow> bytes \<Rightarrow> nat" where
  "of_be a [] = a"
| "of_be a (b # bs) = of_be (256 * a + of_char b) bs"

text \<open>\<open>BigNum::to_vec\<close>: big endian, without leading zero bytes.\<close>

locale big_num =
  fixes to_vec :: "nat \<Rightarrow> bytes"
  assumes be_value: "of_be 0 (to_vec n) = n"
    and minimal: "to_vec n \<noteq> [] \<Longrightarrow> hd (to_vec n) \<noteq> CHR 0x00"
begin

lemma of_be_ge: "a * 256 ^ length bs \<le> of_be a bs"
proof (induction a bs rule: of_be.induct)
  case (2 a b bs)
  have "a * 256 ^ length (b # bs) \<le> (256 * a + of_char b) * 256 ^ length bs" by (simp add: algebra_simps)
  also have "\<dots> \<le> of_be (256 * a + of_char b) bs" by (rule 2)
  finally show ?case by simp
qed simp

lemma length_to_vec:
  assumes "n < 256 ^ k"
  shows "length (to_vec n) \<le> k"
proof (cases "to_vec n")
  case (Cons b bs)
  with minimal [of n] have "(of_char b :: nat) \<noteq> of_char (CHR 0x00)" by (metis list.distinct(1) list.sel(1) of_char_eq_iff)
  then have "1 \<le> (of_char b :: nat)" by simp
  then have "256 ^ length bs \<le> (256 * 0 + of_char b :: nat) * 256 ^ length bs" by simp
  also have "\<dots> \<le> n" using of_be_ge [of "256 * 0 + of_char b" bs] be_value [of n] Cons by simp
  finally have "(256::nat) ^ length bs \<le> n" .
  from this assms have "(256::nat) ^ length bs < 256 ^ k" by (rule le_less_trans)
  then have "length bs < k" by (rule power_less_imp_less_exp [rotated]) simp
  with Cons show ?thesis by simp
qed simp

end

lemma of_be_zeros: "of_be 0 (replicate k (CHR 0x00) @ bs) = of_be 0 bs"
  by (induction k) auto

context big_num
begin

lemma pad32_to_vec:
  assumes "n < 256 ^ 32"
  obtains v where "pad32 (to_vec n) = Some v" "length v = 32" "of_be 0 v = n"
  using length_to_vec [OF assms] be_value [of n] by (auto simp: pad32_def of_be_zeros)

end

text \<open>
  (C40) The ECDSA signature of a JWS is 64 bytes, the two numbers of 32 bytes each with leading zeros, whatever
  their size: for numbers below the order of the curve nothing panics and both can be read back.
\<close>

theorem jws_signature_roundtrip:
  assumes "big_num (os_to_vec L)" and "os_from_der L der = Some (r, s)" and "r < 256 ^ 32" and "s < 256 ^ 32"
  shows "\<exists>sig. der_sig_to_jws_sig L der = Some (Inr (os_b64 L sig)) \<and> length sig = 64
    \<and> of_be 0 (take 32 sig) = r \<and> of_be 0 (drop 32 sig) = s"
proof -
  obtain v where v: "pad32 (os_to_vec L r) = Some v" "length v = 32" "of_be 0 v = r"
    using big_num.pad32_to_vec [OF assms(1,3)] .
  obtain w where w: "pad32 (os_to_vec L s) = Some w" "length w = 32" "of_be 0 w = s"
    using big_num.pad32_to_vec [OF assms(1,4)] .
  show ?thesis
    using v w assms(2) by (intro exI [of _ "v @ w"]) (simp add: der_sig_to_jws_sig_def raw_sig_def)
qed

text \<open>The coordinates of the key are not padded: they lose their leading zeros.\<close>

lemma coordinates_not_padded:
  assumes "big_num (os_to_vec L)" and "os_coordinates L key = Some (x, y)" and "x < 256 ^ 31"
  shows "\<exists>v w. extract_ec_coordinates L key = Inr (os_b64 L v, w) \<and> length v < 32"
  using big_num.length_to_vec [OF assms(1,3)] assms(2)
  by (auto simp: extract_ec_coordinates_def intro!: exI [of _ "os_to_vec L x"])

section \<open>A concrete library\<close>

fun be_bytes :: "nat \<Rightarrow> bytes" where
  "be_bytes n = (if n = 0 then [] else be_bytes (n div 256) @ [char_of (n mod 256)])"

declare be_bytes.simps [simp del]

lemma of_be_append: "of_be a (bs @ [b]) = 256 * of_be a bs + of_char b"
  by (induction a bs rule: of_be.induct) auto

lemma of_be_be_bytes: "of_be 0 (be_bytes n) = n"
proof (induction n rule: less_induct)
  case (less n)
  show ?case
  proof (cases "n = 0")
    case False
    then have "of_be 0 (be_bytes (n div 256)) = n div 256" by (intro less) simp
    with False have "of_be 0 (be_bytes n) = 256 * (n div 256) + of_char (char_of (n mod 256) :: char)"
      by (simp add: be_bytes.simps [of n] of_be_append)
    then show ?thesis by simp
  qed (simp add: be_bytes.simps)
qed

lemma be_bytes_minimal: "be_bytes n \<noteq> [] \<Longrightarrow> hd (be_bytes n) \<noteq> CHR 0x00"
proof (induction n rule: less_induct)
  case (less n)
  have "be_bytes 0 = []" by (simp add: be_bytes.simps)
  with less.prems have n: "n \<noteq> 0" by metis
  show ?case
  proof (cases "n div 256 = 0")
    case True
    with n have "be_bytes n = [char_of n]" by (simp add: be_bytes.simps [of n] be_bytes.simps [of 0])
    moreover have "of_char (char_of n :: char) = n" using True by (simp add: mod_eq_self_iff_div_eq_0)
    moreover have "(of_char (CHR 0x00) :: nat) = 0" by simp
    ultimately show ?thesis using n by (metis list.sel(1))
  next
    case False
    then have "be_bytes (n div 256) \<noteq> []" by (simp add: be_bytes.simps [of "n div 256"])
    with less.IH [of "n div 256"] n show ?thesis by (simp add: be_bytes.simps [of n])
  qed
qed

interpretation be: big_num be_bytes
  by unfold_locales (simp_all add: of_be_be_bytes be_bytes_minimal)

definition sample_openssl :: openssl_api where
  "sample_openssl = \<lparr>os_coordinates = (\<lambda>_. Some (1, 2)), os_sign = (\<lambda>k m. Some (pk_material k)),
     os_from_der = (\<lambda>b. case b of [x, y] \<Rightarrow> Some (of_char x, of_char y) | _ \<Rightarrow> None), os_to_vec = be_bytes,
     os_b64 = id, os_header_json = (\<lambda>h. jh_url h)\<rparr>"

theorem jws_signature_roundtrip_witness:
  "\<exists>sig. der_sig_to_jws_sig sample_openssl ''AB'' = Some (Inr (os_b64 sample_openssl sig)) \<and> length sig = 64
    \<and> of_be 0 (take 32 sig) = 65 \<and> of_be 0 (drop 32 sig) = 66"
  by (rule jws_signature_roundtrip) (simp_all add: sample_openssl_def be.big_num_axioms)

end
