(* ===== verification/Config_Server.thy ===== *)
theory Config_Server
  imports Trx_Logging Acme_Jws
begin

text \<open>
  The configuration server of the control plane, \<open>control-plane/src/config_server.rs\<close>, with its routes and
  messages (\<open>shared/src/server/config_server.rs\<close>), the client of the certificate provisioner it asks for tokens
  (\<open>control-plane/src/clients/cert_provisioner.rs\<close>) and the names of \<open>control-plane/src/configuration.rs\<close>. JSON,
  the storage client and the connection to the provisioner are parameters. Every response has the content
  type \<open>application/json\<close>, so a response is its status and its body. A handler returns \<open>None\<close> for a
  panic; like an error, it ends the connection without a response.
\<close>

section \<open>Routes and messages\<close>

datatype ConfigServerPath = GetCertToken | PostTrxLogs | GetE3Token | Storage | AcmeSign | AcmeJWK | Time

definition path_from_str :: "string \<Rightarrow> ConfigServerPath option" where
  "path_from_str input =
     (if input = ''/cert/token'' then Some GetCertToken
      else if input = ''/e3/token'' then Some GetE3Token
      else if input = ''/trx/logs'' then Some PostTrxLogs
      else if input = ''/storage'' then Some Storage
      else if input = ''/acme/sign'' then Some AcmeSign
      else if input = ''/acme/jwk'' then Some AcmeJWK
      else if input = ''/time'' then Some Time
      else None)"

fun path_to_str :: "ConfigServerPath \<Rightarrow> string" where
  "path_to_str GetCertToken = ''/cert/token''"
| "path_to_str GetE3Token = ''/e3/token''"
| "path_to_str PostTrxLogs = ''/trx/logs''"
| "path_to_str Storage = ''/storage''"
| "path_to_str AcmeSign = ''/acme/sign''"
| "path_to_str AcmeJWK = ''/acme/jwk''"
| "path_to_str Time = ''/time''"

lemma path_roundtrip [simp]: "path_from_str (path_to_str p) = Some p"
  by (cases p) (simp_all add: path_from_str_def)

declare path_to_str.simps [simp del]

datatype SignatureType = SignHMAC | SignECDSA

record JwsRequest =
  jq_signature_type :: SignatureType
  jq_url :: string
  jq_nonce :: "string option"
  jq_payload :: string
  jq_account_id :: "string option"

record Identifier =
  id_type :: string
  id_value :: string

datatype ConfigServerPayload =
    GetObjectRequest string
  | GetObjectResponse string
  | PutObjectRequest string string
  | DeleteObjectRequest string
  | JwsRequestPayload JwsRequest
  | JwsResponsePayload JwsResult
  | JwkResponsePayload Jwk
  | TrxLogsPayload "TrxContext list"
  | CertTokenPayload string
  | E3TokenPayload string string
  | ClockSyncPayload int int

text \<open>
  \<open>serde_json\<close> on the messages: \<open>to_vec\<close> (which cannot fail on them) and one parser per message type.
\<close>

record config_json =
  cj_to_vec :: "ConfigServerPayload \<Rightarrow> bytes"
  cj_get_object :: "bytes \<Rightarrow> string option"
  cj_object :: "bytes \<Rightarrow> string option"
  cj_put_object :: "bytes \<Rightarrow> (string \<times> string) option"
  cj_delete_object :: "bytes \<Rightarrow> string option"
  cj_jws_request :: "bytes \<Rightarrow> JwsRequest option"
  cj_jws_response :: "bytes \<Rightarrow> JwsResult option"
  cj_jwk :: "bytes \<Rightarrow> Jwk option"
  cj_trx_logs :: "bytes \<Rightarrow> TrxContext list option"
  cj_cert_token :: "bytes \<Rightarrow> string option"
  cj_e3_token :: "bytes \<Rightarrow> (string \<times> string) option"
  cj_clock_sync :: "bytes \<Rightarrow> (int \<times> int) option"
  cj_new_order :: "string \<Rightarrow> Identifier list option"

text \<open>What a message is written as is read as that message again.\<close>

locale config_messages =
  fixes J :: config_json
  assumes get_object: "cj_get_object J (cj_to_vec J (GetObjectRequest k)) = Some k"
    and object: "cj_object J (cj_to_vec J (GetObjectResponse b)) = Some b"
    and put_object: "cj_put_object J (cj_to_vec J (PutObjectRequest k b)) = Some (k, b)"
    and delete_object: "cj_delete_object J (cj_to_vec J (DeleteObjectRequest k)) = Some k"
    and jws_request: "cj_jws_request J (cj_to_vec J (JwsRequestPayload q)) = Some q"
    and jws_response: "cj_jws_response J (cj_to_vec J (JwsResponsePayload r)) = Some r"

section \<open>The context and the clients\<close>

record CpEnclaveContext =
  cx_uuid :: string
  cx_version :: string
  cx_name :: string
  cx_app_uuid :: string
  cx_team_uuid :: string

definition cp_hyphenated_app_uuid :: "CpEnclaveContext \<Rightarrow> string" where
  "cp_hyphenated_app_uuid c = map (\<lambda>x. if x = CHR ''_'' then CHR ''-'' else x) (cx_app_uuid c)"

definition get_namespace_string :: "CpEnclaveContext \<Rightarrow> string" where
  "get_namespace_string c = cp_hyphenated_app_uuid c @ ''/'' @ cx_name c"

definition namespace_key :: "string \<Rightarrow> CpEnclaveContext \<Rightarrow> string" where
  "namespace_key key c = get_namespace_string c @ ''/'' @ key"

definition get_trusted_cert_base_domains :: "string list" where
  "get_trusted_cert_base_domains = [''cage.evervault.com'', ''enclave.evervault.com'']"

record ExternalAccountBinding =
  eab_key_id :: string
  eab_private_key :: PKey

record AcmeAccountDetails =
  ad_account_ec_key :: PKey
  ad_eab_config :: "ExternalAccountBinding option"

datatype ConfigError = CfgHyper | CfgJson | CfgIo | CfgFailedRequest nat | CfgAcme SharedAcmeError

text \<open>
  The client of the certificate provisioner. \<open>None\<close> is the panic on a version that is no \<open>i32\<close>; the requests
  are sent over mutual TLS.
\<close>

record provisioner_api =
  pv_parse_i32 :: "string \<Rightarrow> int option"
  pv_request_json :: "string \<times> int \<times> string \<times> string \<times> string \<Rightarrow> bytes"
  pv_send :: "string \<Rightarrow> bytes \<Rightarrow> (ConfigError, nat \<times> bytes) result"
  pv_cert_token :: "bytes \<Rightarrow> string option"
  pv_e3_token :: "bytes \<Rightarrow> (string \<times> string) option"

definition is_success :: "nat \<Rightarrow> bool" where
  "is_success status \<longleftrightarrow> 200 \<le> status \<and> status < 300"

definition get_token_request_metadata_from_env ::
  "provisioner_api \<Rightarrow> CpEnclaveContext \<Rightarrow> (string \<times> int \<times> string \<times> string \<times> string) option" where
  "get_token_request_metadata_from_env P env =
     map_option (\<lambda>version_id. (cx_uuid env, version_id, cx_name env, cx_app_uuid env, cx_team_uuid env))
       (pv_parse_i32 P (cx_version env))"

definition provisioner_send :: "provisioner_api \<Rightarrow> string \<Rightarrow> bytes \<Rightarrow> (ConfigError, bytes) result" where
  "provisioner_send P path body =
     try_bind (pv_send P path body) (\<lambda>(status, response).
       if is_success status then Inr response else Inl (CfgFailedRequest status))"

definition provisioner_get_token ::
  "provisioner_api \<Rightarrow> CpEnclaveContext \<Rightarrow> (bytes \<Rightarrow> 'a option) \<Rightarrow> ConfigServerPath \<Rightarrow> (ConfigError, 'a) result option" where
  "provisioner_get_token P env parse path =
     map_option (\<lambda>metadata. try_bind (provisioner_send P (path_to_str path) (pv_request_json P metadata))
         (\<lambda>body. ok_or CfgJson (parse body)))
       (get_token_request_metadata_from_env P env)"

text \<open>The storage client: a failed operation is \<open>Inl\<close>.\<close>

record 's storage_api =
  sg_get :: "string \<Rightarrow> 's \<Rightarrow> (unit, string option) result \<times> 's"
  sg_put :: "string \<Rightarrow> string \<Rightarrow> 's \<Rightarrow> (unit, unit) result \<times> 's"
  sg_delete :: "string \<Rightarrow> 's \<Rightarrow> (unit, unit) result \<times> 's"

record 's config_env =
  cf_json :: config_json
  cf_openssl :: openssl_api
  cf_provisioner :: provisioner_api
  cf_storage :: "'s storage_api"
  cf_context :: CpEnclaveContext
  cf_acme :: AcmeAccountDetails
  cf_clock :: "(int \<times> int) option"
  cf_show_error :: "ConfigError \<Rightarrow> string"

section \<open>Handlers\<close>

record cfg_request =
  cq_method :: string
  cq_path :: string
  cq_body :: "bytes option"

record cfg_response =
  cr_status :: nat
  cr_body :: bytes

record 's cfg_state =
  cs_store :: 's
  cs_logs :: "TrxContext list"

type_synonym handled = "(ConfigError, cfg_response) result option"

definition build_success_response :: "bytes option \<Rightarrow> cfg_response" where
  "build_success_response body = \<lparr>cr_status = 200, cr_body = (case body of Some b \<Rightarrow> b | None \<Rightarrow> [])\<rparr>"

definition build_bad_request_response :: cfg_response where
  "build_bad_request_response = \<lparr>cr_status = 404, cr_body = []\<rparr>"

definition build_error_response :: "string \<Rightarrow> cfg_response" where
  "build_error_response body_msg = \<lparr>cr_status = 500, cr_body = body_msg\<rparr>"

definition parse_request :: "(bytes \<Rightarrow> 'a option) \<Rightarrow> cfg_request \<Rightarrow> (ConfigError, 'a) result" where
  "parse_request parse req = try_bind (ok_or CfgHyper (cq_body req)) (\<lambda>b. ok_or CfgJson (parse b))"

datatype TokenType = CertType ConfigServerPath | E3Type ConfigServerPath

fun show_token_type :: "TokenType \<Rightarrow> string" where
  "show_token_type (CertType _) = ''Cert(GetCertToken)''"
| "show_token_type (E3Type _) = ''E3(GetE3Token)''"

fun get_token :: "'s config_env \<Rightarrow> TokenType \<Rightarrow> handled" where
  "get_token C (CertType path) =
     map_option (\<lambda>r. try_bind r (\<lambda>token. Inr (build_success_response (Some (cj_to_vec (cf_json C) (CertTokenPayload token))))))
       (provisioner_get_token (cf_provisioner C) (cf_context C) (pv_cert_token (cf_provisioner C)) path)"
| "get_token C (E3Type path) =
     map_option (\<lambda>r. try_bind r (\<lambda>(token, token_id).
         Inr (build_success_response (Some (cj_to_vec (cf_json C) (E3TokenPayload token token_id))))))
       (provisioner_get_token (cf_provisioner C) (cf_context C) (pv_e3_token (cf_provisioner C)) path)"

definition handle_token_request :: "'s config_env \<Rightarrow> TokenType \<Rightarrow> cfg_response option" where
  "handle_token_request C token_type =
     map_option (\<lambda>r. case r of
         Inr res \<Rightarrow> res
       | Inl e \<Rightarrow> build_error_response (''Failed to get token for token '' @ show_token_type token_type
                    @ '' err: '' @ cf_show_error C e))
       (get_token C token_type)"

definition handle_time_sync_request :: "'s config_env \<Rightarrow> cfg_response" where
  "handle_time_sync_request C =
     (case cf_clock C of
        Some (seconds, milliseconds) \<Rightarrow>
          build_success_response (Some (cj_to_vec (cf_json C) (ClockSyncPayload seconds milliseconds)))
      | None \<Rightarrow> build_error_response ''Failed to get time, err: second time provided was later than self'')"

definition validate_trx_log :: "TrxContext \<Rightarrow> CpEnclaveContext \<Rightarrow> bool" where
  "validate_trx_log trx_log c \<longleftrightarrow>
     resource_uuid trx_log = cx_uuid c \<and> resource_name trx_log = cx_name c
     \<and> team_uuid trx_log = cx_team_uuid c \<and> app_uuid trx_log = cx_app_uuid c"

text \<open>\<open>record_trx\<close> prints the record; a missing response code is printed as an error.\<close>

definition record_trx :: "TrxContext \<Rightarrow> TrxContext" where
  "record_trx t = (if response_code t = None then t\<lparr>response_code := Some ''ERR''\<rparr> else t)"

definition handle_post_trx_logs_request :: "'s config_env \<Rightarrow> cfg_request \<Rightarrow> 's cfg_state \<Rightarrow> cfg_response \<times> 's cfg_state" where
  "handle_post_trx_logs_request C req st =
     (case parse_request (cj_trx_logs (cf_json C)) req of
        Inr trx_logs \<Rightarrow>
          (build_success_response None,
           st\<lparr>cs_logs := cs_logs st @ map record_trx (filter (\<lambda>trx. validate_trx_log trx (cf_context C)) trx_logs)\<rparr>)
      | Inl _ \<Rightarrow> (build_error_response ''Failed to parse log body from data plane'', st))"

definition handle_acme_storage_get_request :: "'s config_env \<Rightarrow> cfg_request \<Rightarrow> 's cfg_state \<Rightarrow> cfg_response \<times> 's cfg_state" where
  "handle_acme_storage_get_request C req st =
     (case parse_request (cj_get_object (cf_json C)) req of
        Inr key \<Rightarrow>
         (case sg_get (cf_storage C) (namespace_key key (cf_context C)) (cs_store st) of
            (Inr (Some object), s) \<Rightarrow>
              (build_success_response (Some (cj_to_vec (cf_json C) (GetObjectResponse object))), st\<lparr>cs_store := s\<rparr>)
          | (Inr None, s) \<Rightarrow> (build_bad_request_response, st\<lparr>cs_store := s\<rparr>)
          | (Inl _, s) \<Rightarrow> (build_error_response ''Failed to get object in storage client'', st\<lparr>cs_store := s\<rparr>))
      | Inl _ \<Rightarrow> (build_error_response ''Failed to parse get object request from data plane'', st))"

definition handle_acme_storage_put_request :: "'s config_env \<Rightarrow> cfg_request \<Rightarrow> 's cfg_state \<Rightarrow> cfg_response \<times> 's cfg_state" where
  "handle_acme_storage_put_request C req st =
     (case parse_request (cj_put_object (cf_json C)) req of
        Inr (key, object) \<Rightarrow>
         (case sg_put (cf_storage C) (namespace_key key (cf_context C)) object (cs_store st) of
            (Inr _, s) \<Rightarrow> (build_success_response None, st\<lparr>cs_store := s\<rparr>)
          | (Inl _, s) \<Rightarrow> (build_error_response ''Failed to put object in storage client'', st\<lparr>cs_store := s\<rparr>))
      | Inl _ \<Rightarrow> (build_error_response ''Failed to parse put object request from data plane'', st))"

definition handle_acme_storage_delete_request :: "'s config_env \<Rightarrow> cfg_request \<Rightarrow> 's cfg_state \<Rightarrow> cfg_response \<times> 's cfg_state" where
  "handle_acme_storage_delete_request C req st =
     (case parse_request (cj_delete_object (cf_json C)) req of
        Inr key \<Rightarrow>
         (case sg_delete (cf_storage C) (namespace_key key (cf_context C)) (cs_store st) of
            (Inr _, s) \<Rightarrow> (build_success_response None, st\<lparr>cs_store := s\<rparr>)
          | (Inl _, s) \<Rightarrow> (build_error_response ''Failed to delete object in storage client'', st\<lparr>cs_store := s\<rparr>))
      | Inl _ \<Rightarrow> (build_error_response ''Failed to parse delete object request from data plane'', st))"

definition valid_order_identifiers :: "Identifier list \<Rightarrow> CpEnclaveContext \<Rightarrow> bool" where
  "valid_order_identifiers identifiers c =
     (let valid_domains = map (\<lambda>base_domain. cx_name c @ ''.'' @ cp_hyphenated_app_uuid c @ ''.'' @ base_domain)
            get_trusted_cert_base_domains
      in list_all (\<lambda>identifier. List.member valid_domains (id_value identifier)) identifiers)"

definition signing_key :: "AcmeAccountDetails \<Rightarrow> JwsRequest \<Rightarrow> PKey option \<times> string option" where
  "signing_key details q =
     (case jq_signature_type q of
        SignHMAC \<Rightarrow> (map_option eab_private_key (ad_eab_config details), map_option eab_key_id (ad_eab_config details))
      | SignECDSA \<Rightarrow> (Some (ad_account_ec_key details), jq_account_id q))"

text \<open>\<open>str::contains\<close> is \<^const>\<open>sublist\<close>.\<close>

definition sign_acme_payload :: "'s config_env \<Rightarrow> cfg_request \<Rightarrow> handled" where
  "sign_acme_payload C req =
     (case parse_request (cj_jws_request (cf_json C)) req of
        Inl _ \<Rightarrow> Some (Inr (build_error_response ''Failed to parse signing request from data plane''))
      | Inr q \<Rightarrow>
         (let (key, key_id) = signing_key (cf_acme C) q;
              sign = (case jws (cf_openssl C) (jq_url q) (jq_nonce q) (jq_payload q) key key_id of
                        None \<Rightarrow> None
                      | Some (Inr r) \<Rightarrow> Some (Inr (build_success_response (Some (cj_to_vec (cf_json C) (JwsResponsePayload r)))))
                      | Some (Inl _) \<Rightarrow> Some (Inr (build_error_response ''Failed to sign JWS request'')))
          in if sublist ''/newOrder'' (jq_url q) \<or> sublist ''/new-order'' (jq_url q) then
               (case cj_new_order (cf_json C) (jq_payload q) of
                  None \<Rightarrow> Some (Inl CfgJson)
                | Some order_payload \<Rightarrow>
                    if \<not> valid_order_identifiers order_payload (cf_context C) then Some (Inr build_bad_request_response)
                    else sign)
             else sign))"

definition handle_acme_signing_request :: "'s config_env \<Rightarrow> cfg_request \<Rightarrow> cfg_response option" where
  "handle_acme_signing_request C req =
     map_option (\<lambda>r. case r of Inr response \<Rightarrow> response
         | Inl err \<Rightarrow> build_error_response (''Failed to sign JWS request. Err: '' @ cf_show_error C err))
       (sign_acme_payload C req)"

definition get_acme_jwk :: "'s config_env \<Rightarrow> (ConfigError, cfg_response) result" where
  "get_acme_jwk C =
     (case jwk_new (cf_openssl C) (ad_account_ec_key (cf_acme C)) of
        Inl e \<Rightarrow> Inl (CfgAcme e)
      | Inr jwk \<Rightarrow> Inr (build_success_response (Some (cj_to_vec (cf_json C) (JwkResponsePayload jwk)))))"

definition handle_acme_jwk_request :: "'s config_env \<Rightarrow> cfg_response" where
  "handle_acme_jwk_request C =
     (case get_acme_jwk C of
        Inr response \<Rightarrow> response
      | Inl err \<Rightarrow> build_error_response (''Failed to get JWK. Err: '' @ cf_show_error C err))"

definition handle_incoming_request :: "'s config_env \<Rightarrow> cfg_request \<Rightarrow> 's cfg_state \<Rightarrow> cfg_response option \<times> 's cfg_state" where
  "handle_incoming_request C req st =
     (case path_from_str (cq_path req) of
        Some GetCertToken \<Rightarrow> (handle_token_request C (CertType GetCertToken), st)
      | Some GetE3Token \<Rightarrow> (handle_token_request C (E3Type GetE3Token), st)
      | Some PostTrxLogs \<Rightarrow> map_prod Some id (handle_post_trx_logs_request C req st)
      | Some AcmeSign \<Rightarrow> (handle_acme_signing_request C req, st)
      | Some AcmeJWK \<Rightarrow> (Some (handle_acme_jwk_request C), st)
      | Some Storage \<Rightarrow>
          if cq_method req = ''GET'' then map_prod Some id (handle_acme_storage_get_request C req st)
          else if cq_method req = ''PUT'' then map_prod Some id (handle_acme_storage_put_request C req st)
          else if cq_method req = ''DELETE'' then map_prod Some id (handle_acme_storage_delete_request C req st)
          else (Some build_bad_request_response, st)
      | Some Time \<Rightarrow> (Some (handle_time_sync_request C), st)
      | None \<Rightarrow> (Some build_bad_request_response, st))"

end
