(* ===== verification/Config_Client.thy ===== *)
theory Config_Client
  imports Config_Server
begin

text \<open>
  The data plane's client of the configuration server, \<open>data-plane/src/config_client.rs\<close>, talking to the
  server of \<open>Config_Server\<close>. A request meets one of three fates: no connection is made, the response is lost
  after the server has handled the request, or the response arrives. \<open>Retry::spawn\<close> decides how often a failed
  call is repeated; the fates of the attempts it makes are an argument.
\<close>

section \<open>Calls\<close>

text \<open>
  The fate of a request. One whose response is lost has had its effect by then: an effect that comes later than the error is not
  modelled.
\<close>

datatype link = NoConnection | ResponseLost | Delivered

datatype DpError = DpIo | DpHyper | DpConfigServer | DpFromUtf8

definition client_send ::
  "'s config_env \<Rightarrow> ConfigServerPath \<Rightarrow> string \<Rightarrow> bytes \<Rightarrow> link \<Rightarrow> 's cfg_state \<Rightarrow> (DpError, cfg_response) result \<times> 's cfg_state" where
  "client_send C path meth payload l st =
     (let req = \<lparr>cq_method = meth, cq_path = path_to_str path, cq_body = Some payload\<rparr> in
      case l of
        NoConnection \<Rightarrow> (Inl DpIo, st)
      | ResponseLost \<Rightarrow> (Inl DpHyper, snd (handle_incoming_request C req st))
      | Delivered \<Rightarrow> map_prod (ok_or DpHyper) id (handle_incoming_request C req st))"

definition then_parse :: "(DpError, cfg_response) result \<times> 'st \<Rightarrow> (cfg_response \<Rightarrow> (DpError, 'a) result) \<Rightarrow> (DpError, 'a) result \<times> 'st" where
  "then_parse r f = (case r of (res, st) \<Rightarrow> (try_bind res f, st))"

definition parse_response :: "(bytes \<Rightarrow> 'a option) \<Rightarrow> cfg_response \<Rightarrow> (DpError, 'a) result" where
  "parse_response parse res = ok_or DpConfigServer (parse (cr_body res))"

definition get_e3_token :: "'s config_env \<Rightarrow> link \<Rightarrow> 's cfg_state \<Rightarrow> (DpError, string \<times> string) result \<times> 's cfg_state" where
  "get_e3_token C l st = then_parse (client_send C GetE3Token ''GET'' [] l st) (\<lambda>response.
     if \<not> is_success (cr_status response) then Inl DpConfigServer
     else parse_response (cj_e3_token (cf_json C)) response)"

definition get_cert_token :: "'s config_env \<Rightarrow> link \<Rightarrow> 's cfg_state \<Rightarrow> (DpError, string) result \<times> 's cfg_state" where
  "get_cert_token C l st = then_parse (client_send C GetCertToken ''GET'' [] l st) (\<lambda>response.
     if \<not> is_success (cr_status response) then Inl DpConfigServer
     else parse_response (cj_cert_token (cf_json C)) response)"

definition post_trx_logs :: "'s config_env \<Rightarrow> TrxContext list \<Rightarrow> link \<Rightarrow> 's cfg_state \<Rightarrow> (DpError, unit) result \<times> 's cfg_state" where
  "post_trx_logs C trx_logs l st =
     then_parse (client_send C PostTrxLogs ''POST'' (cj_to_vec (cf_json C) (TrxLogsPayload trx_logs)) l st) (\<lambda>response.
       if cr_status response = 200 then Inr () else Inl DpConfigServer)"

text \<open>A response that is not \<open>OK\<close> becomes the message of the error when its body is UTF-8.\<close>

definition failed_response :: "cfg_response \<Rightarrow> DpError" where
  "failed_response response = (if from_utf8 (cr_body response) = None then DpFromUtf8 else DpConfigServer)"

definition client_jws :: "'s config_env \<Rightarrow> JwsRequest \<Rightarrow> link \<Rightarrow> 's cfg_state \<Rightarrow> (DpError, JwsResult) result \<times> 's cfg_state" where
  "client_jws C q l st =
     then_parse (client_send C AcmeSign ''GET'' (cj_to_vec (cf_json C) (JwsRequestPayload q)) l st) (\<lambda>response.
       if cr_status response = 200 then parse_response (cj_jws_response (cf_json C)) response
       else Inl (failed_response response))"

definition client_jwk :: "'s config_env \<Rightarrow> link \<Rightarrow> 's cfg_state \<Rightarrow> (DpError, Jwk) result \<times> 's cfg_state" where
  "client_jwk C l st = then_parse (client_send C AcmeJWK ''POST'' [] l st) (\<lambda>response.
     if cr_status response = 200 then parse_response (cj_jwk (cf_json C)) response
     else Inl (failed_response response))"

definition base_get_object :: "'s config_env \<Rightarrow> string \<Rightarrow> link \<Rightarrow> 's cfg_state \<Rightarrow> (DpError, string option) result \<times> 's cfg_state" where
  "base_get_object C key l st =
     then_parse (client_send C Storage ''GET'' (cj_to_vec (cf_json C) (GetObjectRequest key)) l st) (\<lambda>response.
       if cr_status response = 200
       then try_bind (parse_response (cj_object (cf_json C)) response) (\<lambda>result. Inr (Some result))
       else if cr_status response = 404 then Inr None
       else Inl DpConfigServer)"

definition base_put_object :: "'s config_env \<Rightarrow> string \<Rightarrow> string \<Rightarrow> link \<Rightarrow> 's cfg_state \<Rightarrow> (DpError, unit) result \<times> 's cfg_state" where
  "base_put_object C key object l st =
     then_parse (client_send C Storage ''PUT'' (cj_to_vec (cf_json C) (PutObjectRequest key object)) l st) (\<lambda>response.
       if cr_status response = 200 then Inr () else Inl DpConfigServer)"

definition base_delete_object :: "'s config_env \<Rightarrow> string \<Rightarrow> link \<Rightarrow> 's cfg_state \<Rightarrow> (DpError, unit) result \<times> 's cfg_state" where
  "base_delete_object C key l st =
     then_parse (client_send C Storage ''DELETE'' (cj_to_vec (cf_json C) (DeleteObjectRequest key)) l st) (\<lambda>response.
       if cr_status response = 200 then Inr () else Inl DpConfigServer)"

definition base_get_time_from_host :: "'s config_env \<Rightarrow> link \<Rightarrow> 's cfg_state \<Rightarrow> (DpError, int \<times> int) result \<times> 's cfg_state" where
  "base_get_time_from_host C l st = then_parse (client_send C Time ''GET'' [] l st) (\<lambda>response.
     if cr_status response = 200 then parse_response (cj_clock_sync (cf_json C)) response
     else Inl DpConfigServer)"

text \<open>The attempts of \<open>Retry::spawn\<close>: the first success or the last error.\<close>

fun retry_spawn :: "(link \<Rightarrow> 'st \<Rightarrow> (DpError, 'a) result \<times> 'st) \<Rightarrow> link \<Rightarrow> link list \<Rightarrow> 'st \<Rightarrow> (DpError, 'a) result \<times> 'st" where
  "retry_spawn f l [] st = f l st"
| "retry_spawn f l (l' # ls) st = (case f l st of (Inr v, st') \<Rightarrow> (Inr v, st') | (Inl e, st') \<Rightarrow> retry_spawn f l' ls st')"

definition get_object :: "'s config_env \<Rightarrow> string \<Rightarrow> link \<times> link list \<Rightarrow> 's cfg_state \<Rightarrow> (DpError, string option) result \<times> 's cfg_state" where
  "get_object C key ls = retry_spawn (base_get_object C key) (fst ls) (snd ls)"

definition put_object :: "'s config_env \<Rightarrow> string \<Rightarrow> string \<Rightarrow> link \<times> link list \<Rightarrow> 's cfg_state \<Rightarrow> (DpError, unit) result \<times> 's cfg_state" where
  "put_object C key object ls = retry_spawn (base_put_object C key object) (fst ls) (snd ls)"

definition delete_object :: "'s config_env \<Rightarrow> string \<Rightarrow> link \<times> link list \<Rightarrow> 's cfg_state \<Rightarrow> (DpError, unit) result \<times> 's cfg_state" where
  "delete_object C key ls = retry_spawn (base_delete_object C key) (fst ls) (snd ls)"

definition get_time_from_host :: "'s config_env \<Rightarrow> link \<times> link list \<Rightarrow> 's cfg_state \<Rightarrow> (DpError, int \<times> int) result \<times> 's cfg_state" where
  "get_time_from_host C ls = retry_spawn (base_get_time_from_host C) (fst ls) (snd ls)"

section \<open>The abstract store\<close>

text \<open>
  What the data plane is promised: a map from keys to objects. A call that fails may have had its effect or not.
\<close>

datatype store_op = GetOp string | PutOp string string | DeleteOp string

datatype store_answer = Object "string option" | Done | Failed

fun effect :: "store_op \<Rightarrow> (string \<rightharpoonup> string) \<Rightarrow> (string \<rightharpoonup> string)" where
  "effect (GetOp k) m = m"
| "effect (PutOp k v) m = m(k \<mapsto> v)"
| "effect (DeleteOp k) m = m(k := None)"

fun answer :: "store_op \<Rightarrow> (string \<rightharpoonup> string) \<Rightarrow> store_answer" where
  "answer (GetOp k) m = Object (m k)"
| "answer _ m = Done"

definition store_step :: "store_op \<Rightarrow> (string \<rightharpoonup> string) \<Rightarrow> store_answer \<Rightarrow> (string \<rightharpoonup> string) \<Rightarrow> bool" where
  "store_step op m a m' \<longleftrightarrow> (a = answer op m \<and> m' = effect op m) \<or> (a = Failed \<and> m' \<in> {m, effect op m})"

fun store_run :: "store_op list \<Rightarrow> (string \<rightharpoonup> string) \<Rightarrow> store_answer list \<Rightarrow> (string \<rightharpoonup> string) \<Rightarrow> bool" where
  "store_run [] m as m' \<longleftrightarrow> as = [] \<and> m' = m"
| "store_run (op # ops) m as m' \<longleftrightarrow> (\<exists>a as' m1. as = a # as' \<and> store_step op m a m1 \<and> store_run ops m1 as' m')"

text \<open>The calls of the client.\<close>

definition as_answer :: "('a \<Rightarrow> store_answer) \<Rightarrow> (DpError, 'a) result \<times> 'st \<Rightarrow> store_answer \<times> 'st" where
  "as_answer f r = map_prod (\<lambda>x. case x of Inl _ \<Rightarrow> Failed | Inr v \<Rightarrow> f v) id r"

fun client_op :: "'s config_env \<Rightarrow> store_op \<Rightarrow> link \<times> link list \<Rightarrow> 's cfg_state \<Rightarrow> store_answer \<times> 's cfg_state" where
  "client_op C (GetOp k) ls st = as_answer Object (get_object C k ls st)"
| "client_op C (PutOp k v) ls st = as_answer (\<lambda>_. Done) (put_object C k v ls st)"
| "client_op C (DeleteOp k) ls st = as_answer (\<lambda>_. Done) (delete_object C k ls st)"

fun client_run :: "'s config_env \<Rightarrow> (store_op \<times> link \<times> link list) list \<Rightarrow> 's cfg_state \<Rightarrow> store_answer list \<times> 's cfg_state" where
  "client_run C [] st = ([], st)"
| "client_run C ((op, ls) # ops) st =
     (case client_op C op ls st of (a, st') \<Rightarrow> map_prod (Cons a) id (client_run C ops st'))"

section \<open>The storage as a map\<close>

text \<open>The storage client: a failed write or deletion may have happened or not.\<close>

locale object_store =
  fixes B :: "'s storage_api" and contents :: "'s \<Rightarrow> string \<rightharpoonup> string"
  assumes get_ok: "sg_get B k s = (Inr x, s') \<Longrightarrow> x = contents s k"
    and get_same: "sg_get B k s = (r, s') \<Longrightarrow> contents s' = contents s"
    and put_ok: "sg_put B k v s = (Inr u, s') \<Longrightarrow> contents s' = (contents s)(k \<mapsto> v)"
    and put_failed: "sg_put B k v s = (Inl e, s') \<Longrightarrow> contents s' \<in> {contents s, (contents s)(k \<mapsto> v)}"
    and delete_ok: "sg_delete B k s = (Inr u, s') \<Longrightarrow> contents s' = (contents s)(k := None)"
    and delete_failed: "sg_delete B k s = (Inl e, s') \<Longrightarrow> contents s' \<in> {contents s, (contents s)(k := None)}"

lemma namespace_key_inject [simp]: "namespace_key k c = namespace_key k' c \<longleftrightarrow> k = k'"
  by (simp add: namespace_key_def)

lemma namespace_upd [simp]:
  "(\<lambda>k'. (m(namespace_key k c \<mapsto> v)) (namespace_key k' c)) = (\<lambda>k'. m (namespace_key k' c))(k \<mapsto> v)"
  "(\<lambda>k'. (m(namespace_key k c := None)) (namespace_key k' c)) = (\<lambda>k'. m (namespace_key k' c))(k := None)"
  by (auto simp: fun_eq_iff)

text \<open>Keys of other namespaces are not touched.\<close>

definition outside_unchanged :: "CpEnclaveContext \<Rightarrow> (string \<rightharpoonup> string) \<Rightarrow> (string \<rightharpoonup> string) \<Rightarrow> bool" where
  "outside_unchanged c m m' \<longleftrightarrow> (\<forall>k. \<not> prefix (get_namespace_string c @ ''/'') k \<longrightarrow> m' k = m k)"

lemma outside_unchanged_refl [simp]: "outside_unchanged c m m"
  by (simp add: outside_unchanged_def)

lemma outside_unchanged_trans: "outside_unchanged c m m' \<Longrightarrow> outside_unchanged c m' m'' \<Longrightarrow> outside_unchanged c m m''"
  by (simp add: outside_unchanged_def)

lemma outside_unchanged_upd [simp]: "outside_unchanged c m (m(namespace_key k c := v))"
  by (auto simp: outside_unchanged_def namespace_key_def)

text \<open>What the data plane sees of the storage, and that a call behaves as the abstract store does on it.\<close>

definition view :: "('s \<Rightarrow> string \<rightharpoonup> string) \<Rightarrow> 's config_env \<Rightarrow> 's cfg_state \<Rightarrow> string \<rightharpoonup> string" where
  "view contents C st = (\<lambda>k. contents (cs_store st) (namespace_key k (cf_context C)))"

definition served ::
  "('s \<Rightarrow> string \<rightharpoonup> string) \<Rightarrow> 's config_env \<Rightarrow> store_op \<Rightarrow> 's cfg_state \<Rightarrow> store_answer \<times> 's cfg_state \<Rightarrow> bool" where
  "served contents C op st r \<longleftrightarrow> store_step op (view contents C st) (fst r) (view contents C (snd r))
     \<and> outside_unchanged (cf_context C) (contents (cs_store st)) (contents (cs_store (snd r)))"

locale config_storage = object_store "cf_storage C" contents + config_messages "cf_json C"
  for C :: "'s config_env" and contents :: "'s \<Rightarrow> string \<rightharpoonup> string"
begin

lemmas call_defs = then_parse_def client_send_def handle_incoming_request_def parse_request_def ok_or_def Let_def

lemma base_get: "served contents C (GetOp k) st (as_answer Object (base_get_object C k l st))"
proof -
  obtain r s where g: "sg_get (cf_storage C) (namespace_key k (cf_context C)) (cs_store st) = (r, s)" by fastforce
  note same = get_same [OF g]
  show ?thesis
  proof (cases r)
    case (Inr v)
    with get_ok g have v: "contents (cs_store st) (namespace_key k (cf_context C)) = v" by metis
    show ?thesis
      using g Inr same v
      by (cases l; cases v)
        (simp_all add: served_def store_step_def as_answer_def view_def base_get_object_def call_defs get_object object
          handle_acme_storage_get_request_def build_success_response_def build_bad_request_response_def parse_response_def)
  next
    case (Inl e)
    then show ?thesis
      using g same
      by (cases l)
        (auto simp: served_def store_step_def as_answer_def view_def base_get_object_def call_defs get_object
          handle_acme_storage_get_request_def build_error_response_def)
  qed
qed

lemma base_put: "served contents C (PutOp k v) st (as_answer (\<lambda>_. Done) (base_put_object C k v l st))"
proof -
  obtain r s where g: "sg_put (cf_storage C) (namespace_key k (cf_context C)) v (cs_store st) = (r, s)" by fastforce
  note defs = served_def store_step_def as_answer_def view_def base_put_object_def call_defs put_object
    handle_acme_storage_put_request_def build_success_response_def build_error_response_def
  show ?thesis
  proof (cases r)
    case (Inr u)
    with g put_ok have "contents s = (contents (cs_store st))(namespace_key k (cf_context C) \<mapsto> v)" by blast
    with g Inr show ?thesis by (cases l) (simp_all add: defs del: fun_upd_apply)
  next
    case (Inl e)
    with g put_failed have "contents s = contents (cs_store st)
        \<or> contents s = (contents (cs_store st))(namespace_key k (cf_context C) \<mapsto> v)" by blast
    with g Inl show ?thesis by (cases l) (elim disjE; simp add: defs del: fun_upd_apply)+
  qed
qed

lemma base_delete: "served contents C (DeleteOp k) st (as_answer (\<lambda>_. Done) (base_delete_object C k l st))"
proof -
  obtain r s where g: "sg_delete (cf_storage C) (namespace_key k (cf_context C)) (cs_store st) = (r, s)" by fastforce
  note defs = served_def store_step_def as_answer_def view_def base_delete_object_def call_defs delete_object
    handle_acme_storage_delete_request_def build_success_response_def build_error_response_def
  show ?thesis
  proof (cases r)
    case (Inr u)
    with g delete_ok have "contents s = (contents (cs_store st))(namespace_key k (cf_context C) := None)" by blast
    with g Inr show ?thesis by (cases l) (simp_all add: defs del: fun_upd_apply)
  next
    case (Inl e)
    with g delete_failed have "contents s = contents (cs_store st)
        \<or> contents s = (contents (cs_store st))(namespace_key k (cf_context C) := None)" by blast
    with g Inl show ?thesis by (cases l) (elim disjE; simp add: defs del: fun_upd_apply)+
  qed
qed

end

lemma effect_idem: "effect op (effect op m) = effect op m" "answer op (effect op m) = answer op m"
  by (cases op; simp)+

lemma served_again:
  assumes "served contents C op st (Failed, st')" and "served contents C op st' r"
  shows "served contents C op st r"
proof -
  have "view contents C st' \<in> {view contents C st, effect op (view contents C st)}"
    using assms(1) by (cases op) (auto simp: served_def store_step_def)
  then have "store_step op (view contents C st) (fst r) (view contents C (snd r))"
    using assms(2) by (auto simp: served_def store_step_def effect_idem)
  moreover have "outside_unchanged (cf_context C) (contents (cs_store st)) (contents (cs_store (snd r)))"
    using assms outside_unchanged_trans by (auto simp: served_def)
  ultimately show ?thesis by (simp add: served_def)
qed

lemma served_retry:
  assumes "\<And>l st. served contents C op st (as_answer g (f l st))"
  shows "served contents C op st (as_answer g (retry_spawn f l ls st))"
proof (induction ls arbitrary: l st)
  case Nil
  show ?case using assms by simp
next
  case (Cons l' ls)
  obtain r st' where f: "f l st = (r, st')" by fastforce
  show ?case
  proof (cases r)
    case (Inl e)
    with assms [of st l] f have "served contents C op st (Failed, st')" by (simp add: as_answer_def)
    with Cons.IH served_again f Inl show ?thesis by fastforce
  next
    case (Inr v)
    with assms [of st l] f show ?thesis by simp
  qed
qed

context config_storage
begin

lemma client_op_served: "served contents C op st (client_op C op ls st)"
  by (cases op) (simp_all add: get_object_def put_object_def delete_object_def served_retry base_get base_put base_delete)

lemma client_run_refines:
  assumes "client_run C ops st = (as, st')"
  shows "store_run (map fst ops) (view contents C st) as (view contents C st')
    \<and> outside_unchanged (cf_context C) (contents (cs_store st)) (contents (cs_store st'))"
  using assms
proof (induction ops arbitrary: st as)
  case Nil
  then show ?case by simp
next
  case (Cons x ops)
  obtain op ls where x: "x = (op, ls)" by (cases x)
  obtain a st1 where a: "client_op C op ls st = (a, st1)" by fastforce
  obtain as' where r: "client_run C ops st1 = (as', st')" "as = a # as'"
    using Cons.prems by (cases "client_run C ops st1") (auto simp: x a)
  have "store_step op (view contents C st) a (view contents C st1)"
    and "outside_unchanged (cf_context C) (contents (cs_store st)) (contents (cs_store st1))"
    using client_op_served [of op st ls] by (simp_all add: a served_def)
  with Cons.IH [OF r(1)] outside_unchanged_trans show ?case by (auto simp: x r(2))
qed

end

text \<open>
  (C5) The storage calls of the data plane, over a connection that may fail or lose responses, through the
  routes, messages and retries of the configuration server, implement a map of the enclave's own: every
  sequence of calls is a run of the abstract store on the keys of the enclave's namespace, where a call
  that succeeds has the answer and the effect of the map and a call that fails had its effect or none, and no
  key of another namespace changes.
\<close>

theorem storage_calls_refine_map:
  assumes "config_messages (cf_json C)" and "object_store (cf_storage C) contents"
    and "client_run C ops st = (as, st')"
  shows "store_run (map fst ops) (view contents C st) as (view contents C st')
    \<and> outside_unchanged (cf_context C) (contents (cs_store st)) (contents (cs_store st'))"
  using config_storage.client_run_refines [OF config_storage.intro [OF assms(2,1)] assms(3)] .

section \<open>A concrete server\<close>

text \<open>Lists of strings as bytes: every character is marked, every string ended.\<close>

fun enc_str :: "string \<Rightarrow> bytes" where
  "enc_str [] = ''e''"
| "enc_str (c # s) = CHR ''c'' # c # enc_str s"

fun dec_strs :: "bytes \<Rightarrow> string list option" where
  "dec_strs [] = Some []"
| "dec_strs [m] = (if m = CHR ''e'' then Some [[]] else None)"
| "dec_strs (m # c # r) =
     (if m = CHR ''e'' then map_option (Cons []) (dec_strs (c # r))
      else (case dec_strs r of Some (s # ss) \<Rightarrow> Some ((c # s) # ss) | _ \<Rightarrow> None))"

lemma dec_enc_str: "dec_strs r = Some ss \<Longrightarrow> dec_strs (enc_str s @ r) = Some (s # ss)"
proof (induction s)
  case Nil
  then show ?case by (cases r) auto
qed simp

lemma dec_enc_strs [simp]: "dec_strs (concat (map enc_str ss)) = Some ss"
  by (induction ss) (simp_all add: dec_enc_str)

definition enc_opt :: "string option \<Rightarrow> string" where
  "enc_opt x = (case x of None \<Rightarrow> [] | Some s \<Rightarrow> CHR ''s'' # s)"

definition dec_opt :: "string \<Rightarrow> string option" where
  "dec_opt s = (case s of [] \<Rightarrow> None | _ # r \<Rightarrow> Some r)"

lemma dec_enc_opt [simp]: "dec_opt (enc_opt x) = x"
  by (cases x) (simp_all add: dec_opt_def enc_opt_def)

fun payload_fields :: "ConfigServerPayload \<Rightarrow> string list" where
  "payload_fields (GetObjectRequest k) = [k]"
| "payload_fields (GetObjectResponse b) = [b]"
| "payload_fields (PutObjectRequest k b) = [k, b]"
| "payload_fields (DeleteObjectRequest k) = [k]"
| "payload_fields (JwsRequestPayload q) =
     [if jq_signature_type q = SignHMAC then ''hmac'' else ''ecdsa'', jq_url q, enc_opt (jq_nonce q), jq_payload q,
      enc_opt (jq_account_id q)]"
| "payload_fields (JwsResponsePayload r) = [jr_protected r, jr_payload r, jr_signature r]"
| "payload_fields (JwkResponsePayload k) = [jwk_alg k, jwk_crv k, jwk_kty k, jwk_use k, jwk_x k, jwk_y k]"
| "payload_fields (TrxLogsPayload ls) = map txid ls"
| "payload_fields (CertTokenPayload t) = [t]"
| "payload_fields (E3TokenPayload t i) = [t, i]"
| "payload_fields (ClockSyncPayload s m) = []"

definition one_field :: "bytes \<Rightarrow> string option" where
  "one_field b = (case dec_strs b of Some [x] \<Rightarrow> Some x | _ \<Rightarrow> None)"

definition two_fields :: "bytes \<Rightarrow> (string \<times> string) option" where
  "two_fields b = (case dec_strs b of Some [x, y] \<Rightarrow> Some (x, y) | _ \<Rightarrow> None)"

definition ref_json :: config_json where
  "ref_json =
     \<lparr>cj_to_vec = (\<lambda>p. concat (map enc_str (payload_fields p))), cj_get_object = one_field, cj_object = one_field,
      cj_put_object = two_fields, cj_delete_object = one_field,
      cj_jws_request = (\<lambda>b. case dec_strs b of
          Some [t, u, n, p, a] \<Rightarrow> Some \<lparr>jq_signature_type = (if t = ''hmac'' then SignHMAC else SignECDSA), jq_url = u,
             jq_nonce = dec_opt n, jq_payload = p, jq_account_id = dec_opt a\<rparr>
        | _ \<Rightarrow> None),
      cj_jws_response = (\<lambda>b. case dec_strs b of
          Some [p, l, s] \<Rightarrow> Some \<lparr>jr_protected = p, jr_payload = l, jr_signature = s\<rparr> | _ \<Rightarrow> None),
      cj_jwk = (\<lambda>b. case dec_strs b of
          Some [a, c, t, u, x, y] \<Rightarrow> Some \<lparr>jwk_alg = a, jwk_crv = c, jwk_kty = t, jwk_use = u, jwk_x = x, jwk_y = y\<rparr>
        | _ \<Rightarrow> None),
      cj_trx_logs = (\<lambda>_. None), cj_cert_token = one_field, cj_e3_token = two_fields, cj_clock_sync = (\<lambda>_. None),
      cj_new_order = (\<lambda>s. map_option (map (\<lambda>v. \<lparr>id_type = ''dns'', id_value = v\<rparr>)) (dec_strs s))\<rparr>"

interpretation ref_cfg: config_messages ref_json
proof (unfold_locales, goal_cases)
  case (5 q)
  show ?case
    using dec_enc_strs [of "payload_fields (JwsRequestPayload q)"]
    by (cases "jq_signature_type q") (simp_all add: ref_json_def)
next
  case (6 r)
  show ?case using dec_enc_strs [of "payload_fields (JwsResponsePayload r)"] by (simp add: ref_json_def)
next
  case (3 k b)
  show ?case using dec_enc_strs [of "payload_fields (PutObjectRequest k b)"] by (simp add: ref_json_def two_fields_def)
qed (use dec_enc_strs [of "[_]"] in \<open>auto simp: ref_json_def one_field_def\<close>)

text \<open>A storage that works while its budget of operations lasts.\<close>

type_synonym alist_store = "nat \<times> (string \<times> string) list"

definition alist_storage :: "alist_store storage_api" where
  "alist_storage =
     \<lparr>sg_get = (\<lambda>k (n, m). if n = 0 then (Inl (), (n, m)) else (Inr (map_of m k), (n - 1, m))),
      sg_put = (\<lambda>k v (n, m). if n = 0 then (Inl (), (n, m)) else (Inr (), (n - 1, (k, v) # m))),
      sg_delete = (\<lambda>k (n, m). if n = 0 then (Inl (), (n, m)) else (Inr (), (n - 1, filter (\<lambda>(k', _). k' \<noteq> k) m)))\<rparr>"

definition alist_contents :: "alist_store \<Rightarrow> string \<rightharpoonup> string" where
  "alist_contents s = map_of (snd s)"

interpretation alist_st: object_store alist_storage alist_contents
  by unfold_locales
    (auto simp: alist_storage_def alist_contents_def map_of_filter_neq fun_eq_iff split: prod.splits if_splits)

definition sample_cp_context :: CpEnclaveContext where
  "sample_cp_context = \<lparr>cx_uuid = ''uuid'', cx_version = ''1'', cx_name = ''name'', cx_app_uuid = ''app_1'', cx_team_uuid = ''team''\<rparr>"

definition sample_config :: "alist_store config_env" where
  "sample_config = \<lparr>cf_json = ref_json, cf_openssl = sample_openssl,
     cf_provisioner = \<lparr>pv_parse_i32 = (\<lambda>_. Some 1), pv_request_json = (\<lambda>_. []), pv_send = (\<lambda>_ _. Inl CfgIo),
       pv_cert_token = (\<lambda>_. None), pv_e3_token = (\<lambda>_. None)\<rparr>,
     cf_storage = alist_storage, cf_context = sample_cp_context,
     cf_acme = \<lparr>ad_account_ec_key = \<lparr>pk_id = EC, pk_material = ''AB''\<rparr>, ad_eab_config = None\<rparr>,
     cf_clock = None, cf_show_error = (\<lambda>_. [])\<rparr>"

interpretation sample_cfg: config_storage sample_config alist_contents
  by (intro config_storage.intro)
    (simp_all add: sample_config_def ref_cfg.config_messages_axioms alist_st.object_store_axioms)

definition sample_calls :: "(store_op \<times> link \<times> link list) list" where
  "sample_calls = [(PutOp ''a'' ''1'', NoConnection, [ResponseLost, Delivered]), (GetOp ''a'', Delivered, []),
     (DeleteOp ''a'', ResponseLost, []), (GetOp ''a'', Delivered, [])]"

lemma sample_calls_run:
  "fst (client_run sample_config sample_calls \<lparr>cs_store = (9, []), cs_logs = []\<rparr>)
    = [Done, Object (Some ''1''), Failed, Object None]"
  by code_simp

theorem storage_calls_refine_map_witness:
  "\<exists>m. store_run (map fst sample_calls) Map.empty [Done, Object (Some ''1''), Failed, Object None] m"
proof -
  obtain st' where r: "client_run sample_config sample_calls \<lparr>cs_store = (9, []), cs_logs = []\<rparr>
      = ([Done, Object (Some ''1''), Failed, Object None], st')"
    using sample_calls_run by (metis prod.collapse)
  have v: "view alist_contents sample_config \<lparr>cs_store = (9, []), cs_logs = []\<rparr> = Map.empty"
    by (simp add: view_def alist_contents_def)
  have "config_messages (cf_json sample_config)" "object_store (cf_storage sample_config) alist_contents"
    by (simp_all add: sample_config_def ref_cfg.config_messages_axioms alist_st.object_store_axioms)
  from storage_calls_refine_map [OF this r] show ?thesis unfolding v by blast
qed

end
