(* ===== verification/Nom_Interface.thy ===== *)
theory Nom_Interface
  imports Enclave_Prelude
begin

text \<open>
  The interface to the parser library \<open>nom\<close> (version 7, streaming parsers) that
  \<open>data-plane/src/crypto/parser.rs\<close> is written with. The byte-level parsers
  \<open>tag\<close>, \<open>take_until\<close>, \<open>take_while\<close> and \<open>take_while_m_n\<close> are not part of the repository: they are
  the fields of a record that the model's definitions take as a parameter, and the locale
  \<open>nom_streaming\<close> states what the documentation of \<open>nom::bytes::streaming\<close> promises of them.
  The sequencing combinators (\<open>map\<close>, \<open>opt\<close>, \<open>pair\<close>, \<open>terminated\<close>, \<open>delimited\<close>, \<open>tuple\<close>, \<open>alt\<close>,
  \<open>map_res\<close>) look at no byte: they pass an \<open>IResult\<close> on, and since they are polymorphic they are
  written out here as functions on results.
\<close>

section \<open>Results of a parser\<close>

text \<open>\<open>nom::Needed\<close>, \<open>nom::Err\<close> (the payload of an error is never looked at) and \<open>nom::IResult\<close>.\<close>

datatype needed = Unknown | Size nat

datatype nom_err = Incomplete needed | Error | Failure

type_synonym 'a iresult = "nom_err + bytes \<times> 'a"
type_synonym 'a parser = "bytes \<Rightarrow> 'a iresult"

record nom =
  nom_tag :: "bytes \<Rightarrow> bytes parser"
  nom_take_until :: "bytes \<Rightarrow> bytes parser"
  nom_take_while :: "(byte \<Rightarrow> bool) \<Rightarrow> bytes parser"
  nom_take_while_m_n :: "nat \<Rightarrow> nat \<Rightarrow> (byte \<Rightarrow> bool) \<Rightarrow> bytes parser"

section \<open>Sequencing\<close>

definition p_bind :: "'a parser \<Rightarrow> ('a \<Rightarrow> 'b parser) \<Rightarrow> 'b parser" where
  "p_bind p f i = (case p i of Inl e \<Rightarrow> Inl e | Inr (r, x) \<Rightarrow> f x r)"

definition p_map :: "'a parser \<Rightarrow> ('a \<Rightarrow> 'b) \<Rightarrow> 'b parser" where
  "p_map p f = p_bind p (\<lambda>x r. Inr (r, f x))"

text \<open>\<open>map_res\<close>: a conversion that fails makes the parser fail with a recoverable error.\<close>

definition p_map_res :: "'a parser \<Rightarrow> ('a \<Rightarrow> 'b option) \<Rightarrow> 'b parser" where
  "p_map_res p f = p_bind p (\<lambda>x r. case f x of None \<Rightarrow> Inl Error | Some y \<Rightarrow> Inr (r, y))"

text \<open>\<open>opt\<close>: a recoverable error becomes \<open>None\<close> and consumes nothing; the other errors pass.\<close>

definition p_opt :: "'a parser \<Rightarrow> 'a option parser" where
  "p_opt p i =
     (case p i of
        Inl Error \<Rightarrow> Inr (i, None)
      | Inl e \<Rightarrow> Inl e
      | Inr (r, x) \<Rightarrow> Inr (r, Some x))"

definition p_pair :: "'a parser \<Rightarrow> 'b parser \<Rightarrow> ('a \<times> 'b) parser" where
  "p_pair p q = p_bind p (\<lambda>x. p_bind q (\<lambda>y r. Inr (r, (x, y))))"

definition p_terminated :: "'a parser \<Rightarrow> 'b parser \<Rightarrow> 'a parser" where
  "p_terminated p q = p_bind p (\<lambda>x. p_bind q (\<lambda>y r. Inr (r, x)))"

definition p_delimited :: "'a parser \<Rightarrow> 'b parser \<Rightarrow> 'c parser \<Rightarrow> 'b parser" where
  "p_delimited p q s = p_bind p (\<lambda>x. p_terminated q s)"

text \<open>\<open>alt\<close>: the first alternative that does not fail with a recoverable error decides.\<close>

fun p_alt :: "'a parser list \<Rightarrow> 'a parser" where
  "p_alt [] i = Inl Error"
| "p_alt (p # ps) i = (case p i of Inl Error \<Rightarrow> p_alt ps i | r \<Rightarrow> r)"

lemma p_bind_Inr [result_simps]:
  "p_bind p f i = Inr y \<longleftrightarrow> (\<exists>r x. p i = Inr (r, x) \<and> f x r = Inr y)"
  by (auto simp: p_bind_def split: sum.splits prod.splits)

lemma p_bind_step [simp]:
  "p i = Inr (r, x) \<Longrightarrow> p_bind p f i = f x r" "p i = Inl e \<Longrightarrow> p_bind p f i = Inl e"
  by (simp_all add: p_bind_def)

lemma p_map_step [simp]:
  "p i = Inr (r, x) \<Longrightarrow> p_map p f i = Inr (r, f x)" "p i = Inl e \<Longrightarrow> p_map p f i = Inl e"
  by (simp_all add: p_map_def)

lemma p_map_Inr [result_simps]:
  "p_map p f i = Inr (r, y) \<longleftrightarrow> (\<exists>x. p i = Inr (r, x) \<and> y = f x)"
  by (auto simp: p_map_def p_bind_Inr)

lemma p_terminated_Inr [result_simps]:
  "p_terminated p q i = Inr (r, x) \<longleftrightarrow> (\<exists>s y. p i = Inr (s, x) \<and> q s = Inr (r, y))"
  by (auto simp: p_terminated_def p_bind_Inr)

lemma p_pair_Inr [result_simps]:
  "p_pair p q i = Inr (r, z) \<longleftrightarrow> (\<exists>s x y. p i = Inr (s, x) \<and> q s = Inr (r, y) \<and> z = (x, y))"
  by (auto simp: p_pair_def p_bind_Inr)

lemma p_opt_Inr [result_simps]:
  "p_opt p i = Inr (r, z) \<longleftrightarrow>
     (p i = Inl Error \<and> r = i \<and> z = None) \<or> (\<exists>x. p i = Inr (r, x) \<and> z = Some x)"
  by (auto simp: p_opt_def split: sum.splits nom_err.splits prod.splits)

lemma p_opt_step [simp]:
  "p i = Inl Error \<Longrightarrow> p_opt p i = Inr (i, None)"
  "p i = Inr (r, x) \<Longrightarrow> p_opt p i = Inr (r, Some x)"
  "p i = Inl (Incomplete n) \<Longrightarrow> p_opt p i = Inl (Incomplete n)"
  by (simp_all add: p_opt_def)

lemma p_alt_all_error:
  "\<forall>p \<in> set ps. p i = Inl Error \<Longrightarrow> p_alt ps i = Inl Error"
  by (induction ps) auto

lemma p_alt_Inr: "p_alt ps i = Inr y \<Longrightarrow> \<exists>p \<in> set ps. p i = Inr y"
  by (induction ps) (auto split: sum.splits nom_err.splits)

section \<open>What the byte-level parsers promise\<close>

text \<open>
  The four groups of laws are the documented behaviour of the streaming parsers: success with the
  matched bytes and the rest, \<open>Incomplete\<close> when more input could still lead to a match, and a
  recoverable error otherwise. How many more bytes \<open>take_while_m_n\<close> and \<open>take_until\<close> ask for is
  left open.
\<close>

locale nom_streaming =
  fixes N :: nom
  assumes tag_ok: "nom_tag N t (t @ r) = Inr (r, t)"
    and tag_incomplete:
      "strict_prefix i t \<Longrightarrow> nom_tag N t i = Inl (Incomplete (Size (length t - length i)))"
    and tag_error: "\<not> prefix t i \<Longrightarrow> \<not> prefix i t \<Longrightarrow> nom_tag N t i = Inl Error"
    and take_until_ok:
      "t \<noteq> [] \<Longrightarrow> prefix t r \<Longrightarrow> (\<forall>k < length p. \<not> prefix t (drop k (p @ r))) \<Longrightarrow>
       nom_take_until N t (p @ r) = Inr (r, p)"
    and take_until_incomplete:
      "t \<noteq> [] \<Longrightarrow> \<not> sublist t i \<Longrightarrow> \<exists>n. nom_take_until N t i = Inl (Incomplete n)"
    and take_while_ok:
      "list_all P x \<Longrightarrow> \<not> P b \<Longrightarrow> nom_take_while N P (x @ b # r) = Inr (b # r, x)"
    and take_while_incomplete:
      "list_all P i \<Longrightarrow> nom_take_while N P i = Inl (Incomplete (Size 1))"
    and take_m_n_ok:
      "length x = m \<Longrightarrow> list_all P x \<Longrightarrow> nom_take_while_m_n N m m P (x @ r) = Inr (r, x)"
    and take_m_n_incomplete:
      "length i < m \<Longrightarrow> list_all P i \<Longrightarrow>
       \<exists>k > 0. nom_take_while_m_n N m m P i = Inl (Incomplete (Size k))"
    and take_m_n_error:
      "length x < m \<Longrightarrow> list_all P x \<Longrightarrow> \<not> P b \<Longrightarrow>
       nom_take_while_m_n N m m P (x @ b # r) = Inl Error"
begin

text \<open>Inversion of each parser: what an \<open>Ok\<close> says about the input.\<close>

lemma tag_Inr [parser_laws]: "nom_tag N t i = Inr (r, x) \<longleftrightarrow> i = t @ r \<and> x = t"
proof (cases "prefix t i")
  case True
  then obtain s where "i = t @ s" by (auto simp: prefix_def)
  then show ?thesis using tag_ok [of t s] by auto
next
  case False
  then have "\<not> (\<exists>r. i = t @ r)" by (auto simp: prefix_def)
  then show ?thesis
    using False tag_error [of t i] tag_incomplete [of i t]
    by (cases "prefix i t") (auto simp: strict_prefix_def)
qed

lemma tag_cases:
  obtains r where "i = t @ r" "nom_tag N t i = Inr (r, t)"
  | "strict_prefix i t" "nom_tag N t i = Inl (Incomplete (Size (length t - length i)))"
  | "\<not> prefix t i" "\<not> prefix i t" "nom_tag N t i = Inl Error"
proof (cases "prefix t i")
  case True
  then obtain r where "i = t @ r" by (auto simp: prefix_def)
  with tag_ok [of t r] that(1) show ?thesis by simp
next
  case False
  then show ?thesis
    using that(2,3) tag_error [of t i] tag_incomplete [of i t]
    by (cases "prefix i t") (auto simp: strict_prefix_def)
qed

lemma split_at_first_bad:
  "list_all P i \<or> (\<exists>x b r. i = x @ b # r \<and> list_all P x \<and> \<not> P b)"
proof (cases "list_all P i")
  case False
  then have "\<exists>b \<in> set i. \<not> P b" by (auto simp: list_all_iff)
  from split_list_first_prop [OF this]
  obtain x b r where "i = x @ b # r" "\<not> P b" "\<forall>y \<in> set x. \<not> \<not> P y"
    by blast
  then show ?thesis by (auto simp: list_all_iff)
qed simp

lemma take_while_Inr [parser_laws]:
  "nom_take_while N P i = Inr (r, x) \<longleftrightarrow>
     i = x @ r \<and> list_all P x \<and> (\<exists>b s. r = b # s \<and> \<not> P b)"
proof
  assume a: "nom_take_while N P i = Inr (r, x)"
  then have "\<not> list_all P i" using take_while_incomplete [of P i] by auto
  then obtain y b s where "i = y @ b # s" "list_all P y" "\<not> P b"
    using split_at_first_bad [of P i] by blast
  with a take_while_ok [of P y b s]
  show "i = x @ r \<and> list_all P x \<and> (\<exists>b s. r = b # s \<and> \<not> P b)" by auto
next
  assume "i = x @ r \<and> list_all P x \<and> (\<exists>b s. r = b # s \<and> \<not> P b)"
  then show "nom_take_while N P i = Inr (r, x)" using take_while_ok by auto
qed

lemma take_m_n_cases:
  obtains x r where "i = x @ r" "length x = m" "list_all P x"
      "nom_take_while_m_n N m m P i = Inr (r, x)"
  | k where "length i < m" "list_all P i" "0 < k"
      "nom_take_while_m_n N m m P i = Inl (Incomplete (Size k))"
  | "nom_take_while_m_n N m m P i = Inl Error"
      "\<exists>x b r. i = x @ b # r \<and> length x < m \<and> \<not> P b"
proof (cases "m \<le> length i \<and> list_all P (take m i)")
  case True
  then have "i = take m i @ drop m i" "length (take m i) = m" by auto
  with True take_m_n_ok [of "take m i" m P "drop m i"] show ?thesis
    by (intro that(1) [of "take m i" "drop m i"]) simp_all
next
  case False
  show ?thesis
  proof (cases "list_all P i")
    case True
    with False have "length i < m"
      by (meson linorder_not_less list_all_take)
    with True take_m_n_incomplete that(2) show ?thesis by blast
  next
    case nall: False
    then obtain x b r where i: "i = x @ b # r" "list_all P x" "\<not> P b"
      using split_at_first_bad [of P i] by blast
    have "length x < m"
    proof (rule ccontr)
      assume "\<not> length x < m"
      with i have "m \<le> length i" "take m i = take m x" by auto
      with False i(2) show False by (simp add: list_all_take)
    qed
    with i take_m_n_error that(3) show ?thesis by blast
  qed
qed

lemma take_m_n_Inr [parser_laws]:
  "nom_take_while_m_n N m m P i = Inr (r, x) \<longleftrightarrow> i = x @ r \<and> length x = m \<and> list_all P x"
proof (rule take_m_n_cases [where i = i and m = m and P = P])
  fix x' r' assume "i = x' @ r'" "length x' = m" "list_all P x'"
    "nom_take_while_m_n N m m P i = Inr (r', x')"
  then show ?thesis by (auto simp: append_eq_append_conv)
next
  fix k assume "length i < m" "nom_take_while_m_n N m m P i = Inl (Incomplete (Size k))"
  then show ?thesis by auto
next
  assume a: "nom_take_while_m_n N m m P i = Inl Error"
  then show ?thesis using take_m_n_ok [of x m P r] by auto
qed

lemma tag_not_failure: "nom_tag N t i \<noteq> Inl Failure"
  by (rule tag_cases [where i = i and t = t]) auto

lemma take_while_not_failure: "nom_take_while N P i \<noteq> Inl Failure"
  using split_at_first_bad [of P i] take_while_ok take_while_incomplete by fastforce

lemma take_m_n_not_failure: "nom_take_while_m_n N m m P i \<noteq> Inl Failure"
  by (rule take_m_n_cases [where i = i and m = m and P = P]) auto

lemma take_until_cases:
  assumes "t \<noteq> []"
  obtains p r where "i = p @ r" "prefix t r" "\<forall>k < length p. \<not> prefix t (drop k i)"
      "nom_take_until N t i = Inr (r, p)"
  | n where "\<not> sublist t i" "nom_take_until N t i = Inl (Incomplete n)"
proof (cases "sublist t i")
  case True
  then obtain ps ss where "i = ps @ t @ ss" by (auto simp: sublist_def)
  then have "prefix t (drop (length ps) i)" by simp
  then have "\<exists>k. prefix t (drop k i)" ..
  define k where "k = (LEAST k. prefix t (drop k i))"
  have k: "prefix t (drop k i)" "\<And>j. j < k \<Longrightarrow> \<not> prefix t (drop j i)"
    unfolding k_def using \<open>\<exists>k. _\<close> by (auto intro: LeastI_ex dest: not_less_Least)
  have "k \<le> length i"
  proof (rule ccontr)
    assume "\<not> k \<le> length i"
    then have "drop k i = []" by simp
    with k(1) assms show False by simp
  qed
  then have "length (take k i) = k" by simp
  with k take_until_ok [OF assms, of "drop k i" "take k i"]
  have "nom_take_until N t i = Inr (drop k i, take k i)" by simp
  with k \<open>length (take k i) = k\<close> that(1) [of "take k i" "drop k i"] show ?thesis by simp
next
  case False
  with take_until_incomplete [OF assms] that(2) show ?thesis by blast
qed

lemma take_until_at_start:
  assumes "t \<noteq> []"
  shows "nom_take_until N t (t @ r) = Inr (t @ r, [])"
  using take_until_ok [of t "t @ r" "[]"] assms by simp

end

section \<open>A concrete instance\<close>

text \<open>
  Executable parsers with this behaviour. They show that the laws can hold together, and they are
  what concrete inputs are evaluated with.
\<close>

definition ref_tag :: "bytes \<Rightarrow> bytes parser" where
  "ref_tag t i =
     (if prefix t i then Inr (drop (length t) i, t)
      else if prefix i t then Inl (Incomplete (Size (length t - length i)))
      else Inl Error)"

fun ref_take_until :: "bytes \<Rightarrow> bytes parser" where
  "ref_take_until t [] = (if t = [] then Inr ([], []) else Inl (Incomplete Unknown))"
| "ref_take_until t (b # i) =
     (if prefix t (b # i) then Inr (b # i, [])
      else (case ref_take_until t i of Inl e \<Rightarrow> Inl e | Inr (r, p) \<Rightarrow> Inr (r, b # p)))"

definition ref_take_while :: "(byte \<Rightarrow> bool) \<Rightarrow> bytes parser" where
  "ref_take_while P i =
     (if list_all P i then Inl (Incomplete (Size 1))
      else Inr (dropWhile P i, takeWhile P i))"

definition ref_take_while_m_n :: "nat \<Rightarrow> nat \<Rightarrow> (byte \<Rightarrow> bool) \<Rightarrow> bytes parser" where
  "ref_take_while_m_n m n P i =
     (let k = length (takeWhile P i) in
        if k = length i \<and> k < n then Inl (Incomplete (Size (if k < m then m - k else 1)))
        else if k < m then Inl Error
        else Inr (drop (min k n) i, take (min k n) i))"

definition nom_ref :: nom where
  "nom_ref = \<lparr>nom_tag = ref_tag, nom_take_until = ref_take_until,
     nom_take_while = ref_take_while, nom_take_while_m_n = ref_take_while_m_n\<rparr>"

lemma nom_ref_simps [simp]:
  "nom_tag nom_ref = ref_tag" "nom_take_until nom_ref = ref_take_until"
  "nom_take_while nom_ref = ref_take_while" "nom_take_while_m_n nom_ref = ref_take_while_m_n"
  by (simp_all add: nom_ref_def)

lemma ref_take_until_first:
  "prefix t r \<Longrightarrow> \<forall>k < length p. \<not> prefix t (drop k (p @ r)) \<Longrightarrow>
   ref_take_until t (p @ r) = Inr (r, p)"
proof (induction p)
  case Nil
  then show ?case by (cases r) (auto simp: prefix_def)
next
  case (Cons b p)
  from Cons.prems(2) have "\<not> prefix t ((b # p) @ r)" by (metis drop0 length_greater_0_conv list.distinct(1))
  moreover have "\<forall>k < length p. \<not> prefix t (drop k (p @ r))"
    using Cons.prems(2) by (auto dest: spec [of _ "Suc _"])
  ultimately show ?case using Cons.IH Cons.prems(1) by simp
qed

lemma ref_take_until_none:
  "t \<noteq> [] \<Longrightarrow> \<not> sublist t i \<Longrightarrow> ref_take_until t i = Inl (Incomplete Unknown)"
proof (induction i)
  case (Cons b i)
  then have "\<not> prefix t (b # i)" "\<not> sublist t i"
    by (auto simp: sublist_Cons_right)
  with Cons show ?case by simp
qed simp

interpretation nom_impl: nom_streaming nom_ref
proof (unfold_locales, goal_cases)
  case (4 t r p)
  then show ?case by (simp add: ref_take_until_first)
next
  case (5 t i)
  then show ?case by (simp add: ref_take_until_none)
next
  case (6 P x b r)
  then have "takeWhile P (x @ b # r) = x" "dropWhile P (x @ b # r) = b # r"
    by (auto simp: list_all_iff takeWhile_tail)
  with 6 show ?case by (simp add: ref_take_while_def)
next
  case (8 x m P r)
  then have "takeWhile P (x @ r) = x @ takeWhile P r"
    by (simp add: list_all_iff)
  with 8 show ?case by (auto simp: ref_take_while_m_n_def Let_def)
next
  case (9 i m P)
  then have tw: "takeWhile P i = i" by (simp add: list_all_iff)
  have "length (takeWhile P i) = length i" by (simp only: tw)
  with 9 show ?case by (auto simp: ref_take_while_m_n_def Let_def)
next
  case (10 x m P b r)
  then have "takeWhile P (x @ b # r) = x" by (simp add: list_all_iff takeWhile_tail)
  with 10 show ?case by (simp add: ref_take_while_m_n_def Let_def)
qed (auto simp: ref_tag_def ref_take_while_def strict_prefix_def)

end
