(* ===== verification/Ciphertext_Parser.thy ===== *)
theory Ciphertext_Parser
  imports Nom_Interface
begin

text \<open>
  The Evervault ciphertext format, \<open>data-plane/src/crypto/parser.rs\<close>: the enumerations of
  versions and data types, the record of a parsed ciphertext with its length and its printed form,
  and the parsers. Each definition carries the name of the function it models; fields are
  prefixed with \<open>ct_\<close> and \<open>datatype\<close>, an Isabelle keyword, is \<open>datatype_tag\<close>.
  The lemmas show that the parser accepts exactly the printed format (\<open>ct_encode\<close>), leaves the
  rest of the input untouched and never fails fatally.
\<close>

section \<open>Data\<close>

datatype CiphertextVersion = Rfvc | T1jl | Tk9d | Tenz | Qljv | QkTC | S0lS

datatype Datatype = Boolean | Number | String

record Ciphertext =
  ct_debug :: bool
  ct_version :: "CiphertextVersion option"
  ct_datatype :: "Datatype option"
  ct_iv :: bytes
  ct_public_key :: bytes
  ct_encrypted_value :: bytes
  ct_has_leading_quote :: bool
  ct_has_trailing_quote :: bool

type_synonym ParsedCiphertext =
  "bool \<times> CiphertextVersion option \<times> Datatype option \<times> bytes \<times> bytes \<times> bytes"

definition ciphertext_new :: "ParsedCiphertext \<Rightarrow> bool \<Rightarrow> bool \<Rightarrow> Ciphertext" where
  "ciphertext_new parsed has_leading_quote has_trailing_quote =
     (case parsed of (dbg, ver, dt, iv, pub_key, encrypted_val) \<Rightarrow>
        \<lparr>ct_debug = dbg, ct_version = ver, ct_datatype = dt, ct_iv = iv,
         ct_public_key = pub_key, ct_encrypted_value = encrypted_val,
         ct_has_leading_quote = has_leading_quote,
         ct_has_trailing_quote = has_trailing_quote\<rparr>)"

definition ciphertext_from :: "ParsedCiphertext \<Rightarrow> Ciphertext" where
  "ciphertext_from parsed = ciphertext_new parsed False False"

definition set_leading_quote :: "bool \<Rightarrow> Ciphertext \<Rightarrow> Ciphertext" where
  "set_leading_quote b c = c\<lparr>ct_has_leading_quote := b\<rparr>"

definition set_trailing_quote :: "bool \<Rightarrow> Ciphertext \<Rightarrow> Ciphertext" where
  "set_trailing_quote b c = c\<lparr>ct_has_trailing_quote := b\<rparr>"

definition is_in_quotes :: "Ciphertext \<Rightarrow> bool" where
  "is_in_quotes c \<longleftrightarrow> ct_has_leading_quote c \<and> ct_has_trailing_quote c"

fun datatype_len :: "Datatype \<Rightarrow> nat" where
  "datatype_len Boolean = 7"
| "datatype_len Number = 6"
| "datatype_len String = 6"

definition datatype_is_string :: "Datatype \<Rightarrow> bool" where
  "datatype_is_string dt = (case dt of String \<Rightarrow> True | _ \<Rightarrow> False)"

definition should_discard_quotes :: "Ciphertext \<Rightarrow> bool" where
  "should_discard_quotes c \<longleftrightarrow>
     is_in_quotes c \<and>
     (case ct_datatype c of None \<Rightarrow> False | Some dt \<Rightarrow> \<not> datatype_is_string dt)"

text \<open>\<open>Ciphertext::len\<close>, the summands in the order of the source.\<close>

definition ct_len :: "Ciphertext \<Rightarrow> nat" where
  "ct_len c =
     3 + (case ct_version c of None \<Rightarrow> 0 | Some _ \<Rightarrow> 5)
       + (case ct_datatype c of None \<Rightarrow> 0 | Some dt \<Rightarrow> datatype_len dt + 1)
       + length (ct_iv c) + 1
       + length (ct_public_key c) + 1
       + length (ct_encrypted_value c) + 2
       + (if is_in_quotes c then 2 else 0)
       + (if ct_debug c then 6 else 0)"

fun version_display :: "CiphertextVersion \<Rightarrow> string" where
  "version_display Rfvc = ''RFVC''"
| "version_display T1jl = ''T1JL''"
| "version_display Tk9d = ''Tk9D''"
| "version_display Tenz = ''TENZ''"
| "version_display Qljv = ''QlJV''"
| "version_display QkTC = ''QkTC''"
| "version_display S0lS = ''S0lS''"

fun datatype_display :: "Datatype \<Rightarrow> string" where
  "datatype_display Boolean = ''boolean''"
| "datatype_display Number = ''number''"
| "datatype_display String = ''''"

text \<open>
  \<open>Display for Ciphertext\<close>; \<open>None\<close> is the panic of the \<open>expect\<close>s when a field is not UTF-8.
\<close>

definition ciphertext_display :: "Ciphertext \<Rightarrow> string option" where
  "ciphertext_display c =
     (case (from_utf8 (ct_iv c), from_utf8 (ct_public_key c), from_utf8 (ct_encrypted_value c)) of
        (Some iv, Some pk, Some ev) \<Rightarrow>
          Some (''ev:''
            @ (if ct_debug c then ''debug:'' else [])
            @ (case ct_version c of None \<Rightarrow> [] | Some vers \<Rightarrow> version_display vers @ '':'')
            @ (case ct_datatype c of None \<Rightarrow> [] | Some dt \<Rightarrow> datatype_display dt @ '':'')
            @ iv @ '':'' @ pk @ '':'' @ ev @ '':$'')
      | _ \<Rightarrow> None)"

section \<open>Parsers\<close>

definition version_try_from :: "bytes \<Rightarrow> CiphertextVersion option" where
  "version_try_from value =
     (if value = ''RFVC'' then Some Rfvc
      else if value = ''T1JL'' then Some T1jl
      else if value = ''Tk9D'' then Some Tk9d
      else if value = ''TENZ'' then Some Tenz
      else if value = ''QlJV'' then Some Qljv
      else if value = ''QkTC'' then Some QkTC
      else if value = ''S0lS'' then Some S0lS
      else None)"

definition datatype_try_from :: "bytes \<Rightarrow> Datatype option" where
  "datatype_try_from value =
     (if value = ''boolean'' then Some Boolean
      else if value = ''string'' then Some String
      else if value = ''number'' then Some Number
      else None)"

definition is_base64 :: "byte \<Rightarrow> bool" where
  "is_base64 input \<longleftrightarrow>
     is_ascii_alphanumeric input \<or> input = CHR ''='' \<or> input = CHR ''/'' \<or> input = CHR ''+''"

definition quote :: "nom \<Rightarrow> bytes parser" where
  "quote N = nom_tag N [CHR 0x22]"

definition ciphertext_prefix :: "nom \<Rightarrow> bytes parser" where
  "ciphertext_prefix N = nom_tag N ''ev''"

definition ciphertext_delimiter :: "nom \<Rightarrow> bytes parser" where
  "ciphertext_delimiter N = nom_tag N '':''"

definition ciphertext_iv :: "nom \<Rightarrow> bytes parser" where
  "ciphertext_iv N = nom_take_while_m_n N 16 16 is_base64"

definition ciphertext_public_key :: "nom \<Rightarrow> bytes parser" where
  "ciphertext_public_key N = nom_take_while_m_n N 44 44 is_base64"

definition ciphertext_encrypted_value :: "nom \<Rightarrow> bytes parser" where
  "ciphertext_encrypted_value N = nom_take_while N is_base64"

definition ciphertext_suffix :: "nom \<Rightarrow> bytes parser" where
  "ciphertext_suffix N = nom_tag N ''$''"

definition version :: "nom \<Rightarrow> CiphertextVersion parser" where
  "version N =
     p_map_res
       (p_alt [nom_tag N ''RFVC'', nom_tag N ''T1JL'', nom_tag N ''Tk9D'', nom_tag N ''TENZ'',
               nom_tag N ''QlJV'', nom_tag N ''QkTC'', nom_tag N ''S0lS''])
       version_try_from"

definition debug :: "nom \<Rightarrow> bytes parser" where
  "debug N = nom_tag N ''debug''"

definition datatype_tag :: "nom \<Rightarrow> Datatype parser" where
  "datatype_tag N =
     p_map_res
       (p_alt [nom_tag N ''string'', nom_tag N ''boolean'', nom_tag N ''number''])
       datatype_try_from"

definition find_ciphertext_prefix :: "nom \<Rightarrow> bytes parser" where
  "find_ciphertext_prefix N = nom_take_until N ''ev:''"

text \<open>\<open>ciphertext\<close>: the tuple of six fields between the prefix and the suffix.\<close>

definition ciphertext_fields :: "nom \<Rightarrow> ParsedCiphertext parser" where
  "ciphertext_fields N =
     p_pair (p_map (p_opt (p_pair (debug N) (ciphertext_delimiter N)))
               (\<lambda>debug_flag. debug_flag \<noteq> None))
    (p_pair (p_opt (p_terminated (version N) (ciphertext_delimiter N)))
    (p_pair (p_opt (p_terminated (datatype_tag N) (ciphertext_delimiter N)))
    (p_pair (p_terminated (ciphertext_iv N) (ciphertext_delimiter N))
    (p_pair (p_terminated (ciphertext_public_key N) (ciphertext_delimiter N))
            (p_terminated (ciphertext_encrypted_value N) (ciphertext_delimiter N))))))"

definition ciphertext :: "nom \<Rightarrow> Ciphertext parser" where
  "ciphertext N =
     p_map
       (p_delimited
          (p_pair (ciphertext_prefix N) (ciphertext_delimiter N))
          (ciphertext_fields N)
          (ciphertext_suffix N))
       ciphertext_from"

definition context_aware_ciphertext :: "nom \<Rightarrow> Ciphertext parser" where
  "context_aware_ciphertext N =
     p_map
       (p_pair (p_map (p_opt (quote N)) (\<lambda>maybe_quote. maybe_quote \<noteq> None))
       (p_pair (ciphertext N)
               (p_map (p_opt (quote N)) (\<lambda>maybe_quote. maybe_quote \<noteq> None))))
       (\<lambda>(leading_quote, c, trailing_quote).
          set_trailing_quote trailing_quote (set_leading_quote leading_quote c))"

definition parse_ciphertexts :: "nom \<Rightarrow> Ciphertext option parser" where
  "parse_ciphertexts N = p_opt (context_aware_ciphertext N)"

lemmas token_defs =
  quote_def ciphertext_prefix_def ciphertext_delimiter_def ciphertext_iv_def
  ciphertext_public_key_def ciphertext_encrypted_value_def ciphertext_suffix_def debug_def

section \<open>The format\<close>

text \<open>
  The specification of the wire format, independent of the parser: \<open>ct_encode\<close> is the text of a
  ciphertext without its quotes, \<open>wf_ciphertext\<close> says which field values the format allows.
\<close>

fun datatype_keyword :: "Datatype \<Rightarrow> string" where
  "datatype_keyword Boolean = ''boolean''"
| "datatype_keyword Number = ''number''"
| "datatype_keyword String = ''string''"

definition enc_debug :: "bool \<Rightarrow> string" where
  "enc_debug b = (if b then ''debug:'' else [])"

definition enc_version :: "CiphertextVersion option \<Rightarrow> string" where
  "enc_version v = (case v of None \<Rightarrow> [] | Some vers \<Rightarrow> version_display vers @ '':'')"

definition enc_datatype :: "Datatype option \<Rightarrow> string" where
  "enc_datatype d = (case d of None \<Rightarrow> [] | Some dt \<Rightarrow> datatype_keyword dt @ '':'')"

definition ct_encode :: "Ciphertext \<Rightarrow> string" where
  "ct_encode c =
     ''ev:'' @ enc_debug (ct_debug c) @ enc_version (ct_version c) @ enc_datatype (ct_datatype c)
       @ ct_iv c @ '':'' @ ct_public_key c @ '':'' @ ct_encrypted_value c @ '':$''"

definition wf_ciphertext :: "Ciphertext \<Rightarrow> bool" where
  "wf_ciphertext c \<longleftrightarrow>
     length (ct_iv c) = 16 \<and> list_all is_base64 (ct_iv c)
     \<and> length (ct_public_key c) = 44 \<and> list_all is_base64 (ct_public_key c)
     \<and> list_all is_base64 (ct_encrypted_value c)"

lemma base64_not_colon: "is_base64 b \<Longrightarrow> b \<noteq> CHR '':''"
  by (auto simp: is_base64_def is_ascii_alphanumeric_def)

lemma colon_not_base64 [simp]: "\<not> is_base64 CHR '':''"
  by (simp add: is_base64_def is_ascii_alphanumeric_def)

lemma base64_ascii: "is_base64 b \<Longrightarrow> byte_in 0 127 b"
  by (auto simp: is_base64_def is_ascii_alphanumeric_def byte_in_def Let_def)

lemma list_base64_ascii: "list_all is_base64 s \<Longrightarrow> list_all (byte_in 0 127) s"
  by (auto simp: list_all_iff base64_ascii)

lemma version_display_try_from [simp]: "version_try_from (version_display v) = Some v"
  by (cases v) (simp_all add: version_try_from_def)

lemma datatype_keyword_try_from [simp]: "datatype_try_from (datatype_keyword d) = Some d"
  by (cases d) (simp_all add: datatype_try_from_def)

lemma length_version_display [simp]: "length (version_display v) = 4"
  by (cases v) simp_all

lemma length_datatype_keyword [simp]: "length (datatype_keyword d) = datatype_len d"
  by (cases d) simp_all

text \<open>The length the code computes is the length of the text, with the quotes when both are there.\<close>

lemma ct_len_encode:
  "ct_len c = length (ct_encode c) + (if is_in_quotes c then 2 else 0)"
  by (simp add: ct_len_def ct_encode_def enc_debug_def enc_version_def enc_datatype_def
      split: option.splits)

lemma ciphertext_display_wf:
  assumes "wf_ciphertext c"
  shows "ciphertext_display c =
     Some (''ev:'' @ enc_debug (ct_debug c) @ enc_version (ct_version c)
       @ (case ct_datatype c of None \<Rightarrow> [] | Some dt \<Rightarrow> datatype_display dt @ '':'')
       @ ct_iv c @ '':'' @ ct_public_key c @ '':'' @ ct_encrypted_value c @ '':$'')"
  using assms
  by (simp add: ciphertext_display_def wf_ciphertext_def from_utf8_ascii list_base64_ascii
      enc_debug_def enc_version_def)

lemma ciphertext_display_encode:
  assumes "wf_ciphertext c" "ct_datatype c \<noteq> Some String"
  shows "ciphertext_display c = Some (ct_encode c)"
proof -
  have "(case ct_datatype c of None \<Rightarrow> [] | Some dt \<Rightarrow> datatype_display dt @ '':'')
      = enc_datatype (ct_datatype c)"
    using assms(2) by (auto simp: enc_datatype_def split: option.splits)
      (metis datatype_display.simps datatype_keyword.simps Datatype.exhaust)
  then show ?thesis
    by (simp add: ciphertext_display_wf [OF assms(1)] ct_encode_def)
qed

section \<open>The parser accepts exactly the format\<close>

definition never_fails :: "'a parser \<Rightarrow> bool" where
  "never_fails p \<longleftrightarrow> (\<forall>i. p i \<noteq> Inl Failure)"

lemma never_fails_bind: "never_fails p \<Longrightarrow> (\<And>x. never_fails (f x)) \<Longrightarrow> never_fails (p_bind p f)"
  by (auto simp: never_fails_def p_bind_def split: sum.splits)

lemma never_fails_return: "never_fails (\<lambda>r. Inr (r, x))"
  by (simp add: never_fails_def)

lemma never_fails_opt: "never_fails p \<Longrightarrow> never_fails (p_opt p)"
  by (auto simp: never_fails_def p_opt_def split: sum.splits nom_err.splits)

lemma never_fails_alt: "\<forall>p \<in> set ps. never_fails p \<Longrightarrow> never_fails (p_alt ps)"
  unfolding never_fails_def
  by (induction ps) (fastforce split: sum.splits nom_err.splits)+

lemma never_fails_map_res: "never_fails p \<Longrightarrow> never_fails (p_map_res p f)"
  unfolding p_map_res_def
  by (rule never_fails_bind) (auto simp: never_fails_def split: option.splits)

lemma never_fails_map: "never_fails p \<Longrightarrow> never_fails (p_map p f)"
  unfolding p_map_def by (intro never_fails_bind never_fails_return)

lemma never_fails_pair: "never_fails p \<Longrightarrow> never_fails q \<Longrightarrow> never_fails (p_pair p q)"
  unfolding p_pair_def by (intro never_fails_bind never_fails_return)

lemma never_fails_terminated: "never_fails p \<Longrightarrow> never_fails q \<Longrightarrow> never_fails (p_terminated p q)"
  unfolding p_terminated_def by (intro never_fails_bind never_fails_return)

lemma never_fails_delimited:
  "never_fails p \<Longrightarrow> never_fails q \<Longrightarrow> never_fails r \<Longrightarrow> never_fails (p_delimited p q r)"
  unfolding p_delimited_def by (intro never_fails_bind never_fails_terminated)

lemmas never_fails_intros =
  never_fails_opt never_fails_map_res never_fails_map never_fails_pair
  never_fails_terminated never_fails_delimited

lemma version_try_from_inv: "version_try_from t = Some v \<Longrightarrow> version_display v = t"
  by (auto simp: version_try_from_def split: if_splits)

lemma datatype_try_from_inv: "datatype_try_from t = Some d \<Longrightarrow> datatype_keyword d = t"
  by (auto simp: datatype_try_from_def split: if_splits)

lemma p_map_res_Inr:
  "p_map_res p f i = Inr (r, y) \<longleftrightarrow> (\<exists>x. p i = Inr (r, x) \<and> f x = Some y)"
  by (auto simp: p_map_res_def p_bind_def split: option.splits sum.splits)

lemma list_all_base64_version: "list_all is_base64 (version_display v)"
  by (cases v) (simp_all add: is_base64_def is_ascii_alphanumeric_def)

lemma list_all_base64_keyword: "list_all is_base64 (datatype_keyword d)"
  by (cases d) (simp_all add: is_base64_def is_ascii_alphanumeric_def)

context nom_streaming
begin

lemma tag_hit: "prefix t i \<Longrightarrow> nom_tag N t i = Inr (drop (length t) i, t)"
  by (auto simp: prefix_def tag_ok)

lemma tag_long: "length t \<le> length i \<Longrightarrow> \<not> prefix t i \<Longrightarrow> nom_tag N t i = Inl Error"
proof (rule tag_error)
  assume "length t \<le> length i" "\<not> prefix t i"
  then show "\<not> prefix i t"
    by (metis prefix_length_le prefix_order.order_refl le_antisym same_prefix_nil prefix_def
        append_eq_conv_conj take_all)
qed

lemma delimiter_hit [simp]: "ciphertext_delimiter N (CHR '':'' # r) = Inr (r, '':'')"
  using tag_ok [of "'':''" r] by (simp add: ciphertext_delimiter_def)

lemma delimiter_miss: "is_base64 b \<Longrightarrow> ciphertext_delimiter N (b # r) = Inl Error"
  unfolding ciphertext_delimiter_def
  by (rule tag_error) (auto dest: base64_not_colon)

text \<open>A keyword that is followed by another base64 character is not the keyword.\<close>

lemma delimiter_miss_drop:
  assumes "list_all is_base64 x" "k < length x"
  shows "ciphertext_delimiter N (drop k (x @ r)) = Inl Error"
proof -
  have "drop k (x @ r) = x ! k # drop (Suc k) x @ r"
    using assms(2) by (simp add: Cons_nth_drop_Suc)
  moreover have "is_base64 (x ! k)" using assms by (simp add: list_all_length)
  ultimately show ?thesis by (simp add: delimiter_miss)
qed

lemma alt_tags_cases:
  assumes "\<forall>t \<in> set ts. length t \<le> length i"
  shows "p_alt (map (nom_tag N) ts) i = Inl Error \<or>
     (\<exists>t \<in> set ts. prefix t i \<and> p_alt (map (nom_tag N) ts) i = Inr (drop (length t) i, t))"
  using assms
proof (induction ts)
  case (Cons t ts)
  then show ?case
    by (cases "prefix t i") (auto simp: tag_hit tag_long)
qed simp

lemma keyword_miss:
  assumes "list_all is_base64 x" "\<forall>t \<in> set ts. length t < length x"
  shows "p_terminated (p_map_res (p_alt (map (nom_tag N) ts)) f) (ciphertext_delimiter N) (x @ r)
    = Inl Error"
proof -
  have "\<forall>t \<in> set ts. length t \<le> length (x @ r)" using assms(2) by fastforce
  from alt_tags_cases [OF this] show ?thesis
  proof
    assume "p_alt (map (nom_tag N) ts) (x @ r) = Inl Error"
    then show ?thesis by (simp add: p_terminated_def p_map_res_def)
  next
    assume "\<exists>t \<in> set ts. prefix t (x @ r) \<and>
      p_alt (map (nom_tag N) ts) (x @ r) = Inr (drop (length t) (x @ r), t)"
    then obtain t where t: "t \<in> set ts"
      "p_alt (map (nom_tag N) ts) (x @ r) = Inr (drop (length t) (x @ r), t)" by blast
    with delimiter_miss_drop [OF assms(1), of "length t" r] assms(2) show ?thesis
      by (cases "f t") (simp_all add: p_terminated_def p_map_res_def del: drop_append)
  qed
qed

lemma version_miss:
  "list_all is_base64 x \<Longrightarrow> 4 < length x \<Longrightarrow>
   p_terminated (version N) (ciphertext_delimiter N) (x @ r) = Inl Error"
  using keyword_miss [of x "[''RFVC'', ''T1JL'', ''Tk9D'', ''TENZ'', ''QlJV'', ''QkTC'', ''S0lS'']"]
  by (simp add: version_def)

lemma datatype_miss:
  "list_all is_base64 x \<Longrightarrow> 7 < length x \<Longrightarrow>
   p_terminated (datatype_tag N) (ciphertext_delimiter N) (x @ r) = Inl Error"
  using keyword_miss [of x "[''string'', ''boolean'', ''number'']"]
  by (simp add: datatype_tag_def)

lemma debug_miss:
  assumes "list_all is_base64 x" "5 < length x"
  shows "p_pair (debug N) (ciphertext_delimiter N) (x @ r) = Inl Error"
proof (cases "prefix ''debug'' (x @ r)")
  case True
  then have "debug N (x @ r) = Inr (drop 5 (x @ r), ''debug'')"
    by (simp add: debug_def tag_hit eval_nat_numeral del: drop_append)
  with delimiter_miss_drop [OF assms(1), of 5 r] assms(2) show ?thesis
    by (simp add: p_pair_def del: drop_append)
next
  case False
  with assms(2) have "debug N (x @ r) = Inl Error"
    by (simp add: debug_def tag_long)
  then show ?thesis by (simp add: p_pair_def)
qed

lemma debug_miss_version:
  "p_pair (debug N) (ciphertext_delimiter N) (version_display v @ '':'' @ r) = Inl Error"
proof -
  have "debug N (version_display v @ '':'' @ r) = Inl Error"
    by (cases v) (simp_all add: debug_def tag_error)
  then show ?thesis by (simp add: p_pair_def)
qed

lemma version_hit: "version N (version_display v @ r) = Inr (r, v)"
  by (cases v) (simp_all add: version_def p_map_res_def version_try_from_def tag_hit tag_error)

lemma datatype_hit: "datatype_tag N (datatype_keyword d @ r) = Inr (r, d)"
  by (cases d) (simp_all add: datatype_tag_def p_map_res_def datatype_try_from_def tag_hit tag_error)

lemma version_Inr: "version N i = Inr (r, v) \<Longrightarrow> i = version_display v @ r"
  unfolding version_def p_map_res_Inr
  by (auto dest!: p_alt_Inr version_try_from_inv simp: tag_Inr simp del: p_alt.simps)

lemma datatype_Inr: "datatype_tag N i = Inr (r, d) \<Longrightarrow> i = datatype_keyword d @ r"
  unfolding datatype_tag_def p_map_res_Inr
  by (auto dest!: p_alt_Inr datatype_try_from_inv simp: tag_Inr simp del: p_alt.simps)

text \<open>The three optional fields, with what follows them.\<close>

lemma opt_debug_enc:
  assumes "\<not> d \<Longrightarrow> p_pair (debug N) (ciphertext_delimiter N) r = Inl Error"
  shows "p_map (p_opt (p_pair (debug N) (ciphertext_delimiter N))) (\<lambda>f. f \<noteq> None)
     (enc_debug d @ r) = Inr (r, d)"
proof (cases d)
  case True
  have "debug N (''debug'' @ '':'' @ r) = Inr ('':'' @ r, ''debug'')"
    unfolding debug_def by (rule tag_ok)
  then have "p_pair (debug N) (ciphertext_delimiter N) (''debug'' @ '':'' @ r)
      = Inr (r, (''debug'', '':''))"
    by (simp add: p_pair_def)
  with True show ?thesis by (simp add: enc_debug_def)
qed (use assms in \<open>simp add: enc_debug_def\<close>)

lemma opt_version_enc:
  assumes "v = None \<Longrightarrow> p_terminated (version N) (ciphertext_delimiter N) r = Inl Error"
  shows "p_opt (p_terminated (version N) (ciphertext_delimiter N)) (enc_version v @ r) = Inr (r, v)"
proof (cases v)
  case (Some vers)
  have "version N (version_display vers @ '':'' @ r) = Inr ('':'' @ r, vers)" by (rule version_hit)
  then have "p_terminated (version N) (ciphertext_delimiter N) (version_display vers @ '':'' @ r)
      = Inr (r, vers)"
    by (simp add: p_terminated_def)
  with Some show ?thesis by (simp add: enc_version_def)
qed (use assms in \<open>simp add: enc_version_def\<close>)

lemma opt_datatype_enc:
  assumes "t = None \<Longrightarrow> p_terminated (datatype_tag N) (ciphertext_delimiter N) r = Inl Error"
  shows "p_opt (p_terminated (datatype_tag N) (ciphertext_delimiter N)) (enc_datatype t @ r)
     = Inr (r, t)"
proof (cases t)
  case (Some dt)
  have "datatype_tag N (datatype_keyword dt @ '':'' @ r) = Inr ('':'' @ r, dt)"
    by (rule datatype_hit)
  then have "p_terminated (datatype_tag N) (ciphertext_delimiter N)
       (datatype_keyword dt @ '':'' @ r) = Inr (r, dt)"
    by (simp add: p_terminated_def)
  with Some show ?thesis by (simp add: enc_datatype_def)
qed (use assms in \<open>simp add: enc_datatype_def\<close>)

lemma ciphertext_fields_complete:
  assumes "length iv = 16" "list_all is_base64 iv" "length pk = 44" "list_all is_base64 pk"
    "list_all is_base64 ev"
  shows "ciphertext_fields N
      (enc_debug d @ enc_version v @ enc_datatype t @ iv @ '':'' @ pk @ '':'' @ ev @ '':'' @ r)
    = Inr (r, (d, v, t, iv, pk, ev))"
proof -
  let ?i3 = "iv @ '':'' @ pk @ '':'' @ ev @ '':'' @ r"
  let ?i2 = "enc_datatype t @ ?i3"
  let ?i1 = "enc_version v @ ?i2"
  have kw: "6 \<le> datatype_len d" for d by (cases d) simp_all
  have dm: "p_terminated (datatype_tag N) (ciphertext_delimiter N) ?i3 = Inl Error"
    using assms by (intro datatype_miss) simp_all
  have vm: "p_terminated (version N) (ciphertext_delimiter N) ?i2 = Inl Error"
  proof (cases t)
    case (Some dt)
    with kw [of dt] version_miss [of "datatype_keyword dt"] show ?thesis
      by (simp add: enc_datatype_def list_all_base64_keyword)
  qed (use assms version_miss [of iv] in \<open>simp add: enc_datatype_def\<close>)
  have bm: "p_pair (debug N) (ciphertext_delimiter N) ?i1 = Inl Error"
  proof (cases v)
    case None
    show ?thesis
    proof (cases t)
      case (Some dt)
      with None kw [of dt] debug_miss [of "datatype_keyword dt"] show ?thesis
        by (simp add: enc_datatype_def enc_version_def list_all_base64_keyword)
    qed (use None assms debug_miss [of iv] in \<open>simp add: enc_datatype_def enc_version_def\<close>)
  next
    case (Some vers)
    with debug_miss_version [of vers ?i2] show ?thesis by (simp add: enc_version_def)
  qed
  have "ciphertext_iv N ?i3 = Inr ('':'' @ pk @ '':'' @ ev @ '':'' @ r, iv)"
    unfolding ciphertext_iv_def using assms by (intro take_m_n_ok)
  moreover have "ciphertext_public_key N (pk @ '':'' @ ev @ '':'' @ r) = Inr ('':'' @ ev @ '':'' @ r, pk)"
    unfolding ciphertext_public_key_def using assms by (intro take_m_n_ok)
  moreover have "ciphertext_encrypted_value N (ev @ '':'' @ r) = Inr ('':'' @ r, ev)"
    using take_while_ok [of is_base64 ev "CHR '':''" r] assms
    by (simp add: ciphertext_encrypted_value_def)
  ultimately show ?thesis
    using opt_debug_enc [OF bm] opt_version_enc [OF vm] opt_datatype_enc [OF dm]
    by (simp add: ciphertext_fields_def p_pair_def p_terminated_def)
qed

lemma opt_debug_Inr:
  "p_map (p_opt (p_pair (debug N) (ciphertext_delimiter N))) (\<lambda>f. f \<noteq> None) i = Inr (r, d) \<Longrightarrow>
   i = enc_debug d @ r"
  by (auto simp: p_map_Inr p_opt_Inr p_pair_Inr token_defs tag_Inr enc_debug_def)

lemma opt_version_Inr:
  "p_opt (p_terminated (version N) (ciphertext_delimiter N)) i = Inr (r, v) \<Longrightarrow>
   i = enc_version v @ r"
  by (auto simp: p_opt_Inr p_terminated_Inr ciphertext_delimiter_def tag_Inr enc_version_def
      dest!: version_Inr)

lemma opt_datatype_Inr:
  "p_opt (p_terminated (datatype_tag N) (ciphertext_delimiter N)) i = Inr (r, t) \<Longrightarrow>
   i = enc_datatype t @ r"
  by (auto simp: p_opt_Inr p_terminated_Inr ciphertext_delimiter_def tag_Inr enc_datatype_def
      dest!: datatype_Inr)

lemma ciphertext_fields_sound:
  assumes "ciphertext_fields N i = Inr (r, (d, v, t, iv, pk, ev))"
  shows "i = enc_debug d @ enc_version v @ enc_datatype t @ iv @ '':'' @ pk @ '':'' @ ev @ '':'' @ r
    \<and> length iv = 16 \<and> list_all is_base64 iv \<and> length pk = 44 \<and> list_all is_base64 pk
    \<and> list_all is_base64 ev"
proof -
  from assms obtain i1 i2 i3 where
    "p_map (p_opt (p_pair (debug N) (ciphertext_delimiter N))) (\<lambda>f. f \<noteq> None) i = Inr (i1, d)"
    "p_opt (p_terminated (version N) (ciphertext_delimiter N)) i1 = Inr (i2, v)"
    "p_opt (p_terminated (datatype_tag N) (ciphertext_delimiter N)) i2 = Inr (i3, t)"
    and rest: "i3 = iv @ '':'' @ pk @ '':'' @ ev @ '':'' @ r \<and> length iv = 16
      \<and> list_all is_base64 iv \<and> length pk = 44 \<and> list_all is_base64 pk \<and> list_all is_base64 ev"
    unfolding ciphertext_fields_def p_pair_Inr p_terminated_Inr
    by (auto simp: token_defs tag_Inr take_m_n_Inr take_while_Inr)
  with opt_debug_Inr opt_version_Inr opt_datatype_Inr show ?thesis by simp
qed

lemma ciphertext_complete:
  assumes "wf_ciphertext c"
  shows "ciphertext N (ct_encode c @ r) =
    Inr (r, c\<lparr>ct_has_leading_quote := False, ct_has_trailing_quote := False\<rparr>)"
proof -
  let ?i = "enc_debug (ct_debug c) @ enc_version (ct_version c) @ enc_datatype (ct_datatype c)
    @ ct_iv c @ '':'' @ ct_public_key c @ '':'' @ ct_encrypted_value c @ '':'' @ ''$'' @ r"
  have "ciphertext_prefix N (''ev'' @ '':'' @ ?i) = Inr ('':'' @ ?i, ''ev'')"
    unfolding ciphertext_prefix_def by (rule tag_ok)
  moreover have "ciphertext_suffix N (''$'' @ r) = Inr (r, ''$'')"
    unfolding ciphertext_suffix_def by (rule tag_ok)
  moreover have "ciphertext_fields N ?i =
    Inr (''$'' @ r, (ct_debug c, ct_version c, ct_datatype c, ct_iv c, ct_public_key c,
      ct_encrypted_value c))"
    using assms by (intro ciphertext_fields_complete) (simp_all add: wf_ciphertext_def)
  ultimately show ?thesis
    by (simp add: ciphertext_def p_delimited_def p_pair_def p_terminated_def ct_encode_def
        ciphertext_from_def ciphertext_new_def)
qed

lemma ciphertext_sound:
  assumes "ciphertext N i = Inr (r, c)"
  shows "wf_ciphertext c \<and> i = ct_encode c @ r
    \<and> \<not> ct_has_leading_quote c \<and> \<not> ct_has_trailing_quote c"
proof -
  from assms obtain j d v t iv pk ev where
    f: "ciphertext_fields N j = Inr (''$'' @ r, (d, v, t, iv, pk, ev))"
    and i: "i = ''ev:'' @ j" and c: "c = ciphertext_from (d, v, t, iv, pk, ev)"
    unfolding ciphertext_def p_map_Inr p_delimited_def p_bind_Inr p_pair_Inr p_terminated_Inr
    by (auto simp: token_defs tag_Inr)
  from ciphertext_fields_sound [OF f] i c show ?thesis
    by (simp add: wf_ciphertext_def ct_encode_def ciphertext_from_def ciphertext_new_def)
qed

lemma opt_quote_Inr:
  "p_map (p_opt (quote N)) (\<lambda>q. q \<noteq> None) i = Inr (r, l) \<Longrightarrow>
   i = (if l then [CHR 0x22] else []) @ r"
  by (auto simp: p_map_Inr p_opt_Inr quote_def tag_Inr)

lemma context_aware_sound:
  assumes "context_aware_ciphertext N i = Inr (r, c)"
  shows "wf_ciphertext c \<and>
    i = (if ct_has_leading_quote c then [CHR 0x22] else []) @ ct_encode c
      @ (if ct_has_trailing_quote c then [CHR 0x22] else []) @ r"
proof -
  from assms obtain j k c' l t where
    "p_map (p_opt (quote N)) (\<lambda>q. q \<noteq> None) i = Inr (j, l)" "ciphertext N j = Inr (k, c')"
    "p_map (p_opt (quote N)) (\<lambda>q. q \<noteq> None) k = Inr (r, t)"
    "c = set_trailing_quote t (set_leading_quote l c')"
    unfolding context_aware_ciphertext_def p_map_Inr [of "p_pair _ _"] p_pair_Inr by auto
  then have "i = (if l then [CHR 0x22] else []) @ j" "ciphertext N j = Inr (k, c')"
    "k = (if t then [CHR 0x22] else []) @ r"
    "c = set_trailing_quote t (set_leading_quote l c')"
    by (simp_all add: opt_quote_Inr)
  with ciphertext_sound [of j k c'] show ?thesis
    by (simp add: wf_ciphertext_def ct_encode_def set_trailing_quote_def set_leading_quote_def)
qed

lemma ev_not_quote: "quote N (CHR ''e'' # r) = Inl Error"
  unfolding quote_def by (rule tag_error) simp_all

lemma context_aware_complete:
  assumes "wf_ciphertext c" "b \<noteq> CHR 0x22"
  shows "context_aware_ciphertext N (ct_encode c @ [CHR 0x22] @ r) =
      Inr (r, c\<lparr>ct_has_leading_quote := False, ct_has_trailing_quote := True\<rparr>)"
    and "context_aware_ciphertext N (ct_encode c @ b # r) =
      Inr (b # r, c\<lparr>ct_has_leading_quote := False, ct_has_trailing_quote := False\<rparr>)"
    and "context_aware_ciphertext N (ct_encode c) = Inl (Incomplete (Size 1))"
proof -
  have e: "quote N (ct_encode c @ s) = Inl Error" for s
    using ev_not_quote by (simp add: ct_encode_def)
  have q: "quote N ([CHR 0x22] @ r) = Inr (r, [CHR 0x22])"
    unfolding quote_def by (rule tag_ok)
  have nq: "quote N (b # r) = Inl Error"
    unfolding quote_def using assms(2) by (intro tag_error) simp_all
  have inc: "quote N [] = Inl (Incomplete (Size 1))"
    unfolding quote_def using tag_incomplete [of "[]" "[CHR 0x22]"] by simp
  note defs = context_aware_ciphertext_def p_pair_def p_map_def p_bind_def p_opt_def
    set_trailing_quote_def set_leading_quote_def
  show "context_aware_ciphertext N (ct_encode c @ [CHR 0x22] @ r) =
      Inr (r, c\<lparr>ct_has_leading_quote := False, ct_has_trailing_quote := True\<rparr>)"
    using e [of "[CHR 0x22] @ r"] ciphertext_complete [OF assms(1), of "[CHR 0x22] @ r"] q
    by (simp add: defs)
  show "context_aware_ciphertext N (ct_encode c @ b # r) =
      Inr (b # r, c\<lparr>ct_has_leading_quote := False, ct_has_trailing_quote := False\<rparr>)"
    using e [of "b # r"] ciphertext_complete [OF assms(1), of "b # r"] nq by (simp add: defs)
  show "context_aware_ciphertext N (ct_encode c) = Inl (Incomplete (Size 1))"
    using e [of "[]"] ciphertext_complete [OF assms(1), of "[]"] inc by (simp add: defs)
qed

lemma parse_ciphertexts_cases:
  obtains r c where "parse_ciphertexts N i = Inr (r, Some c)" "wf_ciphertext c"
      "i = (if ct_has_leading_quote c then [CHR 0x22] else []) @ ct_encode c
         @ (if ct_has_trailing_quote c then [CHR 0x22] else []) @ r"
  | "parse_ciphertexts N i = Inr (i, None)"
  | n where "parse_ciphertexts N i = Inl (Incomplete n)"
proof -
  have nf: "never_fails (nom_tag N t)" "never_fails (nom_take_while N P)"
    "never_fails (nom_take_while_m_n N m m P)" for t P m
    by (simp_all add: never_fails_def tag_not_failure take_while_not_failure take_m_n_not_failure)
  have "never_fails (context_aware_ciphertext N)"
    unfolding context_aware_ciphertext_def ciphertext_def ciphertext_fields_def version_def
      datatype_tag_def token_defs
    by (intro never_fails_intros never_fails_alt ballI) (auto simp: nf)
  then have nofail: "context_aware_ciphertext N i \<noteq> Inl Failure" by (simp add: never_fails_def)
  show thesis
  proof (cases "context_aware_ciphertext N i")
    case (Inl e)
    with nofail that(2,3) show ?thesis by (cases e) (simp_all add: parse_ciphertexts_def)
  next
    case (Inr rc)
    then obtain r c where "context_aware_ciphertext N i = Inr (r, c)" by (cases rc) simp
    with context_aware_sound [OF this] show ?thesis
      by (intro that(1) [of r c]) (simp_all add: parse_ciphertexts_def)
  qed
qed

text \<open>Where the data type should be there is only a colon.\<close>

lemma colon_miss:
  "p_terminated (version N) (ciphertext_delimiter N) (CHR '':'' # x) = Inl Error"
  "p_terminated (datatype_tag N) (ciphertext_delimiter N) (CHR '':'' # x) = Inl Error"
  "p_pair (debug N) (ciphertext_delimiter N) (CHR '':'' # x) = Inl Error"
  "ciphertext_iv N (CHR '':'' # x) = Inl Error"
proof -
  have t: "nom_tag N (a # t) (CHR '':'' # x) = Inl Error" if "a \<noteq> CHR '':''" for a t
    using that by (intro tag_error) simp_all
  show "p_terminated (version N) (ciphertext_delimiter N) (CHR '':'' # x) = Inl Error"
    "p_terminated (datatype_tag N) (ciphertext_delimiter N) (CHR '':'' # x) = Inl Error"
    "p_pair (debug N) (ciphertext_delimiter N) (CHR '':'' # x) = Inl Error"
    by (simp_all add: p_terminated_def p_pair_def version_def datatype_tag_def debug_def
        p_map_res_def t)
  show "ciphertext_iv N (CHR '':'' # x) = Inl Error"
    using take_m_n_error [of "[]" 16 is_base64 "CHR '':''" x] by (simp add: ciphertext_iv_def)
qed

lemma fields_empty_datatype:
  "ciphertext_fields N (enc_debug d @ enc_version v @ CHR '':'' # x) = Inl Error"
proof -
  have "p_pair (debug N) (ciphertext_delimiter N) (enc_version v @ CHR '':'' # x) = Inl Error"
    using debug_miss_version [of _ "CHR '':'' # x"] colon_miss(3) [of x]
    by (cases v) (simp_all add: enc_version_def)
  with opt_debug_enc [of d "enc_version v @ CHR '':'' # x"]
    opt_version_enc [OF colon_miss(1), of v x] colon_miss(2,4) [of x]
  show ?thesis
    by (simp add: ciphertext_fields_def p_pair_def p_terminated_def)
qed

lemma ciphertext_display_string:
  assumes "wf_ciphertext c" "ct_datatype c = Some String"
  obtains s where "ciphertext_display c = Some s" "\<And>r. ciphertext N (s @ r) = Inl Error"
proof
  let ?x = "ct_iv c @ '':'' @ ct_public_key c @ '':'' @ ct_encrypted_value c @ '':$''"
  let ?s = "''ev:'' @ enc_debug (ct_debug c) @ enc_version (ct_version c) @ CHR '':'' # ?x"
  show "ciphertext_display c = Some ?s"
    using assms by (simp add: ciphertext_display_wf)
  fix r
  let ?j = "enc_debug (ct_debug c) @ enc_version (ct_version c) @ CHR '':'' # ?x @ r"
  have "ciphertext_prefix N (''ev'' @ '':'' @ ?j) = Inr ('':'' @ ?j, ''ev'')"
    unfolding ciphertext_prefix_def by (rule tag_ok)
  then show "ciphertext N (?s @ r) = Inl Error"
    using fields_empty_datatype [of "ct_debug c" "ct_version c" "?x @ r"]
    by (simp add: ciphertext_def p_delimited_def p_terminated_def p_pair_def)
qed

end

section \<open>Properties\<close>

text \<open>The ciphertext the tests of the repository use, as a value to evaluate the properties on.\<close>

definition sample_ciphertext :: Ciphertext where
  "sample_ciphertext =
     \<lparr>ct_debug = False, ct_version = Some Tk9d, ct_datatype = Some Number,
      ct_iv = ''YGJVktHhdj3ds3wC'',
      ct_public_key = ''A6rkaTU8lez7NSBT8nTqbhBIu3tX4/lyH3aJVBUcGmLh'',
      ct_encrypted_value = ''8hI5qEp32kWcVK367yaC09bDRbk'',
      ct_has_leading_quote = False, ct_has_trailing_quote = False\<rparr>"

lemma sample_wf: "wf_ciphertext sample_ciphertext"
  by (simp add: sample_ciphertext_def wf_ciphertext_def is_base64_def is_ascii_alphanumeric_def)

text \<open>
  (C13) The parser accepts exactly the ciphertext format: \<open>ciphertext\<close> returns \<open>c\<close> and the rest \<open>r\<close>
  if and only if the input is the text of \<open>c\<close> (16 base64 characters of IV, 44 of public key, any
  number of base64 characters of value, the optional fields in their order) followed by \<open>r\<close>. In
  particular an IV that begins like a version, a data type or \<open>debug\<close> is not mistaken for one.
\<close>

theorem ciphertext_accepts_format:
  assumes "nom_streaming N"
  shows "ciphertext N i = Inr (r, c) \<longleftrightarrow>
    wf_ciphertext c \<and> \<not> ct_has_leading_quote c \<and> \<not> ct_has_trailing_quote c \<and> i = ct_encode c @ r"
  using nom_streaming.ciphertext_sound [OF assms] nom_streaming.ciphertext_complete [OF assms]
  by auto

theorem ciphertext_accepts_format_witness:
  "nom_streaming nom_ref \<and>
   ciphertext nom_ref (ct_encode sample_ciphertext @ ''.'') = Inr (''.'', sample_ciphertext)"
  using nom_impl.nom_streaming_axioms sample_wf
    ciphertext_accepts_format [OF nom_impl.nom_streaming_axioms,
      of "ct_encode sample_ciphertext @ ''.''" "''.''" sample_ciphertext]
  by (simp add: sample_ciphertext_def)

text \<open>
  (C31) Printing and parsing are inverse, except for one data type: a parsed ciphertext prints without
  a panic, and parsing the printed text gives the same ciphertext back if its data type is absent,
  \<open>boolean\<close> or \<open>number\<close>. For the data type \<open>string\<close> the printed text has an empty data type field and
  the parser rejects it, whatever follows.
\<close>

theorem ciphertext_display_roundtrip:
  assumes "nom_streaming N" and "ciphertext N i = Inr (r, c)"
  shows "\<exists>s. ciphertext_display c = Some s \<and>
    ciphertext N (s @ r') = (if ct_datatype c = Some String then Inl Error else Inr (r', c))"
proof -
  have c: "wf_ciphertext c" "\<not> ct_has_leading_quote c" "\<not> ct_has_trailing_quote c"
    using nom_streaming.ciphertext_sound [OF assms] by simp_all
  show ?thesis
  proof (cases "ct_datatype c = Some String")
    case True
    from nom_streaming.ciphertext_display_string [OF assms(1) c(1) True] True
    show ?thesis by metis
  next
    case False
    with ciphertext_display_encode [OF c(1)] nom_streaming.ciphertext_complete [OF assms(1) c(1)] c
    show ?thesis by simp
  qed
qed

theorem ciphertext_display_roundtrip_witness:
  "\<exists>s. ciphertext_display sample_ciphertext = Some s \<and>
     ciphertext nom_ref (s @ ''!'') = Inr (''!'', sample_ciphertext)"
proof -
  have h: "ciphertext nom_ref (ct_encode sample_ciphertext @ []) = Inr ([], sample_ciphertext)"
    using nom_impl.ciphertext_complete [OF sample_wf, of "[]"] by (simp add: sample_ciphertext_def)
  show ?thesis
    using ciphertext_display_roundtrip [OF nom_impl.nom_streaming_axioms h, of "''!''"]
    by (simp add: sample_ciphertext_def)
qed

end
