(* ===== verification/Stream_Decoder.thy ===== *)
theory Stream_Decoder
  imports Ciphertext_Parser
begin

text \<open>
  The incremental decoder that finds ciphertexts in a request body,
  \<open>data-plane/src/crypto/stream.rs\<close>. A call takes the decoder (its running \<open>offset\<close>) and the
  buffer and returns both with its result; \<open>None\<close> is a panic (\<open>advance\<close>, \<open>copy_to_bytes\<close> or a
  slice index beyond the buffer). The reader that calls the decoder (\<open>FramedRead\<close>) is outside the
  repository: the step relation \<open>stream_step\<close> lets it feed bytes and call \<open>decode\<close> and, after the
  end of the input, \<open>decode_eof\<close> in any order, so that what holds of every reachable state holds
  for the reader's own schedule.
\<close>

section \<open>The decoder\<close>

type_synonym Range = "nat \<times> nat"

datatype IncomingFrame =
    Plaintext bytes
  | CiphertextFrame Range Ciphertext

datatype IncomingStreamError =
    NomError
  | NomFailure
  | StreamIncomplete "nat option"
  | StreamIoError

text \<open>The \<open>usize\<close> of the offset is a natural number: it would wrap only behind \<open>2\<^sup>6\<^sup>4\<close> bytes of one body.\<close>

record IncomingStreamDecoder =
  offset :: nat

definition decoder_default :: IncomingStreamDecoder where
  "decoder_default = \<lparr>offset = 0\<rparr>"

type_synonym decode_result =
  "(IncomingStreamDecoder \<times> bytes \<times> (IncomingStreamError, IncomingFrame option) result) option"

definition find_next_ciphertext_candidate ::
  "nom \<Rightarrow> bytes \<Rightarrow> (IncomingStreamError, (bytes \<times> bytes) option) result" where
  "find_next_ciphertext_candidate N src =
     (case find_ciphertext_prefix N src of
        Inl (Incomplete _) \<Rightarrow> Inr None
      | Inl Error \<Rightarrow> Inl NomError
      | Inl Failure \<Rightarrow> Inl NomFailure
      | Inr detected \<Rightarrow> Inr (Some detected))"

text \<open>\<open>create_slice\<close>: the new decoder, the shortened buffer and the copied bytes.\<close>

definition create_slice ::
  "IncomingStreamDecoder \<Rightarrow> bytes \<Rightarrow> nat \<Rightarrow> (IncomingStreamDecoder \<times> bytes \<times> bytes) option" where
  "create_slice d src slice_length =
     (if slice_length \<le> length src
      then Some (d\<lparr>offset := offset d + slice_length\<rparr>, drop slice_length src, take slice_length src)
      else None)"

definition plaintext_slice :: "IncomingStreamDecoder \<Rightarrow> bytes \<Rightarrow> nat \<Rightarrow> decode_result" where
  "plaintext_slice d src n =
     map_option (\<lambda>(d', src', copied). (d', src', Inr (Some (Plaintext copied))))
       (create_slice d src n)"

text \<open>
  The tail of \<open>decode_ciphertexts\<close>, from the call of \<open>parse_ciphertexts\<close> on: the candidate is at the
  front of the buffer, after at most a quote.
\<close>

definition decode_at_front ::
  "nom \<Rightarrow> IncomingStreamDecoder \<Rightarrow> bytes \<Rightarrow> bool \<Rightarrow> bytes \<Rightarrow> decode_result" where
  "decode_at_front N d src quote_precedes_cipher potential_ciphertext =
     (case parse_ciphertexts N potential_ciphertext of
        Inr (_, Some c0) \<Rightarrow>
         (let c = set_leading_quote quote_precedes_cipher c0
          in if ct_len c \<le> length src
             then Some (d\<lparr>offset := offset d + ct_len c\<rparr>, drop (ct_len c) src,
                    Inr (Some (CiphertextFrame (offset d, offset d + ct_len c) c)))
             else None)
      | Inr (input, None) \<Rightarrow>
         (if length input < 3 then None
          else case find_next_ciphertext_candidate N (drop 3 input) of
            Inl e \<Rightarrow> Some (d, src, Inl e)
          | Inr (Some (_, pref')) \<Rightarrow> plaintext_slice d src (length pref' + 3)
          | Inr None \<Rightarrow> plaintext_slice d src (length src))
      | Inl (Incomplete (Size known_size)) \<Rightarrow>
          Some (d, src, Inl (StreamIncomplete (Some known_size)))
      | Inl (Incomplete Unknown) \<Rightarrow> Some (d, src, Inl (StreamIncomplete None))
      | Inl Error \<Rightarrow> Some (d, src, Inl NomError)
      | Inl Failure \<Rightarrow> Some (d, src, Inl NomFailure))"

definition decode_ciphertexts :: "nom \<Rightarrow> IncomingStreamDecoder \<Rightarrow> bytes \<Rightarrow> decode_result" where
  "decode_ciphertexts N d src =
    (if src = [] then Some (d, src, Inr None)
     else case find_next_ciphertext_candidate N src of
       Inl e \<Rightarrow> Some (d, src, Inl e)
     | Inr None \<Rightarrow> plaintext_slice d src (length src)
     | Inr (Some (potential_ciphertext, pref)) \<Rightarrow>
        (let prefix_len = length pref;
             quote_precedes_cipher =
               (0 < prefix_len \<and> drop (prefix_len - 1) pref = [CHR 0x22]);
             plaintext_len = (if quote_precedes_cipher then prefix_len - 1 else prefix_len)
         in if 0 < plaintext_len then plaintext_slice d src plaintext_len
            else decode_at_front N d src quote_precedes_cipher potential_ciphertext))"

definition decode :: "nom \<Rightarrow> IncomingStreamDecoder \<Rightarrow> bytes \<Rightarrow> decode_result" where
  "decode N d src =
     (case decode_ciphertexts N d src of
        Some (d', src', Inl (StreamIncomplete _)) \<Rightarrow> Some (d', src', Inr None)
      | r \<Rightarrow> r)"

definition decode_eof :: "nom \<Rightarrow> IncomingStreamDecoder \<Rightarrow> bytes \<Rightarrow> decode_result" where
  "decode_eof N d src =
    (if length src = 0 then Some (d, src, Inr None)
     else case decode_ciphertexts N d src of
       Some (d1, src1, Inl (StreamIncomplete n)) \<Rightarrow>
         (if n = Some 1 then
            (case decode_ciphertexts N d1 (src1 @ [CHR 0x00]) of
               Some (d2, src2, Inl (StreamIncomplete _)) \<Rightarrow>
                 (if src2 = [] then None
                  else Some (d2, drop (length src2 - 1) src2,
                         Inr (Some (Plaintext (take (length src2 - 1) src2)))))
             | r \<Rightarrow> r)
          else plaintext_slice d1 src1 (length src1))
     | r \<Rightarrow> r)"

section \<open>One call\<close>

text \<open>
  A frame at the front of a text: its bytes, where \<open>start\<close> is the position of the text's first
  byte. For a ciphertext the text starts with the ciphertext and the quotes around it that the
  frame records, and the frame's range has the length the code computes.
\<close>

definition frame_size :: "IncomingFrame \<Rightarrow> nat" where
  "frame_size f = (case f of Plaintext p \<Rightarrow> length p | CiphertextFrame _ c \<Rightarrow> ct_len c)"

definition frame_at :: "nat \<Rightarrow> bytes \<Rightarrow> IncomingFrame \<Rightarrow> bool" where
  "frame_at start body f =
    (0 < frame_size f \<and> frame_size f \<le> length body \<and>
     (case f of
       Plaintext p \<Rightarrow> prefix p body
     | CiphertextFrame rng c \<Rightarrow>
         wf_ciphertext c \<and> rng = (start, start + ct_len c) \<and>
         prefix ((if ct_has_leading_quote c then [CHR 0x22] else []) @ ct_encode c
             @ (if ct_has_trailing_quote c then [CHR 0x22] else [])) body))"

text \<open>The call made progress: it produced a frame of the buffer and removed it.\<close>

definition decoded_frame :: "IncomingStreamDecoder \<Rightarrow> bytes \<Rightarrow> decode_result \<Rightarrow> bool" where
  "decoded_frame d src r \<longleftrightarrow>
     (\<exists>f. r = Some (d\<lparr>offset := offset d + frame_size f\<rparr>, drop (frame_size f) src, Inr (Some f))
          \<and> frame_at (offset d) src f)"

lemma decoded_plaintext_slice:
  "0 < n \<Longrightarrow> n \<le> length src \<Longrightarrow> decoded_frame d src (plaintext_slice d src n)"
  by (auto simp: decoded_frame_def plaintext_slice_def create_slice_def frame_at_def frame_size_def
      take_is_prefix intro!: exI [of _ "Plaintext (take n src)"])

lemma ct_len_pos: "0 < ct_len c"
  by (simp add: ct_len_def)

lemma ct_encode_prefix: "prefix ''ev:'' (ct_encode c @ r)"
  by (simp add: ct_encode_def)

lemma ct_encode_not_Nil [simp]: "ct_encode c \<noteq> []"
  by (simp add: ct_encode_def)

lemma drop_last_quote:
  "0 < length p \<and> drop (length p - 1) p = [q] \<longleftrightarrow> p \<noteq> [] \<and> last p = q"
  by (cases p rule: rev_cases) simp_all

lemma ct_encode_quotes [simp]:
  "ct_encode (set_leading_quote b c) = ct_encode c"
  "wf_ciphertext (set_leading_quote b c) = wf_ciphertext c"
  by (simp_all add: set_leading_quote_def ct_encode_def wf_ciphertext_def)

context nom_streaming
begin

lemma candidate_cases:
  obtains pot pref where "find_next_ciphertext_candidate N src = Inr (Some (pot, pref))"
      "src = pref @ pot" "prefix ''ev:'' pot"
  | "find_next_ciphertext_candidate N src = Inr None" "\<not> sublist ''ev:'' src"
proof -
  note defs = find_next_ciphertext_candidate_def find_ciphertext_prefix_def
  show thesis
  proof (rule take_until_cases [of "''ev:''" src])
    fix p r assume "src = p @ r" "prefix ''ev:'' r" "nom_take_until N ''ev:'' src = Inr (r, p)"
    then show thesis by (intro that(1) [of r p]) (simp_all add: defs)
  next
    fix n assume "\<not> sublist ''ev:'' src" "nom_take_until N ''ev:'' src = Inl (Incomplete n)"
    then show thesis by (intro that(2)) (simp_all add: defs)
  qed simp
qed

text \<open>The frame of a ciphertext that the parser recognised at the front of the buffer.\<close>

lemma ciphertext_frame_at:
  assumes "src = (if qp then [CHR 0x22] else []) @ pot" "prefix ''ev:'' pot"
    "parse_ciphertexts N pot = Inr (r, Some c0)"
  defines "c \<equiv> set_leading_quote qp c0"
  shows "frame_at start src (CiphertextFrame (start, start + ct_len c) c)" "ct_len c \<le> length src"
proof -
  from assms(3) context_aware_sound [of pot r c0]
  have pot: "pot = (if ct_has_leading_quote c0 then [CHR 0x22] else []) @ ct_encode c0
      @ (if ct_has_trailing_quote c0 then [CHR 0x22] else []) @ r"
    and wf: "wf_ciphertext c0"
    by (auto simp: parse_ciphertexts_def p_opt_Inr)
  from assms(2) pot have "\<not> ct_has_leading_quote c0" by (auto split: if_splits)
  with pot assms(1) have src: "src = ((if ct_has_leading_quote c then [CHR 0x22] else []) @ ct_encode c
      @ (if ct_has_trailing_quote c then [CHR 0x22] else [])) @ r"
    unfolding c_def by (simp add: set_leading_quote_def ct_encode_def)
  then show len: "ct_len c \<le> length src"
    by (simp add: ct_len_encode is_in_quotes_def)
  from src wf len ct_len_pos [of c]
  show "frame_at start src (CiphertextFrame (start, start + ct_len c) c)"
    by (simp add: frame_at_def frame_size_def c_def prefix_def)
qed

lemma decode_at_front_cases:
  assumes src: "src = (if qp then [CHR 0x22] else []) @ pot" and ev: "prefix ''ev:'' pot"
  shows "decoded_frame d src (decode_at_front N d src qp pot) \<or>
    (\<exists>n. decode_at_front N d src qp pot = Some (d, src, Inl (StreamIncomplete n))
       \<and> parse_ciphertexts N pot =
           Inl (Incomplete (case n of None \<Rightarrow> Unknown | Some k \<Rightarrow> Size k)))"
proof -
  have len3: "3 \<le> length pot" using prefix_length_le [OF ev] by simp
  then have "src \<noteq> []" using src by auto
  note defs = decode_at_front_def Let_def
  show ?thesis
  proof (rule parse_ciphertexts_cases [of pot])
    fix r c assume p: "parse_ciphertexts N pot = Inr (r, Some c)"
    from ciphertext_frame_at [OF src ev p]
    show ?thesis by (simp add: defs p) (auto simp: decoded_frame_def frame_size_def)
  next
    assume p: "parse_ciphertexts N pot = Inr (pot, None)"
    show ?thesis
    proof (rule candidate_cases [of "drop 3 pot"])
      fix pot' pref'
      assume c: "find_next_ciphertext_candidate N (drop 3 pot) = Inr (Some (pot', pref'))"
        and "drop 3 pot = pref' @ pot'"
      then have "length pot - 3 = length pref' + length pot'" by (metis length_append length_drop)
      with src len3 have "length pref' + 3 \<le> length src" by simp
      then have "decoded_frame d src (plaintext_slice d src (length pref' + 3))"
        by (intro decoded_plaintext_slice) simp_all
      with p c len3 show ?thesis by (simp add: defs)
    next
      assume c: "find_next_ciphertext_candidate N (drop 3 pot) = Inr None"
      have "decoded_frame d src (plaintext_slice d src (length src))"
        using \<open>src \<noteq> []\<close> by (intro decoded_plaintext_slice) simp_all
      with p c len3 show ?thesis by (simp add: defs)
    qed
  next
    fix k assume p: "parse_ciphertexts N pot = Inl (Incomplete k)"
    show ?thesis
    proof (cases k)
      case Unknown
      with p show ?thesis by (simp add: defs exI [of _ None])
    next
      case (Size x)
      with p show ?thesis by (intro disjI2 exI [of _ "Some x"]) (simp add: defs)
    qed
  qed
qed

lemma decode_ciphertexts_cases:
  assumes "src \<noteq> []"
  shows "decoded_frame d src (decode_ciphertexts N d src) \<or>
    (\<exists>n pot pref. decode_ciphertexts N d src = Some (d, src, Inl (StreamIncomplete n))
       \<and> src = pref @ pot \<and> pot \<noteq> [] \<and> parse_ciphertexts N pot =
           Inl (Incomplete (case n of None \<Rightarrow> Unknown | Some k \<Rightarrow> Size k)))"
proof (rule candidate_cases [of src])
  assume c: "find_next_ciphertext_candidate N src = Inr None"
  have "decoded_frame d src (plaintext_slice d src (length src))"
    using assms by (intro decoded_plaintext_slice) simp_all
  with c assms show ?thesis by (simp add: decode_ciphertexts_def)
next
  fix pot pref
  assume cand: "find_next_ciphertext_candidate N src = Inr (Some (pot, pref))"
    and src: "src = pref @ pot" and ev: "prefix ''ev:'' pot"
  define qp where "qp \<longleftrightarrow> 0 < length pref \<and> drop (length pref - 1) pref = [CHR 0x22]"
  define n where "n = (if qp then length pref - 1 else length pref)"
  have eq: "decode_ciphertexts N d src =
      (if 0 < n then plaintext_slice d src n else decode_at_front N d src qp pot)"
    unfolding decode_ciphertexts_def cand Let_def n_def qp_def
    using assms by (simp only: if_False sum.case option.case prod.case)
  show ?thesis
  proof (cases "0 < n")
    case True
    have "n \<le> length src" by (auto simp: n_def src)
    with True have "decoded_frame d src (plaintext_slice d src n)"
      by (rule decoded_plaintext_slice)
    with True show ?thesis by (simp add: eq)
  next
    case False
    then have "pref = (if qp then [CHR 0x22] else [])"
      by (cases pref rule: rev_cases) (auto simp: n_def qp_def split: if_splits)
    with decode_at_front_cases [OF _ ev, of src qp d] src
    have "decoded_frame d src (decode_at_front N d src qp pot) \<or>
      (\<exists>n. decode_at_front N d src qp pot = Some (d, src, Inl (StreamIncomplete n))
       \<and> parse_ciphertexts N pot =
           Inl (Incomplete (case n of None \<Rightarrow> Unknown | Some k \<Rightarrow> Size k)))" by simp
    moreover have "pot \<noteq> []" using ev by auto
    ultimately show ?thesis using False src unfolding eq by auto
  qed
qed

text \<open>No parser of the format asks for more input when the input ends with a zero byte.\<close>

end

definition nul_stops :: "'a parser \<Rightarrow> bool" where
  "nul_stops p \<longleftrightarrow>
     (\<forall>j. (\<forall>n. p (j @ [CHR 0x00]) \<noteq> Inl (Incomplete n)) \<and>
          (\<forall>r x. p (j @ [CHR 0x00]) = Inr (r, x) \<longrightarrow> (\<exists>k. r = k @ [CHR 0x00])))"

lemma nul_stops_bind: "nul_stops p \<Longrightarrow> (\<And>x. nul_stops (f x)) \<Longrightarrow> nul_stops (p_bind p f)"
  unfolding nul_stops_def p_bind_def by (fastforce split: sum.splits prod.splits)

lemma nul_stops_return: "nul_stops (\<lambda>r. Inr (r, x))"
  by (simp add: nul_stops_def)

lemma nul_stops_opt: "nul_stops p \<Longrightarrow> nul_stops (p_opt p)"
  unfolding nul_stops_def p_opt_def by (fastforce split: sum.splits nom_err.splits prod.splits)

lemma nul_stops_orelse:
  "nul_stops p \<Longrightarrow> nul_stops q \<Longrightarrow> nul_stops (\<lambda>i. case p i of Inl Error \<Rightarrow> q i | r \<Rightarrow> r)"
  unfolding nul_stops_def by (auto split: sum.splits nom_err.splits)

lemma nul_stops_alt: "\<forall>p \<in> set ps. nul_stops p \<Longrightarrow> nul_stops (p_alt ps)"
proof (induction ps)
  case Nil
  then show ?case by (simp add: nul_stops_def)
next
  case (Cons p ps)
  then have "nul_stops (\<lambda>i. case p i of Inl Error \<Rightarrow> p_alt ps i | r \<Rightarrow> r)"
    by (intro nul_stops_orelse) simp_all
  then show ?case by (simp add: nul_stops_def)
qed

lemma nul_stops_map_res: "nul_stops p \<Longrightarrow> nul_stops (p_map_res p f)"
  unfolding p_map_res_def
  by (rule nul_stops_bind) (auto simp: nul_stops_def split: option.splits)

lemma nul_stops_map: "nul_stops p \<Longrightarrow> nul_stops (p_map p f)"
  unfolding p_map_def by (intro nul_stops_bind nul_stops_return)

lemma nul_stops_pair: "nul_stops p \<Longrightarrow> nul_stops q \<Longrightarrow> nul_stops (p_pair p q)"
  unfolding p_pair_def by (intro nul_stops_bind nul_stops_return)

lemma nul_stops_terminated: "nul_stops p \<Longrightarrow> nul_stops q \<Longrightarrow> nul_stops (p_terminated p q)"
  unfolding p_terminated_def by (intro nul_stops_bind nul_stops_return)

lemma nul_stops_delimited:
  "nul_stops p \<Longrightarrow> nul_stops q \<Longrightarrow> nul_stops r \<Longrightarrow> nul_stops (p_delimited p q r)"
  unfolding p_delimited_def by (intro nul_stops_bind nul_stops_terminated)

lemmas nul_stops_intros =
  nul_stops_opt nul_stops_map_res nul_stops_map nul_stops_pair nul_stops_terminated
  nul_stops_delimited

definition bare :: "Ciphertext \<Rightarrow> Ciphertext" where
  "bare c = c\<lparr>ct_has_leading_quote := False, ct_has_trailing_quote := False\<rparr>"

definition quoted :: "Ciphertext \<Rightarrow> Ciphertext" where
  "quoted c = c\<lparr>ct_has_leading_quote := True, ct_has_trailing_quote := True\<rparr>"

lemma bare_quoted_simps [simp]:
  "set_leading_quote False (bare c) = bare c"
  "set_leading_quote True (c\<lparr>ct_has_leading_quote := False, ct_has_trailing_quote := True\<rparr>) = quoted c"
  "ct_len (bare c) = length (ct_encode c)"
  "ct_len (quoted c) = length (ct_encode c) + 2"
  by (simp_all add: ct_len_encode bare_def quoted_def is_in_quotes_def ct_encode_def
      set_leading_quote_def)

text \<open>A quote on one side: before the ciphertext or behind it.\<close>

definition half_quoted :: "bool \<Rightarrow> Ciphertext \<Rightarrow> Ciphertext" where
  "half_quoted before c = c\<lparr>ct_has_leading_quote := before, ct_has_trailing_quote := \<not> before\<rparr>"

lemma half_quoted_eqs:
  "set_leading_quote False (c\<lparr>ct_has_leading_quote := False, ct_has_trailing_quote := True\<rparr>) = half_quoted False c"
  "set_leading_quote True (c\<lparr>ct_has_leading_quote := False, ct_has_trailing_quote := False\<rparr>) = half_quoted True c"
  "ct_len (half_quoted before c) = length (ct_encode c)"
  by (simp_all add: half_quoted_def set_leading_quote_def ct_len_encode is_in_quotes_def ct_encode_def)

lemma ct_encode_ends: "drop (length (ct_encode c)) (q # ct_encode c @ r) = CHR ''$'' # r"
proof -
  obtain x where x: "ct_encode c = x @ ''$''" by (simp add: ct_encode_def)
  show ?thesis unfolding x by simp
qed

lemma append_nul_split:
  "j @ [z] = t @ r \<Longrightarrow> z \<notin> set t \<Longrightarrow> \<exists>k. r = k @ [z]"
  by (cases r rule: rev_cases) (auto simp: append_eq_append_conv2)

context nom_streaming
begin

lemma nul_stops_tag: "CHR 0x00 \<notin> set t \<Longrightarrow> nul_stops (nom_tag N t)"
proof (unfold nul_stops_def, intro allI conjI impI)
  fix j n assume t: "CHR 0x00 \<notin> set t"
  have "\<not> prefix (j @ [CHR 0x00]) t" using t by (auto simp: prefix_def)
  then show "nom_tag N t (j @ [CHR 0x00]) \<noteq> Inl (Incomplete n)"
    by (rule_tac tag_cases [of "j @ [CHR 0x00]" t]) (auto simp: strict_prefix_def)
next
  fix j r x assume "CHR 0x00 \<notin> set t" "nom_tag N t (j @ [CHR 0x00]) = Inr (r, x)"
  then show "\<exists>k. r = k @ [CHR 0x00]" by (auto simp: tag_Inr dest: append_nul_split)
qed

lemma nul_not_base64 [simp]: "\<not> is_base64 CHR 0x00"
  by (simp add: is_base64_def is_ascii_alphanumeric_def)

lemma nul_notin_base64: "list_all is_base64 x \<Longrightarrow> CHR 0x00 \<notin> set x"
  by (auto simp: list_all_iff)

lemma nul_stops_take_while: "nul_stops (nom_take_while N is_base64)"
proof (unfold nul_stops_def, intro allI conjI impI)
  fix j n
  have "\<not> list_all is_base64 (j @ [CHR 0x00])" by simp
  then show "nom_take_while N is_base64 (j @ [CHR 0x00]) \<noteq> Inl (Incomplete n)"
    using split_at_first_bad [of is_base64 "j @ [CHR 0x00]"] take_while_ok by fastforce
next
  fix j r x assume "nom_take_while N is_base64 (j @ [CHR 0x00]) = Inr (r, x)"
  then show "\<exists>k. r = k @ [CHR 0x00]"
    by (auto simp: take_while_Inr dest!: nul_notin_base64 intro: append_nul_split)
qed

lemma nul_stops_take_m_n: "nul_stops (nom_take_while_m_n N m m is_base64)"
proof (unfold nul_stops_def, intro allI conjI impI)
  fix j n
  show "nom_take_while_m_n N m m is_base64 (j @ [CHR 0x00]) \<noteq> Inl (Incomplete n)"
    by (rule take_m_n_cases [where i = "j @ [CHR 0x00]" and m = m and P = is_base64]) auto
next
  fix j r x assume "nom_take_while_m_n N m m is_base64 (j @ [CHR 0x00]) = Inr (r, x)"
  then show "\<exists>k. r = k @ [CHR 0x00]"
    by (auto simp: take_m_n_Inr dest!: nul_notin_base64 intro: append_nul_split)
qed

lemma parse_with_nul: "parse_ciphertexts N (j @ [CHR 0x00]) \<noteq> Inl (Incomplete n)"
proof -
  have "nul_stops (parse_ciphertexts N)"
    unfolding parse_ciphertexts_def context_aware_ciphertext_def ciphertext_def
      ciphertext_fields_def version_def datatype_tag_def token_defs
    by (intro nul_stops_intros nul_stops_alt ballI)
      (auto intro!: nul_stops_tag nul_stops_take_while nul_stops_take_m_n)
  then show ?thesis by (simp add: nul_stops_def)
qed

lemma decode_ciphertexts_nul:
  "decoded_frame d (j @ [CHR 0x00]) (decode_ciphertexts N d (j @ [CHR 0x00]))"
proof -
  have "\<not> (parse_ciphertexts N pot = Inl (Incomplete n))"
    if "j @ [CHR 0x00] = pref @ pot" "pot \<noteq> []" for pref pot n
    using that parse_with_nul by (cases pot rule: rev_cases) auto
  then show ?thesis
    using decode_ciphertexts_cases [of "j @ [CHR 0x00]" d] by blast
qed

lemma decode_cases:
  assumes "src \<noteq> []"
  shows "decoded_frame d src (decode N d src) \<or> decode N d src = Some (d, src, Inr None)"
  using decode_ciphertexts_cases [OF assms, of d]
  by (auto simp: decode_def decoded_frame_def)

lemma decode_Nil [simp]: "decode N d [] = Some (d, [], Inr None)"
  by (simp add: decode_def decode_ciphertexts_def)

lemma decode_eof_Nil [simp]: "decode_eof N d [] = Some (d, [], Inr None)"
  by (simp add: decode_eof_def)

text \<open>
  At the end of the input every call makes progress: on the buffer as it is, or, when the parser
  lacked one byte, on the buffer with one zero byte appended.
\<close>

lemma decode_eof_cases:
  assumes "src \<noteq> []"
  shows "decoded_frame d src (decode_eof N d src) \<or>
    (last src \<noteq> CHR 0x00 \<and> decoded_frame d (src @ [CHR 0x00]) (decode_eof N d src))"
proof -
  from decode_ciphertexts_cases [OF assms, of d] consider
    f where "decode_ciphertexts N d src = Some (d\<lparr>offset := offset d + frame_size f\<rparr>,
        drop (frame_size f) src, Inr (Some f))" "frame_at (offset d) src f"
    | n where "decode_ciphertexts N d src = Some (d, src, Inl (StreamIncomplete n))"
    unfolding decoded_frame_def by blast
  then show ?thesis
  proof cases
    case 1
    with assms show ?thesis by (auto simp: decode_eof_def decoded_frame_def)
  next
    case 2
    have "last src \<noteq> CHR 0x00"
    proof
      assume "last src = CHR 0x00"
      then have "src = butlast src @ [CHR 0x00]" using assms by (metis append_butlast_last_id)
      with decode_ciphertexts_nul [of d "butlast src"] 2 show False
        by (simp add: decoded_frame_def)
    qed
    moreover have "decoded_frame d src (plaintext_slice d src (length src))"
      using assms by (intro decoded_plaintext_slice) simp_all
    then have "n \<noteq> Some 1 \<Longrightarrow> decoded_frame d src (decode_eof N d src)"
      using assms 2 by (simp add: decode_eof_def)
    moreover have "n = Some 1 \<Longrightarrow> decode_eof N d src = decode_ciphertexts N d (src @ [CHR 0x00])"
      using assms 2 decode_ciphertexts_nul [of d src]
      by (auto simp: decode_eof_def decoded_frame_def simp del: drop_append)
    ultimately show ?thesis
      using decode_ciphertexts_nul [of d src] by (cases "n = Some 1") simp_all
  qed
qed

end

section \<open>Runs of a reader\<close>

text \<open>
  The state of a reader: the decoder, its buffer, and as history the bytes fed so far, the frames
  received and whether the input has ended.
\<close>

record stream_state =
  st_dec :: IncomingStreamDecoder
  st_buf :: bytes
  st_fed :: bytes
  st_frames :: "IncomingFrame list"
  st_eof :: bool

definition stream_init :: stream_state where
  "stream_init = \<lparr>st_dec = decoder_default, st_buf = [], st_fed = [], st_frames = [], st_eof = False\<rparr>"

definition receive :: "IncomingFrame option \<Rightarrow> IncomingFrame list \<Rightarrow> IncomingFrame list" where
  "receive f fs = fs @ (case f of None \<Rightarrow> [] | Some x \<Rightarrow> [x])"

inductive stream_step :: "nom \<Rightarrow> stream_state \<Rightarrow> stream_state \<Rightarrow> bool" for N where
  feed [step_intros]: "\<not> st_eof s \<Longrightarrow>
    stream_step N s (s\<lparr>st_buf := st_buf s @ chunk, st_fed := st_fed s @ chunk\<rparr>)"
| close [step_intros]: "stream_step N s (s\<lparr>st_eof := True\<rparr>)"
| call_decode [step_intros]: "decode N (st_dec s) (st_buf s) = Some (d, b, Inr f) \<Longrightarrow>
    stream_step N s (s\<lparr>st_dec := d, st_buf := b, st_frames := receive f (st_frames s)\<rparr>)"
| call_decode_eof [step_intros]: "st_eof s \<Longrightarrow>
    decode_eof N (st_dec s) (st_buf s) = Some (d, b, Inr f) \<Longrightarrow>
    stream_step N s (s\<lparr>st_dec := d, st_buf := b, st_frames := receive f (st_frames s)\<rparr>)"

inductive stream_reachable :: "nom \<Rightarrow> stream_state \<Rightarrow> bool" for N where
  stream_start: "stream_reachable N stream_init"
| stream_next: "stream_reachable N s \<Longrightarrow> stream_step N s t \<Longrightarrow> stream_reachable N t"

text \<open>\<open>tiles start body fs rest\<close>: the frames lie one after the other at the front of the text.\<close>

fun tiles :: "nat \<Rightarrow> bytes \<Rightarrow> IncomingFrame list \<Rightarrow> bytes \<Rightarrow> bool" where
  "tiles start body [] rest \<longleftrightarrow> rest = body"
| "tiles start body (f # fs) rest \<longleftrightarrow>
     frame_at start body f \<and> tiles (start + frame_size f) (drop (frame_size f) body) fs rest"

lemma tiles_snoc:
  "tiles start body fs rest \<Longrightarrow> frame_at (start + sum_list (map frame_size fs)) rest f \<Longrightarrow>
   tiles start body (fs @ [f]) (drop (frame_size f) rest)"
  by (induction fs arbitrary: start body) (auto simp: add.assoc)

lemma frame_at_extend: "frame_at start body f \<Longrightarrow> frame_at start (body @ x) f"
  by (auto simp: frame_at_def split: IncomingFrame.splits intro: prefix_prefix)

lemma tiles_extend: "tiles start body fs rest \<Longrightarrow> tiles start (body @ x) fs (rest @ x)"
proof (induction fs arbitrary: start body)
  case (Cons f fs)
  then have "frame_size f \<le> length body" by (simp add: frame_at_def)
  with Cons show ?case by (auto simp: frame_at_extend)
qed simp

lemma tiles_rest: "tiles start body fs rest \<Longrightarrow> rest = drop (sum_list (map frame_size fs)) body"
proof (induction fs arbitrary: start body)
  case (Cons f fs)
  then have "rest = drop (sum_list (map frame_size fs)) (drop (frame_size f) body)"
    by (meson tiles.simps(2))
  then show ?case by (simp add: add.commute)
qed simp

lemma tiles_size: "tiles start body fs rest \<Longrightarrow> sum_list (map frame_size fs) \<le> length body"
proof (induction fs arbitrary: start body)
  case (Cons f fs)
  from Cons.prems have "frame_size f \<le> length body" by (simp add: frame_at_def)
  moreover have "sum_list (map frame_size fs) \<le> length (drop (frame_size f) body)"
    using Cons.prems by (intro Cons.IH [of "start + frame_size f"]) simp
  ultimately show ?case by simp
qed simp

definition stream_inv :: "stream_state \<Rightarrow> bool" where
  "stream_inv s \<longleftrightarrow>
     (\<exists>nul. (nul = [] \<or> nul = [CHR 0x00] \<and> st_eof s)
        \<and> tiles 0 (st_fed s @ nul) (st_frames s) (st_buf s)
        \<and> offset (st_dec s) = sum_list (map frame_size (st_frames s)))"

lemma stream_inv_init: "stream_inv stream_init"
  by (simp add: stream_inv_def stream_init_def decoder_default_def)

lemma stream_inv_frame:
  assumes "(nul = [] \<or> nul = [CHR 0x00] \<and> st_eof s)"
    "tiles 0 (st_fed s @ nul) (st_frames s) buf"
    "offset (st_dec s) = sum_list (map frame_size (st_frames s))"
    "decoded_frame (st_dec s) buf (Some (d, b, Inr f))"
  shows "stream_inv (s\<lparr>st_dec := d, st_buf := b, st_frames := receive f (st_frames s)\<rparr>)"
proof -
  from assms(4) obtain fr where f: "f = Some fr" "b = drop (frame_size fr) buf"
    "offset d = offset (st_dec s) + frame_size fr" "frame_at (offset (st_dec s)) buf fr"
    unfolding decoded_frame_def by auto
  with tiles_snoc [OF assms(2), of fr] assms(1,3) show ?thesis
    by (auto simp: stream_inv_def receive_def)
qed

text \<open>
  The reader at the end of the input: \<open>n\<close> calls of \<open>decode_eof\<close> that each return a frame. The rank of a buffer bounds their number:
  a zero byte is appended at most once.
\<close>

fun eof_calls :: "nom \<Rightarrow> nat \<Rightarrow> IncomingStreamDecoder \<Rightarrow> bytes \<Rightarrow> (IncomingStreamDecoder \<times> bytes \<times> IncomingFrame list) option" where
  "eof_calls N 0 d src = Some (d, src, [])"
| "eof_calls N (Suc n) d src =
     (case decode_eof N d src of
        Some (d', src', Inr (Some f)) \<Rightarrow> map_option (\<lambda>(d2, src2, fs). (d2, src2, f # fs)) (eof_calls N n d' src')
      | _ \<Rightarrow> None)"

definition eof_rank :: "bytes \<Rightarrow> nat" where
  "eof_rank src = length src + (if src = [] \<or> last src = CHR 0x00 then 0 else 1)"

lemma eof_rank_drop: "0 < k \<Longrightarrow> k \<le> length src \<Longrightarrow> eof_rank (drop k src) < eof_rank src"
  by (auto simp: eof_rank_def last_drop)

lemma eof_rank_nul: "src \<noteq> [] \<Longrightarrow> last src \<noteq> CHR 0x00 \<Longrightarrow> 0 < k \<Longrightarrow> k \<le> length (src @ [CHR 0x00]) \<Longrightarrow>
  eof_rank (drop k (src @ [CHR 0x00])) < eof_rank src"
  by (auto simp: eof_rank_def simp del: drop_append)

context nom_streaming
begin

text \<open>Every call makes progress, and the zero byte is behind what is left from the call that appends it on.\<close>

lemma eof_call_progress:
  assumes "src \<noteq> []"
  obtains f x where "x = [] \<or> x = [CHR 0x00] \<and> last src \<noteq> CHR 0x00"
    "decode_eof N d src = Some (d\<lparr>offset := offset d + frame_size f\<rparr>, drop (frame_size f) (src @ x), Inr (Some f))"
    "frame_at (offset d) (src @ x) f" "eof_rank (drop (frame_size f) (src @ x)) < eof_rank src"
  using decode_eof_cases [OF assms, of d]
proof
  assume "decoded_frame d src (decode_eof N d src)"
  then obtain f where f: "decode_eof N d src = Some (d\<lparr>offset := offset d + frame_size f\<rparr>, drop (frame_size f) src, Inr (Some f))"
    "frame_at (offset d) src f" by (auto simp: decoded_frame_def)
  with that [of "[]" f] show thesis by (simp add: frame_at_def eof_rank_drop)
next
  assume c: "last src \<noteq> CHR 0x00 \<and> decoded_frame d (src @ [CHR 0x00]) (decode_eof N d src)"
  then obtain f where f: "decode_eof N d src = Some (d\<lparr>offset := offset d + frame_size f\<rparr>, drop (frame_size f) (src @ [CHR 0x00]), Inr (Some f))"
    "frame_at (offset d) (src @ [CHR 0x00]) f" by (auto simp: decoded_frame_def)
  then have "eof_rank (drop (frame_size f) (src @ [CHR 0x00])) < eof_rank src"
    using c assms by (intro eof_rank_nul) (simp_all add: frame_at_def)
  with that [of "[CHR 0x00]" f] f c show thesis by simp
qed

lemma tiles_no_room: "tiles start [] fs rest \<Longrightarrow> fs = []"
  by (cases fs) (auto simp: frame_at_def)

lemma eof_calls_drain:
  "\<exists>n d' frames nul. n \<le> eof_rank src \<and> eof_calls N n d src = Some (d', [], frames)
    \<and> (nul = [] \<or> nul = [CHR 0x00] \<and> src \<noteq> [] \<and> last src \<noteq> CHR 0x00) \<and> tiles (offset d) (src @ nul) frames []"
proof (induction "eof_rank src" arbitrary: d src rule: less_induct)
  case less
  show ?case
  proof (cases "src = []")
    case True
    then show ?thesis by (intro exI [of _ 0] exI [of _ d] exI [of _ "[]"]) simp
  next
    case False
    obtain f x where f: "x = [] \<or> x = [CHR 0x00] \<and> last src \<noteq> CHR 0x00"
      "decode_eof N d src = Some (d\<lparr>offset := offset d + frame_size f\<rparr>, drop (frame_size f) (src @ x), Inr (Some f))"
      "frame_at (offset d) (src @ x) f" "eof_rank (drop (frame_size f) (src @ x)) < eof_rank src"
      by (rule eof_call_progress [OF False])
    let ?d = "d\<lparr>offset := offset d + frame_size f\<rparr>" and ?src = "drop (frame_size f) (src @ x)"
    from less.hyps [OF f(4), of ?d] obtain n d' frames nul where n: "n \<le> eof_rank ?src"
      "eof_calls N n ?d ?src = Some (d', [], frames)"
      "nul = [] \<or> nul = [CHR 0x00] \<and> ?src \<noteq> [] \<and> last ?src \<noteq> CHR 0x00" "tiles (offset ?d) (?src @ nul) frames []" by blast
    have last: "?src \<noteq> [] \<Longrightarrow> last ?src = last (src @ x)" by (simp add: last_drop del: drop_append)
    have size: "frame_size f \<le> length (src @ x)" using f(3) by (simp add: frame_at_def)
    then have "frame_at (offset d) (src @ x @ nul) f" "?src @ nul = drop (frame_size f) (src @ x @ nul)"
      using frame_at_extend [OF f(3), of nul] by simp_all
    with n(4) have "tiles (offset d) (src @ x @ nul) (f # frames) []" by simp
    moreover have "x @ nul = [] \<or> x @ nul = [CHR 0x00] \<and> src \<noteq> [] \<and> last src \<noteq> CHR 0x00"
      using f(1) n(3) last False by auto
    moreover have "eof_calls N (Suc n) d src = Some (d', [], f # frames)" using f(2) n(2) by simp
    moreover have "Suc n \<le> eof_rank src" using n(1) f(4) by simp
    ultimately show ?thesis by blast
  qed
qed

lemma stream_inv_eof:
  assumes "stream_inv s" and "st_eof s" and d: "decode_eof N (st_dec s) (st_buf s) = Some (d, b, Inr f)"
  shows "stream_inv (s\<lparr>st_dec := d, st_buf := b, st_frames := receive f (st_frames s)\<rparr>)"
proof (cases "st_buf s = []")
  case True
  with assms show ?thesis by (auto simp: receive_def stream_inv_def)
next
  case ne: False
  from assms(1) obtain nul where nul: "nul = [] \<or> nul = [CHR 0x00] \<and> st_eof s"
    and til: "tiles 0 (st_fed s @ nul) (st_frames s) (st_buf s)"
    and off: "offset (st_dec s) = sum_list (map frame_size (st_frames s))"
    by (auto simp: stream_inv_def)
  from decode_eof_cases [OF ne, of "st_dec s"] d show ?thesis
  proof (elim disjE conjE)
    assume "decoded_frame (st_dec s) (st_buf s) (decode_eof N (st_dec s) (st_buf s))"
    with stream_inv_frame [OF nul til off] d show ?thesis by simp
  next
    assume l: "last (st_buf s) \<noteq> CHR 0x00"
      and fr: "decoded_frame (st_dec s) (st_buf s @ [CHR 0x00]) (decode_eof N (st_dec s) (st_buf s))"
    have "nul = []"
    proof (rule ccontr)
      assume "nul \<noteq> []"
      with nul tiles_rest [OF til] ne have "last (st_buf s) = CHR 0x00"
        by (metis drop_eq_Nil last_drop last_snoc linorder_not_less)
      with l show False by simp
    qed
    with tiles_extend [OF til, of "[CHR 0x00]"]
    have "tiles 0 (st_fed s @ [CHR 0x00]) (st_frames s) (st_buf s @ [CHR 0x00])" by simp
    with stream_inv_frame [of "[CHR 0x00]", OF _ this off] fr assms(2) d show ?thesis by simp
  qed
qed

lemma stream_step_inv:
  assumes "stream_step N s t" "stream_inv s"
  shows "stream_inv t"
proof -
  from assms(2) obtain nul where nul: "nul = [] \<or> nul = [CHR 0x00] \<and> st_eof s"
    and til: "tiles 0 (st_fed s @ nul) (st_frames s) (st_buf s)"
    and off: "offset (st_dec s) = sum_list (map frame_size (st_frames s))"
    by (auto simp: stream_inv_def)
  note same = assms(2) [unfolded stream_inv_def]
  from assms(1) show ?thesis
  proof cases
    case (feed chunk)
    with nul have "nul = []" by simp
    with feed til off tiles_extend [OF til, of chunk] show ?thesis
      by (simp add: stream_inv_def)
  next
    case close
    with nul til off show ?thesis by (auto simp: stream_inv_def)
  next
    case (call_decode d b f)
    show ?thesis
    proof (cases "decoded_frame (st_dec s) (st_buf s) (Some (d, b, Inr f))")
      case True
      with stream_inv_frame [OF nul til off] call_decode(1) show ?thesis by simp
    next
      case False
      with call_decode(2) decode_cases [of "st_buf s" "st_dec s"]
      have "d = st_dec s" "b = st_buf s" "f = None"
        by (cases "st_buf s"; auto)+
      with call_decode(1) assms(2) show ?thesis by (simp add: receive_def)
    qed
  next
    case (call_decode_eof d b f)
    with stream_inv_eof [OF assms(2)] show ?thesis by simp
  qed
qed

lemma stream_reachable_inv: "stream_reachable N s \<Longrightarrow> stream_inv s"
  by (induction rule: stream_reachable.induct) (auto intro: stream_inv_init stream_step_inv)

lemma candidate_here:
  "prefix ''ev:'' pot \<Longrightarrow> \<forall>k < length p. \<not> prefix ''ev:'' (drop k (p @ pot)) \<Longrightarrow>
   find_next_ciphertext_candidate N (p @ pot) = Inr (Some (pot, p))"
  using take_until_ok [of "''ev:''" pot p]
  by (simp add: find_next_ciphertext_candidate_def find_ciphertext_prefix_def)

lemma candidate_none:
  "\<not> sublist ''ev:'' src \<Longrightarrow> find_next_ciphertext_candidate N src = Inr None"
proof (rule candidate_cases [of src])
  fix pot pref assume "\<not> sublist ''ev:'' src" "src = pref @ pot" "prefix ''ev:'' pot"
  then show ?thesis by (auto simp: sublist_def prefix_def)
qed

lemma decode_no_candidate:
  assumes "src \<noteq> []" "\<not> sublist ''ev:'' src"
  shows "decode N d src = Some (d\<lparr>offset := offset d + length src\<rparr>, [], Inr (Some (Plaintext src)))"
    "decode_eof N d src = Some (d\<lparr>offset := offset d + length src\<rparr>, [], Inr (Some (Plaintext src)))"
  using assms candidate_none [OF assms(2)]
  by (simp_all add: decode_def decode_eof_def decode_ciphertexts_def plaintext_slice_def
      create_slice_def)

lemma decode_before_ciphertext:
  assumes "p \<noteq> []" "last p \<noteq> CHR 0x22" "prefix ''ev:'' pot"
    "\<forall>k < length p. \<not> prefix ''ev:'' (drop k (p @ pot))"
  shows "decode N d (p @ pot) =
     Some (d\<lparr>offset := offset d + length p\<rparr>, pot, Inr (Some (Plaintext p)))"
proof -
  have "\<not> (0 < length p \<and> drop (length p - 1) p = [CHR 0x22])"
    using assms(1,2) drop_last_quote [of p "CHR 0x22"] by blast
  then have "decode_ciphertexts N d (p @ pot) = plaintext_slice d (p @ pot) (length p)"
    using assms(1) candidate_here [OF assms(3,4)]
    by (auto simp: decode_ciphertexts_def Let_def)
  then show ?thesis by (simp add: decode_def plaintext_slice_def create_slice_def)
qed

text \<open>A quote directly before the ciphertext stays in the buffer.\<close>

lemma decode_before_quoted:
  assumes "p \<noteq> []" "q \<in> {[], [CHR 0x22]}" "q = [] \<longrightarrow> last p \<noteq> CHR 0x22" "prefix ''ev:'' pot"
    "\<forall>k < length (p @ q). \<not> prefix ''ev:'' (drop k (p @ q @ pot))"
  shows "decode N d (p @ q @ pot) = Some (d\<lparr>offset := offset d + length p\<rparr>, q @ pot, Inr (Some (Plaintext p)))"
proof (cases "q = []")
  case True
  with decode_before_ciphertext [OF assms(1) _ assms(4), of d] assms(3,5) show ?thesis by simp
next
  case False
  with assms(2) have q: "q = [CHR 0x22]" by simp
  have "find_next_ciphertext_candidate N ((p @ q) @ pot) = Inr (Some (pot, p @ q))"
    using candidate_here [OF assms(4), of "p @ q"] assms(5) by simp
  then have "decode_ciphertexts N d (p @ q @ pot) = plaintext_slice d (p @ q @ pot) (length p)"
    using assms(1) by (simp add: decode_ciphertexts_def Let_def q)
  then show ?thesis by (simp add: decode_def plaintext_slice_def create_slice_def)
qed

lemma decode_ciphertexts_front:
  "prefix ''ev:'' pot \<Longrightarrow> decode_ciphertexts N d pot = decode_at_front N d pot False pot"
  using candidate_here [of pot "[]"] by (auto simp: decode_ciphertexts_def Let_def)

lemma decode_ciphertexts_front_quote:
  assumes "prefix ''ev:'' pot"
  shows "decode_ciphertexts N d (CHR 0x22 # pot) = decode_at_front N d (CHR 0x22 # pot) True pot"
  using candidate_here [OF assms, of "[CHR 0x22]"]
  by (auto simp: decode_ciphertexts_def Let_def)

lemma decode_bare_ciphertext:
  assumes "wf_ciphertext c" "b \<noteq> CHR 0x22"
  shows "decode_ciphertexts N d (ct_encode c @ b # r) =
    Some (d\<lparr>offset := offset d + length (ct_encode c)\<rparr>, b # r,
      Inr (Some (CiphertextFrame (offset d, offset d + length (ct_encode c)) (bare c))))"
  using context_aware_complete(2) [OF assms, of r]
  by (simp add: decode_ciphertexts_front ct_encode_prefix decode_at_front_def Let_def
      parse_ciphertexts_def bare_def [symmetric])

lemma decode_quoted_ciphertext:
  assumes "wf_ciphertext c"
  shows "decode_ciphertexts N d (CHR 0x22 # ct_encode c @ CHR 0x22 # r) =
    Some (d\<lparr>offset := offset d + (length (ct_encode c) + 2)\<rparr>, r,
      Inr (Some (CiphertextFrame (offset d, offset d + (length (ct_encode c) + 2)) (quoted c))))"
  using context_aware_complete(1) [OF assms, of "CHR 0x20" r]
  by (simp add: decode_ciphertexts_front_quote ct_encode_prefix decode_at_front_def Let_def
      parse_ciphertexts_def)

text \<open>A quote behind the ciphertext only is left in the buffer; a quote before it only shifts the range.\<close>

lemma decode_trailing_quote:
  assumes "wf_ciphertext c"
  shows "decode_ciphertexts N d (ct_encode c @ CHR 0x22 # r) =
    Some (d\<lparr>offset := offset d + length (ct_encode c)\<rparr>, CHR 0x22 # r,
      Inr (Some (CiphertextFrame (offset d, offset d + length (ct_encode c)) (half_quoted False c))))"
  using context_aware_complete(1) [OF assms, of "CHR 0x20" r]
  by (simp add: decode_ciphertexts_front ct_encode_prefix decode_at_front_def Let_def parse_ciphertexts_def
      half_quoted_eqs)

lemma decode_leading_quote:
  assumes "wf_ciphertext c" "b \<noteq> CHR 0x22"
  shows "decode_ciphertexts N d (CHR 0x22 # ct_encode c @ b # r) =
    Some (d\<lparr>offset := offset d + length (ct_encode c)\<rparr>, CHR ''$'' # b # r,
      Inr (Some (CiphertextFrame (offset d, offset d + length (ct_encode c)) (half_quoted True c))))"
  using context_aware_complete(2) [OF assms, of r]
  by (simp add: decode_ciphertexts_front_quote ct_encode_prefix decode_at_front_def Let_def parse_ciphertexts_def
      half_quoted_eqs ct_encode_ends)

lemma decode_eof_bare_ciphertext:
  assumes "wf_ciphertext c"
  shows "decode_eof N d (ct_encode c) =
    Some (d\<lparr>offset := offset d + length (ct_encode c)\<rparr>, [CHR 0x00],
      Inr (Some (CiphertextFrame (offset d, offset d + length (ct_encode c)) (bare c))))"
proof -
  have "decode_ciphertexts N d (ct_encode c) = Some (d, ct_encode c, Inl (StreamIncomplete (Some 1)))"
    using context_aware_complete(3) [OF assms, of "CHR 0x20"] ct_encode_prefix [of c "[]"]
    by (simp add: decode_ciphertexts_front decode_at_front_def parse_ciphertexts_def)
  then show ?thesis
    using decode_bare_ciphertext [OF assms, of "CHR 0x00" d "[]"] by (simp add: decode_eof_def)
qed

end

section \<open>Properties\<close>

text \<open>
  (C24) The decoder never panics and never reports an error, for every decoder state and every buffer: \<open>decode\<close> asks for more
  input and leaves everything as it is, or takes a frame off the front of the buffer; at the end of the input
  \<open>decode_eof\<close> takes a frame off the front of the buffer, or of the buffer with one zero byte behind it, unless the
  buffer is empty. No slice is taken beyond the buffer and the errors \<open>NomError\<close> and \<open>NomFailure\<close> cannot occur.
\<close>

theorem decode_never_panics:
  assumes "nom_streaming N"
  shows "(decode N d src = Some (d, src, Inr None) \<or> decoded_frame d src (decode N d src)) \<and>
    (if src = [] then decode_eof N d src = Some (d, [], Inr None)
     else decoded_frame d src (decode_eof N d src) \<or> decoded_frame d (src @ [CHR 0x00]) (decode_eof N d src))"
proof (cases "src = []")
  case True
  then show ?thesis
    using nom_streaming.decode_Nil [OF assms] nom_streaming.decode_eof_Nil [OF assms] by simp
next
  case False
  show ?thesis
    using nom_streaming.decode_cases [OF assms False, of d]
      nom_streaming.decode_eof_cases [OF assms False, of d] False
    by auto
qed

theorem decode_never_panics_witness:
  "nom_streaming nom_ref \<and>
   (decoded_frame decoder_default ''ev:'' (decode_eof nom_ref decoder_default ''ev:'')
    \<or> decoded_frame decoder_default (''ev:'' @ [CHR 0x00]) (decode_eof nom_ref decoder_default ''ev:''))"
  using nom_impl.nom_streaming_axioms
    decode_never_panics [OF nom_impl.nom_streaming_axioms, of decoder_default "''ev:''"]
  by auto

text \<open>
  (C25) The reader's loop at the end of the input ends: called again and again, \<open>decode_eof\<close> hands out a frame each time until,
  after at most one call more than the buffer has bytes, the buffer is empty and the next call returns no frame. The frames
  lie one behind the other in what was left of the input, with at most one zero byte behind it.
\<close>

theorem eof_loop_ends:
  assumes "nom_streaming N"
  shows "\<exists>n d' frames nul. n \<le> length src + 1 \<and> eof_calls N n d src = Some (d', [], frames)
    \<and> decode_eof N d' [] = Some (d', [], Inr None)
    \<and> nul \<in> {[], [CHR 0x00]} \<and> tiles (offset d) (src @ nul) frames []"
proof -
  obtain n d' frames nul where n: "n \<le> eof_rank src" "eof_calls N n d src = Some (d', [], frames)"
    "nul = [] \<or> nul = [CHR 0x00] \<and> src \<noteq> [] \<and> last src \<noteq> CHR 0x00" "tiles (offset d) (src @ nul) frames []"
    using nom_streaming.eof_calls_drain [OF assms, of src d] by blast
  moreover have "n \<le> length src + 1" using n(1) by (simp add: eof_rank_def split: if_splits)
  moreover have "nul \<in> {[], [CHR 0x00]}" using n(3) by blast
  ultimately show ?thesis using nom_streaming.decode_eof_Nil [OF assms] by blast
qed

theorem eof_loop_ends_witness:
  "\<exists>n d' frames nul. n \<le> length ''ev:'' + 1 \<and> eof_calls nom_ref n decoder_default ''ev:'' = Some (d', [], frames)
    \<and> decode_eof nom_ref d' [] = Some (d', [], Inr None)
    \<and> nul \<in> {[], [CHR 0x00]} \<and> tiles (offset decoder_default) (''ev:'' @ nul) frames []"
  by (rule eof_loop_ends [OF nom_impl.nom_streaming_axioms])

text \<open>
  (C3) The frames a reader receives partition what it fed, for every chunking of the input and every
  schedule of calls: each frame is not empty, lies directly behind the frame before it, the bytes not
  yet framed are in the buffer, and the decoder's offset is the number of bytes framed. At most one
  byte is not the reader's own, a zero byte behind the end of the input.
\<close>

theorem stream_frames_partition:
  assumes "nom_streaming N" and "stream_reachable N s"
  shows "\<exists>nul. (nul = [] \<or> nul = [CHR 0x00] \<and> st_eof s)
    \<and> tiles 0 (st_fed s @ nul) (st_frames s) (st_buf s)
    \<and> st_buf s = drop (offset (st_dec s)) (st_fed s @ nul)
    \<and> offset (st_dec s) \<le> length (st_fed s @ nul)"
  using nom_streaming.stream_reachable_inv [OF assms] tiles_rest tiles_size
  unfolding stream_inv_def by metis

theorem stream_frames_partition_witness:
  "\<exists>s. stream_reachable nom_ref s \<and> st_fed s = ''ab'' \<and> st_frames s = [Plaintext ''ab'']
     \<and> st_buf s = drop (offset (st_dec s)) ''ab''"
proof -
  let ?s1 = "stream_init\<lparr>st_buf := st_buf stream_init @ ''ab'', st_fed := st_fed stream_init @ ''ab''\<rparr>"
  have r1: "stream_reachable nom_ref ?s1"
    by (rule stream_next [OF stream_start feed]) (simp add: stream_init_def)
  have "decode nom_ref (st_dec ?s1) (st_buf ?s1) = Some (\<lparr>offset = 2\<rparr>, [], Inr (Some (Plaintext ''ab'')))"
    by (simp add: stream_init_def decoder_default_def decode_def decode_ciphertexts_def
        find_next_ciphertext_candidate_def find_ciphertext_prefix_def plaintext_slice_def
        create_slice_def)
  from stream_next [OF r1 call_decode [OF this]] obtain s2 where
    s2: "stream_reachable nom_ref s2" "st_fed s2 = ''ab''" "st_frames s2 = [Plaintext ''ab'']"
      "st_buf s2 = []" "offset (st_dec s2) = 2"
    by (auto simp: stream_init_def receive_def)
  from stream_frames_partition [OF nom_impl.nom_streaming_axioms s2(1)] s2 show ?thesis by auto
qed



section \<open>Where frames and text disagree\<close>

text \<open>
  A ciphertext at the very end of the input leaves the zero byte that \<open>decode_eof\<close> appended in the
  buffer, and the next call hands it out as a plaintext frame that was never in the input.
\<close>

theorem decode_eof_emits_zero_byte:
  assumes "nom_streaming N" and "wf_ciphertext c"
  shows "\<exists>d' fr. decode_eof N d (ct_encode c) = Some (d', [CHR 0x00], Inr (Some fr)) \<and>
    decode_eof N d' [CHR 0x00] =
      Some (d'\<lparr>offset := offset d' + 1\<rparr>, [], Inr (Some (Plaintext [CHR 0x00])))"
  using nom_streaming.decode_eof_bare_ciphertext [OF assms, of d]
    nom_streaming.decode_no_candidate(2) [OF assms(1), of "[CHR 0x00]"]
  by (simp add: sublist_def Cons_eq_append_conv)

text \<open>
  The prefix is searched in the buffer only: when the input is split inside \<open>ev:\<close>, the decoder hands
  out both halves as plaintext, and the ciphertext it would find in one piece is lost.
\<close>

theorem split_prefix_hides_ciphertext:
  assumes "nom_streaming N" and "wf_ciphertext c" and "\<not> sublist ''ev:'' (drop 2 (ct_encode c))"
  shows "\<exists>d1 d2. decode N decoder_default (take 2 (ct_encode c)) =
        Some (d1, [], Inr (Some (Plaintext ''ev''))) \<and>
      decode_eof N d1 (drop 2 (ct_encode c)) =
        Some (d2, [], Inr (Some (Plaintext (drop 2 (ct_encode c))))) \<and>
      decode_eof N decoder_default (ct_encode c) =
        Some (d2, [CHR 0x00], Inr (Some (CiphertextFrame (0, length (ct_encode c)) (bare c))))"
proof -
  have t: "take 2 (ct_encode c) = ''ev''" "2 \<le> length (ct_encode c)" "drop 2 (ct_encode c) \<noteq> []"
    by (simp_all add: ct_encode_def)
  have n: "\<not> sublist ''ev:'' ''ev''" by (simp add: sublist_def Cons_eq_append_conv)
  show ?thesis
    using nom_streaming.decode_no_candidate(1) [OF assms(1) _ n, of decoder_default]
      nom_streaming.decode_no_candidate(2) [OF assms(1) t(3) assms(3), of "\<lparr>offset = Suc (Suc 0)\<rparr>"]
      nom_streaming.decode_eof_bare_ciphertext [OF assms(1,2), of decoder_default] t
    by (simp add: decoder_default_def Suc_diff_Suc)
qed

end
