(* ===== verification/Decrypt_Layer.thy ===== *)
theory Decrypt_Layer
  imports Stream_Decoder Http_Types
begin

text \<open>
  Automatic decryption of requests, \<open>data-plane/src/server/layers/decrypt.rs\<close>, with the request and
  response types of \<open>data-plane/src/e3client/mod.rs\<close> it exchanges with E3. JSON values are those of
  \<open>serde_json\<close>: a type parameter with the two conversions the layer uses. The E3 client, the regular
  expression for header values and the wrapped service are parameters too.
\<close>

section \<open>What is sent to E3\<close>

record 'v EncryptedDataEntry =
  ed_range :: Range
  ed_value :: 'v

record EncryptedHeader =
  eh_key :: string
  eh_value :: string

record 'v AutoDecryptRequest =
  body_data :: "'v EncryptedDataEntry list"
  header_data :: "EncryptedHeader list"

datatype ClientError =
    ClientIoError
  | HyperError
  | SerdeError
  | FailedRequest nat
  | General string

datatype DecryptError =
    FailedToSerializeRequest
  | CiphertextStreamError IncomingStreamError
  | E3Error ClientError

definition decrypt_to_status :: "DecryptError \<Rightarrow> nat" where
  "decrypt_to_status e = (case e of E3Error (FailedRequest code) \<Rightarrow> code | _ \<Rightarrow> 500)"

section \<open>Ciphertexts out of a payload\<close>

text \<open>
  \<open>extract_ciphertexts_from_payload\<close>: the loop over the items of the reader, which are given.
  \<open>None\<close> is the panic of \<open>to_string\<close>.
\<close>

fun extract_ciphertexts ::
  "(string \<Rightarrow> 'v) \<Rightarrow> (IncomingStreamError, IncomingFrame) result list \<Rightarrow>
   (DecryptError, 'v EncryptedDataEntry list) result option" where
  "extract_ciphertexts value_from [] = Some (Inr [])"
| "extract_ciphertexts value_from (Inl e # items) = Some (Inl (CiphertextStreamError e))"
| "extract_ciphertexts value_from (Inr (Plaintext _) # items) = extract_ciphertexts value_from items"
| "extract_ciphertexts value_from (Inr (CiphertextFrame rng c) # items) =
     (case ciphertext_display c of
        None \<Rightarrow> None
      | Some s \<Rightarrow>
          map_option (map_sum id (\<lambda>rest. \<lparr>ed_range = rng, ed_value = value_from s\<rparr> # rest))
            (extract_ciphertexts value_from items))"

text \<open>\<open>Vec::splice\<close>: the replaced vector, \<open>None\<close> when the range is not one of the vector.\<close>

definition vec_splice :: "bytes \<Rightarrow> Range \<Rightarrow> bytes \<Rightarrow> bytes option" where
  "vec_splice body rng value =
     (if fst rng \<le> snd rng \<and> snd rng \<le> length body
      then Some (take (fst rng) body @ value @ drop (snd rng) body) else None)"

definition inject_entry ::
  "('v \<Rightarrow> bytes option) \<Rightarrow> 'v EncryptedDataEntry \<Rightarrow> bytes option \<Rightarrow> bytes option" where
  "inject_entry to_vec e body =
     (case body of
        None \<Rightarrow> None
      | Some b \<Rightarrow>
         (case to_vec (ed_value e) of
            Some value \<Rightarrow> vec_splice b (ed_range e) value
          | None \<Rightarrow> Some b))"

text \<open>The entries are visited from the last to the first.\<close>

definition inject_decrypted_values_into_request_vec ::
  "('v \<Rightarrow> bytes option) \<Rightarrow> 'v EncryptedDataEntry list \<Rightarrow> bytes \<Rightarrow> bytes option" where
  "inject_decrypted_values_into_request_vec to_vec es request_bytes =
     fold (inject_entry to_vec) (rev es) (Some request_bytes)"

section \<open>Substitution from left to right\<close>

text \<open>
  The reference: walk through the body once, copying what lies between the ranges and replacing each
  range (it is copied too when its value cannot be serialised).
\<close>

fun ascending :: "nat \<Rightarrow> Range list \<Rightarrow> nat \<Rightarrow> bool" where
  "ascending lo [] hi \<longleftrightarrow> lo \<le> hi"
| "ascending lo ((a, b) # rs) hi \<longleftrightarrow> lo \<le> a \<and> a \<le> b \<and> ascending b rs hi"

fun substitute :: "('v \<Rightarrow> bytes option) \<Rightarrow> nat \<Rightarrow> 'v EncryptedDataEntry list \<Rightarrow> bytes \<Rightarrow> bytes" where
  "substitute to_vec pos [] body = drop pos body"
| "substitute to_vec pos (e # es) body =
     take (fst (ed_range e) - pos) (drop pos body)
     @ (case to_vec (ed_value e) of
          Some value \<Rightarrow> value
        | None \<Rightarrow> take (snd (ed_range e) - fst (ed_range e)) (drop (fst (ed_range e)) body))
     @ substitute to_vec (snd (ed_range e)) es body"

lemma inject_entry_Some [simp]:
  "inject_entry to_vec e (Some b) =
     (case to_vec (ed_value e) of Some value \<Rightarrow> vec_splice b (ed_range e) value | None \<Rightarrow> Some b)"
  by (simp add: inject_entry_def split: option.split)

lemma ascending_le: "ascending lo rs hi \<Longrightarrow> lo \<le> hi"
  by (induction lo rs hi rule: ascending.induct) auto

lemma fold_inject_substitute:
  "ascending lo (map ed_range es) (length body) \<Longrightarrow>
   fold (inject_entry to_vec) (rev es) (Some body) = Some (take lo body @ substitute to_vec lo es body)"
proof (induction es arbitrary: lo)
  case (Cons e es)
  obtain a b where r: "ed_range e = (a, b)" by fastforce
  with Cons.prems have ab: "lo \<le> a" "a \<le> b" and asc: "ascending b (map ed_range es) (length body)"
    by simp_all
  from ascending_le [OF asc] have "b \<le> length body" .
  have "fold (inject_entry to_vec) (rev es) (Some body) = Some (take b body @ substitute to_vec b es body)"
    using asc by (rule Cons.IH)
  moreover have "take a (take b body) = take lo body @ take (a - lo) (drop lo body)"
    using ab by (metis le_add_diff_inverse min.absorb1 take_add take_take)
  moreover have "take b body = take lo body @ take (a - lo) (drop lo body) @ take (b - a) (drop a body)"
    using ab by (metis append_assoc le_add_diff_inverse take_add)
  ultimately show ?case
    using r ab \<open>b \<le> length body\<close> by (cases "to_vec (ed_value e)") (simp_all add: vec_splice_def)
qed simp

lemma inject_substitute:
  "ascending 0 (map ed_range es) (length body) \<Longrightarrow>
   inject_decrypted_values_into_request_vec to_vec es body = Some (substitute to_vec 0 es body)"
  using fold_inject_substitute [of 0 es body to_vec]
  by (simp add: inject_decrypted_values_into_request_vec_def)

section \<open>From the reader's frames to the entries\<close>

fun frame_ranges :: "IncomingFrame list \<Rightarrow> Range list" where
  "frame_ranges [] = []"
| "frame_ranges (Plaintext _ # fs) = frame_ranges fs"
| "frame_ranges (CiphertextFrame rng c # fs) = rng # frame_ranges fs"

fun frame_texts :: "IncomingFrame list \<Rightarrow> string option list" where
  "frame_texts [] = []"
| "frame_texts (Plaintext _ # fs) = frame_texts fs"
| "frame_texts (CiphertextFrame rng c # fs) = ciphertext_display c # frame_texts fs"

lemma ascending_mono: "ascending lo rs hi \<Longrightarrow> lo' \<le> lo \<Longrightarrow> ascending lo' rs hi"
  by (cases rs) auto

lemma nul_notin_encode:
  assumes "wf_ciphertext c"
  shows "CHR 0x00 \<notin> set (ct_encode c)"
proof -
  have "CHR 0x00 \<notin> set (version_display v)" "CHR 0x00 \<notin> set (datatype_keyword t)" for v t
    using nom_impl.nul_notin_base64 list_all_base64_version list_all_base64_keyword by blast+
  moreover have "CHR 0x00 \<notin> set (ct_iv c)" "CHR 0x00 \<notin> set (ct_public_key c)"
    "CHR 0x00 \<notin> set (ct_encrypted_value c)"
    using assms nom_impl.nul_notin_base64 by (auto simp: wf_ciphertext_def)
  ultimately show ?thesis
    by (auto simp: ct_encode_def enc_debug_def enc_version_def enc_datatype_def split: option.splits)
qed

lemma prefix_before: "z \<notin> set t \<Longrightarrow> prefix t (b @ [z]) \<Longrightarrow> prefix t b"
  by (auto simp: prefix_snoc)

lemma ciphertext_frame_in_body:
  assumes "frame_at start (body @ nul) (CiphertextFrame rng c)" "nul = [] \<or> nul = [CHR 0x00]"
  shows "ct_len c \<le> length body"
proof -
  let ?t = "(if ct_has_leading_quote c then [CHR 0x22] else []) @ ct_encode c
      @ (if ct_has_trailing_quote c then [CHR 0x22] else [])"
  from assms(1) have "prefix ?t (body @ nul)" "wf_ciphertext c" by (simp_all add: frame_at_def)
  moreover from nul_notin_encode [OF this(2)] have "CHR 0x00 \<notin> set ?t" by simp
  ultimately have "prefix ?t body" using assms(2) prefix_before by (metis append_Nil2)
  moreover have "ct_len c \<le> length ?t" by (simp add: ct_len_encode is_in_quotes_def)
  ultimately show ?thesis using prefix_length_le by fastforce
qed

lemma tiles_Nil: "tiles start [] fs rest \<Longrightarrow> fs = []"
  by (cases fs) (auto simp: frame_at_def)

text \<open>The ranges are ascending, do not overlap and end inside the body, zero byte or not.\<close>

lemma tiles_ascending:
  assumes "nul = [] \<or> nul = [CHR 0x00]"
  shows "tiles start (body @ nul) fs rest \<Longrightarrow>
    ascending start (frame_ranges fs) (start + length body)"
proof (induction fs arbitrary: start body)
  case (Cons f fs)
  then have f: "frame_at start (body @ nul) f"
    and t: "tiles (start + frame_size f) (drop (frame_size f) (body @ nul)) fs rest" by simp_all
  show ?case
  proof (cases "frame_size f \<le> length body")
    case True
    with t Cons.IH [of "start + frame_size f" "drop (frame_size f) body"]
    have "ascending (start + frame_size f) (frame_ranges fs) (start + length body)" by simp
    with f show ?thesis
      by (cases f) (auto simp: frame_at_def frame_size_def intro: ascending_mono)
  next
    case False
    then obtain p where p: "f = Plaintext p"
      using ciphertext_frame_in_body [OF _ assms] f by (cases f) (auto simp: frame_size_def)
    from f False assms have "drop (frame_size f) (body @ nul) = []"
      by (auto simp: frame_at_def)
    with t p show ?thesis using tiles_Nil by fastforce
  qed
qed simp

lemma tiles_wf: "tiles start body fs rest \<Longrightarrow> CiphertextFrame rng c \<in> set fs \<Longrightarrow> wf_ciphertext c"
  by (induction fs arbitrary: start body) (auto simp: frame_at_def)

lemma ciphertext_display_total: "wf_ciphertext c \<Longrightarrow> ciphertext_display c \<noteq> None"
  by (simp add: ciphertext_display_wf)

lemma extract_frames:
  "(\<And>rng c. CiphertextFrame rng c \<in> set fs \<Longrightarrow> wf_ciphertext c) \<Longrightarrow>
   \<exists>es. extract_ciphertexts value_from (map Inr fs) = Some (Inr es)
      \<and> map ed_range es = frame_ranges fs
      \<and> map (\<lambda>e. Some (ed_value e)) es = map (map_option value_from) (frame_texts fs)"
proof (induction fs)
  case (Cons f fs)
  have "\<exists>es. extract_ciphertexts value_from (map Inr fs) = Some (Inr es)
      \<and> map ed_range es = frame_ranges fs
      \<and> map (\<lambda>e. Some (ed_value e)) es = map (map_option value_from) (frame_texts fs)"
  proof (rule Cons.IH)
    fix rng c assume "CiphertextFrame rng c \<in> set fs"
    then show "wf_ciphertext c" by (intro Cons.prems [of rng]) simp
  qed
  then obtain es where es: "extract_ciphertexts value_from (map Inr fs) = Some (Inr es)"
    "map ed_range es = frame_ranges fs"
    "map (\<lambda>e. Some (ed_value e)) es = map (map_option value_from) (frame_texts fs)" by blast
  show ?case
  proof (cases f)
    case (CiphertextFrame rng c)
    have "wf_ciphertext c" using Cons.prems [of rng c] CiphertextFrame by simp
    from ciphertext_display_wf [OF this] obtain s where "ciphertext_display c = Some s" by blast
    with CiphertextFrame es show ?thesis by simp
  qed (use es in simp)
qed simp

section \<open>The service\<close>

text \<open>
  What the service relies on: the header operations, the match against the ciphertext pattern for
  header values, the JSON conversions, the items the reader yields for a payload, E3
  (\<open>decrypt_with_retries(2, \<cdot>)\<close>), the JSON body of an error and the setter of the transaction context.
\<close>

record ('h, 'v, 'x) decrypt_env =
  de_headers :: "'h headers_api"
  de_is_match :: "string \<Rightarrow> bool"
  de_value_from :: "string \<Rightarrow> 'v"
  de_to_vec :: "'v \<Rightarrow> bytes option"
  de_reader :: "bytes \<Rightarrow> (IncomingStreamError, IncomingFrame) result list"
  de_decrypt :: "'v AutoDecryptRequest \<Rightarrow> (ClientError, 'v AutoDecryptRequest) result"
  de_error_body :: "DecryptError \<Rightarrow> bytes"
  de_n_decrypted_fields :: "nat option \<Rightarrow> 'x \<Rightarrow> 'x"

text \<open>\<open>From<DecryptError> for Response<Body>\<close>, with the context put into the extensions.\<close>

definition decrypt_error_response ::
  "('h, 'v, 'x) decrypt_env \<Rightarrow> 'x \<Rightarrow> DecryptError \<Rightarrow> ('h, 'x) http_response" where
  "decrypt_error_response env ctx err =
     (let body = de_error_body env err; H = de_headers env
      in \<lparr>rs_version = ''HTTP/1.1'', rs_status = decrypt_to_status err,
          rs_headers = hm_append H ''content-length'' (show_nat (length body)) (hm_empty H),
          rs_body = Some body, rs_context = Some ctx\<rparr>)"

definition find_encrypted_headers :: "('h, 'v, 'x) decrypt_env \<Rightarrow> 'h \<Rightarrow> EncryptedHeader list" where
  "find_encrypted_headers env hs =
     List.map_filter
       (\<lambda>(name, val).
          case header_to_str (de_headers env) val of
            None \<Rightarrow> None
          | Some header_val \<Rightarrow>
             (if de_is_match env header_val
              then map_option (\<lambda>n. \<lparr>eh_key = n, eh_value = header_val\<rparr>) name
              else None))
       (hm_into_iter (de_headers env) hs)"

definition insert_decrypted_headers ::
  "'h headers_api \<Rightarrow> EncryptedHeader list \<Rightarrow> 'h \<Rightarrow> 'h" where
  "insert_decrypted_headers H decrypted =
     fold (\<lambda>header hs.
             case (header_name H (eh_key header), header_value H (eh_value header)) of
               (Some key, Some value) \<Rightarrow> hm_insert H key value hs
             | _ \<Rightarrow> hs) decrypted"

definition decrypt_call ::
  "('h, 'v, 'x) decrypt_env \<Rightarrow>
   (('h, 'x) http_request \<Rightarrow> ('h, 'x) http_response outcome) \<Rightarrow>
   ('h, 'x) http_request \<Rightarrow> ('h, 'x) http_response outcome" where
  "decrypt_call env inner req =
    (case rq_context req of
       None \<Rightarrow> Panic
     | Some ctx \<Rightarrow>
      (let encrypted_headers = find_encrypted_headers env (rq_headers req)
       in case rq_body req of
         None \<Rightarrow> Answers (decrypt_error_response env ctx FailedToSerializeRequest)
       | Some request_bytes \<Rightarrow>
        (let H = de_headers env;
             headers = hm_remove H ''transfer-encoding'' (rq_headers req)
         in case extract_ciphertexts (de_value_from env) (de_reader env request_bytes) of
           None \<Rightarrow> Panic
         | Some (Inl e) \<Rightarrow> Answers (decrypt_error_response env ctx e)
         | Some (Inr decryption_payload) \<Rightarrow>
          (let n_decrypts = (if length decryption_payload < 2 ^ 32
                             then Some (length decryption_payload) else None);
               forward = (\<lambda>hs body.
                 inner (req\<lparr>rq_headers := hs, rq_body := Some body,
                   rq_context := Some (de_n_decrypted_fields env n_decrypts ctx)\<rparr>))
           in if decryption_payload \<noteq> [] \<or> encrypted_headers \<noteq> []
              then (case de_decrypt env
                       \<lparr>body_data = decryption_payload, header_data = encrypted_headers\<rparr> of
                  Inl e \<Rightarrow> Answers (decrypt_error_response env ctx (E3Error e))
                | Inr decrypted \<Rightarrow>
                   (case inject_decrypted_values_into_request_vec (de_to_vec env)
                           (body_data decrypted) request_bytes of
                      None \<Rightarrow> Panic
                    | Some body \<Rightarrow>
                        forward
                          (insert_decrypted_headers H (header_data decrypted)
                            (hm_insert H ''content-length'' (show_nat (length body)) headers))
                          body))
              else forward headers request_bytes))))"

section \<open>Properties\<close>

text \<open>
  The reader over a payload: its items are the frames of a run that was fed exactly the payload and
  has drained it.
\<close>

definition reader_run :: "nom \<Rightarrow> bytes \<Rightarrow> IncomingFrame list \<Rightarrow> bool" where
  "reader_run N payload fs \<longleftrightarrow>
     (\<exists>s. stream_reachable N s \<and> st_fed s = payload \<and> st_eof s \<and> st_buf s = [] \<and> st_frames s = fs)"

lemma reader_run_extract:
  assumes "nom_streaming N" "reader_run N payload fs"
  obtains es where "extract_ciphertexts value_from (map Inr fs) = Some (Inr es)"
    "map ed_range es = frame_ranges fs"
    "map (\<lambda>e. Some (ed_value e)) es = map (map_option value_from) (frame_texts fs)"
    "ascending 0 (frame_ranges fs) (length payload)"
proof -
  from assms(2) obtain s where s: "stream_reachable N s" "st_fed s = payload" "st_frames s = fs"
    by (auto simp: reader_run_def)
  from nom_streaming.stream_reachable_inv [OF assms(1) s(1)] s obtain nul rest where
    t: "tiles 0 (payload @ nul) fs rest" "nul = [] \<or> nul = [CHR 0x00]"
    by (auto simp: stream_inv_def)
  from tiles_ascending [OF t(2,1)] have "ascending 0 (frame_ranges fs) (length payload)" by simp
  with extract_frames [of fs value_from] tiles_wf [OF t(1)] that show thesis by blast
qed

text \<open>
  (C4) Decryption replaces each ciphertext of the body in place: when E3 answers with one value per
  range it was asked about, the wrapped service receives the request with every ciphertext range
  replaced by its value, everything between the ranges unchanged and the content length of the new
  body. Replacing from the last range to the first is what makes the ranges stay valid; no range
  leaves the body, so nothing panics.
\<close>

theorem decrypt_replaces_ciphertexts:
  assumes "nom_streaming N" and "reader_run N payload fs" and "frame_ranges fs \<noteq> []"
    and "rq_body req = Some payload" and "rq_context req = Some ctx"
    and "de_reader env payload = map Inr fs"
    and "\<And>rq. \<exists>rs. de_decrypt env rq = Inr rs
      \<and> map ed_range (body_data rs) = map ed_range (body_data rq)"
  shows "\<exists>rq rs n.
    map ed_range (body_data rq) = frame_ranges fs
    \<and> map (\<lambda>e. Some (ed_value e)) (body_data rq) =
        map (map_option (de_value_from env)) (frame_texts fs)
    \<and> header_data rq = find_encrypted_headers env (rq_headers req)
    \<and> de_decrypt env rq = Inr rs
    \<and> (let H = de_headers env; body = substitute (de_to_vec env) 0 (body_data rs) payload
       in decrypt_call env inner req =
        inner (req\<lparr>rq_headers :=
            insert_decrypted_headers H (header_data rs)
              (hm_insert H ''content-length'' (show_nat (length body))
                 (hm_remove H ''transfer-encoding'' (rq_headers req))),
          rq_body := Some body, rq_context := Some (de_n_decrypted_fields env n ctx)\<rparr>))"
proof -
  obtain es where es: "extract_ciphertexts (de_value_from env) (map Inr fs) = Some (Inr es)"
    "map ed_range es = frame_ranges fs"
    "map (\<lambda>e. Some (ed_value e)) es = map (map_option (de_value_from env)) (frame_texts fs)"
    "ascending 0 (frame_ranges fs) (length payload)"
    by (rule reader_run_extract [OF assms(1,2), of "de_value_from env"])
  then have ne: "es \<noteq> []" using assms(3) by auto
  let ?rq = "\<lparr>body_data = es, header_data = find_encrypted_headers env (rq_headers req)\<rparr>"
  obtain rs where rs: "de_decrypt env ?rq = Inr rs"
    "map ed_range (body_data rs) = frame_ranges fs"
    using assms(7) [of ?rq] es(2) by auto
  with es(4) have inj: "inject_decrypted_values_into_request_vec (de_to_vec env) (body_data rs) payload
      = Some (substitute (de_to_vec env) 0 (body_data rs) payload)"
    by (intro inject_substitute) simp
  show ?thesis
    by (intro exI [of _ ?rq] exI [of _ rs]
        exI [of _ "if length es < 2 ^ 32 then Some (length es) else None"])
      (simp add: decrypt_call_def Let_def assms(4-6) es ne rs inj)
qed

text \<open>
  (C32) A request is never forwarded with ciphertexts E3 did not decrypt: when E3 fails, the caller gets
  E3's own status code if E3 answered with one and 500 otherwise, and the context is kept for the log.
\<close>

theorem decrypt_failure_is_reported:
  assumes "nom_streaming N" and "reader_run N payload fs" and "frame_ranges fs \<noteq> []"
    and "rq_body req = Some payload" and "rq_context req = Some ctx"
    and "de_reader env payload = map Inr fs"
    and "\<And>rq. de_decrypt env rq = Inl e"
  shows "\<exists>rs. decrypt_call env inner req = Answers rs
    \<and> rs_status rs = (case e of FailedRequest code \<Rightarrow> code | _ \<Rightarrow> 500) \<and> rs_context rs = Some ctx"
proof -
  obtain es where es: "extract_ciphertexts (de_value_from env) (map Inr fs) = Some (Inr es)"
    "map ed_range es = frame_ranges fs"
    by (rule reader_run_extract [OF assms(1,2), of "de_value_from env"])
  then have "es \<noteq> []" using assms(3) by auto
  then have "decrypt_call env inner req = Answers (decrypt_error_response env ctx (E3Error e))"
    by (simp add: decrypt_call_def Let_def assms(4-7) es(1))
  then show ?thesis
    by (simp add: decrypt_error_response_def decrypt_to_status_def Let_def)
qed

section \<open>A concrete request\<close>

definition sample_frames :: "IncomingFrame list" where
  "sample_frames = [CiphertextFrame (0, 106) sample_ciphertext, Plaintext [CHR 0x00]]"

lemma sample_encode_length: "length (ct_encode sample_ciphertext) = 106"
  by (simp add: sample_ciphertext_def ct_encode_def enc_debug_def enc_version_def enc_datatype_def)

lemma sample_reader_run: "reader_run nom_ref (ct_encode sample_ciphertext) sample_frames"
proof -
  let ?t = "ct_encode sample_ciphertext"
  let ?s1 = "\<lparr>st_dec = decoder_default, st_buf = ?t, st_fed = ?t, st_frames = [], st_eof = False\<rparr>"
  let ?s2 = "?s1\<lparr>st_eof := True\<rparr>"
  have r1: "stream_reachable nom_ref ?s1"
    using stream_next [OF stream_start feed [of stream_init nom_ref ?t]] by (simp add: stream_init_def)
  have r2: "stream_reachable nom_ref ?s2" by (rule stream_next [OF r1 close])
  have bare: "bare sample_ciphertext = sample_ciphertext"
    by (simp add: bare_def sample_ciphertext_def)
  have d1: "decode_eof nom_ref (st_dec ?s2) (st_buf ?s2) =
     Some (\<lparr>offset = 106\<rparr>, [CHR 0x00], Inr (Some (CiphertextFrame (0, 106) sample_ciphertext)))"
    using nom_impl.decode_eof_bare_ciphertext [OF sample_wf, of decoder_default]
    by (simp add: bare sample_encode_length decoder_default_def)
  let ?s3 = "?s2\<lparr>st_dec := \<lparr>offset = 106\<rparr>, st_buf := [CHR 0x00],
     st_frames := [CiphertextFrame (0, 106) sample_ciphertext]\<rparr>"
  have r3: "stream_reachable nom_ref ?s3"
    using stream_next [OF r2 call_decode_eof [OF _ d1]] by (simp add: receive_def)
  have "decode_eof nom_ref (st_dec ?s3) (st_buf ?s3) =
     Some (\<lparr>offset = 107\<rparr>, [], Inr (Some (Plaintext [CHR 0x00])))"
    using nom_impl.decode_no_candidate(2) [of "[CHR 0x00]" "\<lparr>offset = 106\<rparr>"]
    by (simp add: sublist_def Cons_eq_append_conv)
  from stream_next [OF r3 call_decode_eof [OF _ this]]
  show ?thesis unfolding reader_run_def by (force simp: receive_def sample_frames_def)
qed

text \<open>E3 answers every entry with the JSON number 42, or fails with a status.\<close>

definition sample_env ::
  "ClientError option \<Rightarrow> ((string \<times> bytes) list, string, unit) decrypt_env" where
  "sample_env failure =
     \<lparr>de_headers = ref_headers, de_is_match = (\<lambda>_. False), de_value_from = id, de_to_vec = Some,
      de_reader = (\<lambda>_. map Inr sample_frames),
      de_decrypt = (\<lambda>rq. case failure of Some e \<Rightarrow> Inl e | None \<Rightarrow>
         Inr (rq\<lparr>body_data := map (\<lambda>e. e\<lparr>ed_value := ''42''\<rparr>) (body_data rq)\<rparr>)),
      de_error_body = (\<lambda>_. ''error''), de_n_decrypted_fields = (\<lambda>_. id)\<rparr>"

definition sample_request :: "((string \<times> bytes) list, unit) http_request" where
  "sample_request = \<lparr>rq_method = ''POST'', rq_path = ''/'', rq_query = None, rq_headers = [],
     rq_body = Some (ct_encode sample_ciphertext), rq_context = Some (), rq_remote_ip = None\<rparr>"

lemma sample_facts:
  "frame_ranges sample_frames \<noteq> []" "rq_body sample_request = Some (ct_encode sample_ciphertext)"
  "rq_context sample_request = Some ()"
  "de_reader (sample_env f) (ct_encode sample_ciphertext) = map Inr sample_frames"
  by (simp_all add: sample_frames_def sample_request_def sample_env_def)

theorem decrypt_replaces_ciphertexts_witness:
  "\<exists>rs. decrypt_call (sample_env None) (\<lambda>rq. Answers \<lparr>rs_version = ''HTTP/1.1'', rs_status = 200, rs_headers = rq_headers rq,
       rs_body = rq_body rq, rs_context = rq_context rq\<rparr>) sample_request = Answers rs
     \<and> rs_body rs = Some ''42''"
proof -
  have e3: "\<exists>rs. de_decrypt (sample_env None) rq = Inr rs
      \<and> map ed_range (body_data rs) = map ed_range (body_data rq)" for rq
    by (simp add: sample_env_def)
  show ?thesis
    using decrypt_replaces_ciphertexts [OF nom_impl.nom_streaming_axioms sample_reader_run
        sample_facts e3, of "\<lambda>rq. Answers \<lparr>rs_version = ''HTTP/1.1'', rs_status = 200, rs_headers = rq_headers rq,
       rs_body = rq_body rq, rs_context = rq_context rq\<rparr>"]
    by (auto simp: sample_env_def sample_frames_def Let_def sample_encode_length)
qed

theorem decrypt_failure_is_reported_witness:
  "\<exists>rs. decrypt_call (sample_env (Some (FailedRequest 429))) (\<lambda>_. Panic) sample_request = Answers rs
     \<and> rs_status rs = 429 \<and> rs_context rs = Some ()"
proof -
  have e3: "de_decrypt (sample_env (Some (FailedRequest 429))) rq = Inl (FailedRequest 429)" for rq
    by (simp add: sample_env_def)
  show ?thesis
    using decrypt_failure_is_reported [OF nom_impl.nom_streaming_axioms sample_reader_run
        sample_facts e3, of "\<lambda>_. Panic"] by simp
qed

end
