(* ===== verification/Service_Layers.thy ===== *)
theory Service_Layers
  imports Decrypt_Layer Trx_Logging
begin

text \<open>
  The tower services around the user process: API key authentication
  (\<open>data-plane/src/server/layers/auth.rs\<close>), attestation (\<open>attest.rs\<close>, with
  \<open>data-plane/src/crypto/attest.rs\<close>), forwarding (\<open>forward.rs\<close>) and the transaction log
  (\<open>context_log.rs\<close>), composed as in \<open>data-plane/src/server/server.rs\<close> with the decrypt service. The HTTP
  client, E3, the hash, the secure module and the JSON bodies are parameters.
\<close>

section \<open>Contexts\<close>

record EnclaveContext =
  ec_team_uuid :: string
  ec_app_uuid :: string
  ec_uuid :: string
  ec_name :: string

record FeatureContext =
  api_key_auth :: bool
  healthcheck :: "string option"
  healthcheck_port :: "nat option"
  healthcheck_use_tls :: "bool option"
  trx_logging_enabled :: bool
  forward_proxy_protocol :: bool
  trusted_headers :: "string list"

record AuthRequest =
  ar_team_uuid :: string
  ar_app_uuid :: string
  ar_cage_uuid :: "string option"

definition auth_request_from :: "EnclaveContext \<Rightarrow> AuthRequest" where
  "auth_request_from c = \<lparr>ar_team_uuid = ec_team_uuid c, ar_app_uuid = ec_app_uuid c, ar_cage_uuid = Some (ec_uuid c)\<rparr>"

datatype AuthError =
    NoApiKeyGiven
  | FailedToAuthenticateApiKey
  | DecodingError
  | InternalError ClientError

definition auth_to_status :: "AuthError \<Rightarrow> nat" where
  "auth_to_status e = (case e of InternalError _ \<Rightarrow> 500 | _ \<Rightarrow> 401)"

type_synonym ('h) trx_request = "('h, TrxContextBuilder) http_request"
type_synonym ('h) trx_response = "('h, TrxContextBuilder) http_response"

text \<open>The secure module: opening it, its random bytes, and an attestation over user data and nonce.\<close>

datatype AttestationError =
    AttestationFailed
  | UnexpectedResponse
  | CoseSign1ParseFailed
  | AttestationDocParseFailed
  | SigningCertParseFailed
  | ConnectionFailed
  | DateTimeParseError
  | InvalidTimeError

datatype nsm_attestation = NsmDocument bytes | NsmError | NsmUnexpected

record nsm =
  nsm_open :: bool
  nsm_random :: "bytes option"
  nsm_attest :: "bytes option \<Rightarrow> bytes \<Rightarrow> nsm_attestation"

record 'h layer_env =
  ly_log :: "'h log_env"
  ly_hash :: "bytes \<Rightarrow> bytes"
  ly_authenticate :: "bytes \<Rightarrow> AuthRequest \<Rightarrow> (ClientError, unit) result"
  ly_auth_body :: "AuthError \<Rightarrow> bytes"
  ly_client :: "'h trx_request \<Rightarrow> 'h trx_response option"
  ly_forward_body :: bytes
  ly_nsm :: nsm
  ly_cert :: "bytes option"
  ly_doc_body :: "bytes \<Rightarrow> bytes"
  ly_attest_body :: "AttestationError \<Rightarrow> bytes"

section \<open>Responses\<close>

text \<open>A JSON response with its content type and length, as the builders of the error responses make it.\<close>

definition json_response :: "'h headers_api \<Rightarrow> nat \<Rightarrow> bytes \<Rightarrow> 'x option \<Rightarrow> ('h, 'x) http_response" where
  "json_response H status body ctx =
     \<lparr>rs_version = ''HTTP/1.1'', rs_status = status,
      rs_headers = hm_append H ''content-length'' (show_nat (length body))
        (hm_append H ''content-type'' ''application/json'' (hm_empty H)),
      rs_body = Some body, rs_context = ctx\<rparr>"

definition auth_error_response :: "'h layer_env \<Rightarrow> AuthError \<Rightarrow> TrxContextBuilder option \<Rightarrow> 'h trx_response" where
  "auth_error_response E err ctx =
     json_response (le_headers (ly_log E)) (auth_to_status err) (ly_auth_body E err) ctx"

section \<open>Authentication\<close>

definition auth_request :: "'h layer_env \<Rightarrow> EnclaveContext \<Rightarrow> bytes \<Rightarrow> (AuthError, unit) result" where
  "auth_request E context api_key =
     (case header_value (le_headers (ly_log E)) (ly_hash E api_key) of
        None \<Rightarrow> Inl DecodingError
      | Some hashed_api_key \<Rightarrow>
         (case ly_authenticate E hashed_api_key (auth_request_from context) of
            Inr _ \<Rightarrow> Inr ()
          | Inl (FailedRequest status) \<Rightarrow>
              if status = 401 then Inl FailedToAuthenticateApiKey else Inl (InternalError (FailedRequest status))
          | Inl e \<Rightarrow> Inl (InternalError e)))"

definition auth_call ::
  "'h layer_env \<Rightarrow> EnclaveContext \<Rightarrow> ('h trx_request \<Rightarrow> 'h trx_response outcome) \<Rightarrow>
   'h trx_request \<Rightarrow> 'h trx_response outcome" where
  "auth_call E context inner req =
     (case hm_get (le_headers (ly_log E)) (rq_headers req) ''api-key'' of
        None \<Rightarrow> Answers (auth_error_response E NoApiKeyGiven (rq_context req))
      | Some api_key \<Rightarrow>
         (case auth_request E context api_key of
            Inl err \<Rightarrow> Answers (auth_error_response E err (rq_context req))
          | Inr _ \<Rightarrow> inner req))"

section \<open>Attestation\<close>

definition get_nonce :: "nsm \<Rightarrow> bytes option \<Rightarrow> (AttestationError, bytes) result" where
  "get_nonce M nonce =
     (case nonce of
        Some n \<Rightarrow> Inr n
      | None \<Rightarrow> (case nsm_random M of Some r \<Rightarrow> Inr r | None \<Rightarrow> Inl UnexpectedResponse))"

definition get_attestation_doc :: "nsm \<Rightarrow> bytes option \<Rightarrow> bytes option \<Rightarrow> (AttestationError, bytes) result" where
  "get_attestation_doc M challenge nonce =
     (if \<not> nsm_open M then Inl ConnectionFailed
      else try_bind (get_nonce M nonce) (\<lambda>n.
        case nsm_attest M challenge n of
          NsmDocument document \<Rightarrow> Inr document
        | NsmError \<Rightarrow> Inl AttestationFailed
        | NsmUnexpected \<Rightarrow> Inl UnexpectedResponse))"

definition is_attestation_request :: "('h, 'x) http_request \<Rightarrow> bool" where
  "is_attestation_request req \<longleftrightarrow> rq_path req = ''/.well-known/attestation''"

definition attest_call ::
  "'h layer_env \<Rightarrow> ('h trx_request \<Rightarrow> 'h trx_response outcome) \<Rightarrow> 'h trx_request \<Rightarrow> 'h trx_response outcome" where
  "attest_call E inner req =
     (if \<not> is_attestation_request req then inner req
      else (let H = le_headers (ly_log E) in
        case get_attestation_doc (ly_nsm E) (ly_cert E) None of
          Inl e \<Rightarrow> Answers (json_response H 500 (ly_attest_body E e) None)
        | Inr doc \<Rightarrow> Answers (json_response H 200 (ly_doc_body E doc) None)))"

section \<open>Forwarding\<close>

definition forward_call :: "'h layer_env \<Rightarrow> 'h trx_request \<Rightarrow> 'h trx_response outcome" where
  "forward_call E req =
     (let H = le_headers (ly_log E) in
      case rq_context req of
        None \<Rightarrow> Panic
      | Some context_builder \<Rightarrow>
         (case ly_client E (req\<lparr>rq_context := None\<rparr>) of
            None \<Rightarrow> Answers (json_response H 500 (ly_forward_body E) (Some context_builder))
          | Some response \<Rightarrow>
             (let response = response\<lparr>rs_context := Some context_builder\<rparr> in
              if hm_get H (rs_headers response) ''transfer-encoding'' \<noteq> None
              then (let headers = hm_remove H ''transfer-encoding'' (rs_headers response) in
                    case rs_body response of
                      None \<Rightarrow> Panic
                    | Some body \<Rightarrow>
                        Answers (response\<lparr>rs_headers := hm_append H ''content-length'' (show_nat (length body)) headers,
                                          rs_body := Some body\<rparr>))
              else Answers response)))"

section \<open>The transaction log\<close>

definition init_request_context ::
  "'h log_env \<Rightarrow> string \<Rightarrow> string \<Rightarrow> EnclaveContext \<Rightarrow> FeatureContext \<Rightarrow> ('h, 'x) http_request \<Rightarrow>
   TrxContextBuilder option" where
  "init_request_context L timestamp trx_id context feature req =
     add_req_to_trx_context L req (trusted_headers feature)
       (init_trx_context_with_enclave_details timestamp trx_id (ec_uuid context) (ec_name context)
          (ec_app_uuid context) (ec_team_uuid context) HTTP)"

text \<open>\<open>None\<close> is the panic on an identifier that is no header value.\<close>

definition add_ev_ctx_to_headers :: "'h headers_api \<Rightarrow> string \<Rightarrow> 'h \<Rightarrow> 'h option" where
  "add_ev_ctx_to_headers H trx_id headers =
     (case Option.bind (hm_get H headers ''x-evervault-ctx'') (header_to_str H) of
        Some header \<Rightarrow>
          (case header_value H (header @ '';'' @ trx_id) of
             Some v \<Rightarrow> Some (hm_insert H ''x-evervault-ctx'' v headers)
           | None \<Rightarrow> Some headers)
      | None \<Rightarrow>
          (case header_value H trx_id of
             Some v \<Rightarrow> Some (hm_insert H ''x-evervault-ctx'' v headers)
           | None \<Rightarrow> None))"

text \<open>
  The service with the identifier and the timestamp of the request, and the system clock when the timer is started and when
  it is stopped; the second component are the contexts sent to the log handler.
\<close>

record trx_clock =
  tk_timestamp :: string
  tk_trx_id :: string
  tk_started :: int
  tk_now :: int

definition context_log_call ::
  "'h layer_env \<Rightarrow> trx_clock \<Rightarrow> EnclaveContext \<Rightarrow> FeatureContext \<Rightarrow> ('h trx_request \<Rightarrow> 'h trx_response outcome) \<Rightarrow>
   'h trx_request \<Rightarrow> 'h trx_response outcome \<times> TrxContext list" where
  "context_log_call E K context feature inner req =
     (let L = ly_log E; H = le_headers L in
      case init_request_context L (tk_timestamp K) (tk_trx_id K) context feature req of
        None \<Rightarrow> (Panic, [])
      | Some base_context \<Rightarrow>
         (let request_id = get_trx_id (tk_trx_id K) base_context in
          case add_ev_ctx_to_headers H request_id (rq_headers req) of
            None \<Rightarrow> (Panic, [])
          | Some headers \<Rightarrow>
             (let base_context = (case rq_remote_ip req of
                      Some remote \<Rightarrow> base_context\<lparr>b_remote_ip := Some (Some remote)\<rparr> | None \<Rightarrow> base_context);
                  req = req\<lparr>rq_headers := headers, rq_remote_ip := None, rq_context := Some base_context\<rparr>
              in case inner req of
                   Panic \<Rightarrow> (Panic, [])
                 | Fails \<Rightarrow> (Fails, [])
                 | Answers response \<Rightarrow>
                    (case rs_context response of
                       None \<Rightarrow> (Panic, [])
                     | Some ctx \<Rightarrow>
                        (case add_res_to_trx_context L response (trusted_headers feature) ctx of
                           None \<Rightarrow> (Panic, [])
                         | Some ctx \<Rightarrow>
                            (case add_ev_ctx_to_headers H request_id (rs_headers response) of
                               None \<Rightarrow> (Panic, [])
                             | Some rheaders \<Rightarrow>
                                (let response = response\<lparr>rs_headers := rheaders, rs_context := None\<rparr> in
                                 case stop_timer_and_build (tk_started K) (tk_now K) ctx of
                                   None \<Rightarrow> (Panic, [])
                                 | Some None \<Rightarrow> (Answers response, [])
                                 | Some (Some built) \<Rightarrow>
                                    (Answers response, if trx_logging_enabled feature then [built] else []))))))))"

section \<open>The stack of services\<close>

definition decrypt_setter :: "nat option \<Rightarrow> TrxContextBuilder \<Rightarrow> TrxContextBuilder" where
  "decrypt_setter n b = b\<lparr>b_n_decrypted_fields := Some n\<rparr>"

definition data_plane_service ::
  "'h layer_env \<Rightarrow> ('h, 'v, TrxContextBuilder) decrypt_env \<Rightarrow> trx_clock \<Rightarrow> EnclaveContext \<Rightarrow> FeatureContext \<Rightarrow>
   'h trx_request \<Rightarrow> 'h trx_response outcome \<times> TrxContext list" where
  "data_plane_service E D K context feature req =
     (let decrypting = decrypt_call D (forward_call E);
          authenticated = (if api_key_auth feature then auth_call E context decrypting else decrypting);
          logged = context_log_call E K context feature authenticated
      in (attest_call E (\<lambda>r. fst (logged r)) req,
          if is_attestation_request req then [] else snd (logged req)))"

section \<open>Answers carry their context\<close>

text \<open>
  The invariant of the services below the log: they answer, with a context that can be built and with a
  content type that is a string.
\<close>

definition carries_context :: "'h log_env \<Rightarrow> 'h trx_response outcome \<Rightarrow> bool" where
  "carries_context L out \<longleftrightarrow>
     (\<exists>rs c. out = Answers rs \<and> rs_context rs = Some c \<and> complete c
        \<and> header_text L (rs_headers rs) ''content-type'' \<noteq> None)"

definition client_answers_ok :: "'h layer_env \<Rightarrow> bool" where
  "client_answers_ok E \<longleftrightarrow>
     (\<forall>rq rs. ly_client E rq = Some rs \<longrightarrow>
        rs_body rs \<noteq> None \<and> header_text (ly_log E) (rs_headers rs) ''content-type'' \<noteq> None)"

context header_map
begin

lemma names:
  "header_name H ''content-type'' = Some ''content-type''" "header_name H ''content-length'' = Some ''content-length''"
  "header_name H ''transfer-encoding'' = Some ''transfer-encoding''" "header_name H ''api-key'' = Some ''api-key''"
  "header_name H ''x-evervault-ctx'' = Some ''x-evervault-ctx''" "header_name H ''user-agent'' = Some ''user-agent''"
  by (simp_all add: name_lower byte_in_def)

lemma json_type:
  assumes "le_headers L = H"
  shows "header_text L (rs_headers (json_response H st body ctx)) ''content-type'' = Some (Some ''application/json'')"
proof -
  have "hm_get H (rs_headers (json_response H st body ctx)) ''content-type'' = Some ''application/json''"
    by (simp add: json_response_def get_append_other get_append_none get_empty names)
  moreover have "header_to_str H ''application/json'' = Some ''application/json''"
    by (rule to_str_visible) (simp add: byte_in_def)
  ultimately show ?thesis using assms by (simp add: header_text_def)
qed

lemma text_append_length:
  "le_headers L = H \<Longrightarrow> header_text L (hm_append H ''content-length'' v (hm_remove H ''transfer-encoding'' hs)) ''content-type''
     = header_text L hs ''content-type''"
  by (simp add: header_text_def get_append_other get_remove_other names)

lemma forward_carries:
  assumes "le_headers (ly_log E) = H" "client_answers_ok E" "rq_context req = Some c" "complete c"
  shows "carries_context (ly_log E) (forward_call E req)"
proof (cases "ly_client E (req\<lparr>rq_context := None\<rparr>)")
  case None
  with assms json_type [OF assms(1)] show ?thesis
    by (simp add: forward_call_def carries_context_def) (simp add: json_response_def)
next
  case (Some rs)
  with assms(2) obtain body where "rs_body rs = Some body"
    "header_text (ly_log E) (rs_headers rs) ''content-type'' \<noteq> None" by (auto simp: client_answers_ok_def)
  with Some assms text_append_length [OF assms(1)] show ?thesis
    by (auto simp: forward_call_def carries_context_def Let_def)
qed

lemma auth_carries:
  assumes "le_headers (ly_log E) = H" "rq_context req = Some c" "complete c"
    and "carries_context (ly_log E) (inner req)"
  shows "carries_context (ly_log E) (auth_call E context inner req)"
  using assms json_type [OF assms(1)]
  by (auto simp: auth_call_def carries_context_def auth_error_response_def split: option.splits sum.splits)
    (auto simp: json_response_def)

lemma decrypt_error_carries:
  assumes "le_headers L = H" "de_headers D = H" "complete c"
  shows "carries_context L (Answers (decrypt_error_response D c e))"
proof -
  have "header_text L (rs_headers (decrypt_error_response D c e)) ''content-type'' \<noteq> None"
    using assms by (simp add: decrypt_error_response_def Let_def header_text_def get_append_other get_empty names)
  then show ?thesis
    using assms by (auto simp: carries_context_def decrypt_error_response_def Let_def)
qed

end

text \<open>
  What the decrypt service relies on: the reader yields the frames of the payload, and E3 answers every
  entry in its place.
\<close>

definition decrypt_env_ok :: "nom \<Rightarrow> ('h, 'v, TrxContextBuilder) decrypt_env \<Rightarrow> bytes option \<Rightarrow> bool" where
  "decrypt_env_ok N D body \<longleftrightarrow>
     (\<forall>payload. body = Some payload \<longrightarrow> (\<exists>fs. reader_run N payload fs \<and> de_reader D payload = map Inr fs))
     \<and> (\<forall>rq rs. de_decrypt D rq = Inr rs \<longrightarrow> map ed_range (body_data rs) = map ed_range (body_data rq))
     \<and> de_n_decrypted_fields D = decrypt_setter"

context header_map
begin

lemma decrypt_carries:
  assumes H: "le_headers L = H" "de_headers D = H" and N: "nom_streaming N"
    and D: "decrypt_env_ok N D (rq_body req)" and c: "rq_context req = Some c" "complete c"
    and inner: "\<And>rq c. rq_context rq = Some c \<Longrightarrow> complete c \<Longrightarrow> carries_context L (inner rq)"
  shows "carries_context L (decrypt_call D inner req)"
proof (cases "rq_body req")
  case None
  with c decrypt_error_carries [OF H c(2)] show ?thesis by (simp add: decrypt_call_def)
next
  case (Some payload)
  with D obtain fs where fs: "reader_run N payload fs" "de_reader D payload = map Inr fs"
    by (auto simp: decrypt_env_ok_def)
  obtain es where es: "extract_ciphertexts (de_value_from D) (map Inr fs) = Some (Inr es)"
    "map ed_range es = frame_ranges fs" "ascending 0 (frame_ranges fs) (length payload)"
    by (rule reader_run_extract [OF N fs(1), of "de_value_from D"])
  have set: "complete (de_n_decrypted_fields D n c)" for n
    using D c(2) by (simp add: decrypt_env_ok_def decrypt_setter_def complete_updates)
  have inj: "inject_decrypted_values_into_request_vec (de_to_vec D) (body_data rs) payload
      = Some (substitute (de_to_vec D) 0 (body_data rs) payload)"
    if "de_decrypt D rq = Inr rs" "body_data rq = es" for rq rs
    using that D es by (intro inject_substitute) (auto simp: decrypt_env_ok_def)
  show ?thesis
    using decrypt_error_carries [OF H c(2)] inner set inj
    by (simp add: decrypt_call_def c(1) Some fs(2) es(1) Let_def split: sum.split)
qed

lemma ev_ctx_ok:
  assumes "header_value H i \<noteq> None"
  shows "\<exists>hs'. add_ev_ctx_to_headers H i hs = Some hs' \<and>
    (\<forall>k. header_name H k \<noteq> header_name H ''x-evervault-ctx'' \<longrightarrow> hm_get H hs' k = hm_get H hs k)"
  using assms
  by (auto simp: add_ev_ctx_to_headers_def get_insert_other split: option.split)

lemma context_log_answers:
  assumes H: "le_headers (ly_log E) = H" and i: "header_value H (tk_trx_id K) \<noteq> None"
    and ct: "header_text (ly_log E) (rq_headers req) ''content-type'' \<noteq> None"
    and ua: "header_text (ly_log E) (rq_headers req) ''user-agent'' \<noteq> None"
    and inner: "\<And>rq c. rq_body rq = rq_body req \<Longrightarrow> rq_context rq = Some c \<Longrightarrow> complete c \<Longrightarrow>
      carries_context (ly_log E) (inner rq)"
  shows "if tk_now K < tk_started K then context_log_call E K context feature inner req = (Panic, [])
    else \<exists>rs logs. context_log_call E K context feature inner req = (Answers rs, logs)
      \<and> (if trx_logging_enabled feature
         then \<exists>l. logs = [l] \<and> response_code l = Some (show_nat (rs_status rs)) else logs = [])"
proof -
  obtain b where b: "init_request_context (ly_log E) (tk_timestamp K) (tk_trx_id K) context feature req = Some b"
    using ct ua by (auto simp: init_request_context_def add_req_to_trx_context_def Let_def split: option.splits)
  then have bc: "complete b" "b_txid b = Some (tk_trx_id K)"
    using complete_add_req [OF b [unfolded init_request_context_def] identified_init]
    by (auto simp: init_request_context_def add_req_to_trx_context_def Let_def add_headers_to_request_def
        init_trx_context_with_enclave_details_def builder_new_def split: option.splits)
  obtain hs where hs: "add_ev_ctx_to_headers H (tk_trx_id K) (rq_headers req) = Some hs" using ev_ctx_ok [OF i] by blast
  let ?b = "case rq_remote_ip req of Some remote \<Rightarrow> b\<lparr>b_remote_ip := Some (Some remote)\<rparr> | None \<Rightarrow> b"
  let ?req = "req\<lparr>rq_headers := hs, rq_remote_ip := None, rq_context := Some ?b\<rparr>"
  have "complete ?b" using bc complete_updates by (simp split: option.split)
  then obtain rs c where rs: "inner ?req = Answers rs" "rs_context rs = Some c" "complete c"
    "header_text (ly_log E) (rs_headers rs) ''content-type'' \<noteq> None"
    using inner [of ?req ?b] by (auto simp: carries_context_def)
  obtain c' where c': "add_res_to_trx_context (ly_log E) rs (trusted_headers feature) c = Some c'"
    using rs(4) by (auto simp: add_res_to_trx_context_def Let_def split: option.splits)
  then have code: "b_response_code c' = Some (Some (show_nat (rs_status rs)))"
    by (auto simp: add_res_to_trx_context_def Let_def add_headers_to_response_def add_status_and_group_def
        split: option.splits)
  obtain rhs where rhs: "add_ev_ctx_to_headers H (tk_trx_id K) (rs_headers rs) = Some rhs"
    using ev_ctx_ok [OF i] by blast
  note run = b bc(2) hs rs(1,2) c' rhs H
  show ?thesis
  proof (cases "tk_now K < tk_started K")
    case True
    then show ?thesis
      using run by (simp add: context_log_call_def get_trx_id_def Let_def stop_timer_and_build_def)
  next
    case False
    then obtain l where l: "stop_timer_and_build (tk_started K) (tk_now K) c' = Some (Some l)"
      using complete_builds [OF complete_add_res [OF c' rs(3)], of "tk_started K" "tk_now K"] by auto
    then have "response_code l = Some (show_nat (rs_status rs))"
      using code by (auto simp: stop_timer_and_build_def dflt_def split: if_splits dest: build_response_code)
    with False l show ?thesis
      using run by (simp add: context_log_call_def get_trx_id_def Let_def)
  qed
qed

end

section \<open>Properties of the stack\<close>

text \<open>The service below the attestation answers and logs, unless the clock was set back.\<close>

lemma data_plane_answers_and_logs:
  assumes "header_map H" and "le_headers (ly_log E) = H" and "de_headers D = H" and "nom_streaming N"
    and "decrypt_env_ok N D (rq_body req)" and "client_answers_ok E" and "header_value H (tk_trx_id K) \<noteq> None"
    and "header_text (ly_log E) (rq_headers req) ''content-type'' \<noteq> None"
    and "header_text (ly_log E) (rq_headers req) ''user-agent'' \<noteq> None"
    and "\<not> is_attestation_request req"
  shows "if tk_now K < tk_started K then data_plane_service E D K context feature req = (Panic, [])
    else \<exists>rs logs. data_plane_service E D K context feature req = (Answers rs, logs)
      \<and> (if trx_logging_enabled feature
         then \<exists>l. logs = [l] \<and> response_code l = Some (show_nat (rs_status rs)) else logs = [])"
proof -
  note carries = header_map.forward_carries [OF assms(1,2,6)] header_map.auth_carries [OF assms(1,2)]
  let ?inner = "if api_key_auth feature then auth_call E context (decrypt_call D (forward_call E))
     else decrypt_call D (forward_call E)"
  have "carries_context (ly_log E) (?inner rq)" if "rq_body rq = rq_body req" "rq_context rq = Some c" "complete c" for rq c
    using header_map.decrypt_carries [OF assms(1-4) assms(5) [folded that(1)] that(2,3) carries(1)]
      carries(2) that(2,3) by simp
  then have "if tk_now K < tk_started K then context_log_call E K context feature ?inner req = (Panic, [])
    else \<exists>rs logs. context_log_call E K context feature ?inner req = (Answers rs, logs)
      \<and> (if trx_logging_enabled feature
         then \<exists>l. logs = [l] \<and> response_code l = Some (show_nat (rs_status rs)) else logs = [])"
    by (rule header_map.context_log_answers [OF assms(1,2,7,8,9)])
  then show ?thesis
    using assms(10) by (auto simp: data_plane_service_def attest_call_def Let_def split: if_splits)
qed


lemma context_log_cong:
  assumes "\<And>i hs b. add_ev_ctx_to_headers (le_headers (ly_log E)) i (rq_headers req) = Some hs \<Longrightarrow>
      inner (req\<lparr>rq_headers := hs, rq_remote_ip := None, rq_context := Some b\<rparr>)
      = inner' (req\<lparr>rq_headers := hs, rq_remote_ip := None, rq_context := Some b\<rparr>)"
  shows "context_log_call E K context feature inner req = context_log_call E K context feature inner' req"
  unfolding context_log_call_def Let_def using assms by (auto split: option.split)

lemma context_log_status:
  assumes "context_log_call E K context feature inner req = (Answers rs, logs)"
  shows "\<exists>i hs b rs'. add_ev_ctx_to_headers (le_headers (ly_log E)) i (rq_headers req) = Some hs
    \<and> inner (req\<lparr>rq_headers := hs, rq_remote_ip := None, rq_context := Some b\<rparr>) = Answers rs'
    \<and> rs_status rs = rs_status rs'"
  using assms unfolding context_log_call_def Let_def
  by (auto split: option.splits outcome.splits) metis+

lemma client_irrelevant [simp]:
  "context_log_call (E\<lparr>ly_client := client\<rparr>) K context feature = context_log_call E K context feature"
  "auth_call (E\<lparr>ly_client := client\<rparr>) context = auth_call E context"
  "attest_call (E\<lparr>ly_client := client\<rparr>) = attest_call E"
proof -
  have f: "ly_log (E\<lparr>ly_client := client\<rparr>) = ly_log E" "ly_hash (E\<lparr>ly_client := client\<rparr>) = ly_hash E"
    "ly_authenticate (E\<lparr>ly_client := client\<rparr>) = ly_authenticate E" "ly_auth_body (E\<lparr>ly_client := client\<rparr>) = ly_auth_body E"
    "ly_nsm (E\<lparr>ly_client := client\<rparr>) = ly_nsm E" "ly_cert (E\<lparr>ly_client := client\<rparr>) = ly_cert E"
    "ly_doc_body (E\<lparr>ly_client := client\<rparr>) = ly_doc_body E" "ly_attest_body (E\<lparr>ly_client := client\<rparr>) = ly_attest_body E"
    by simp_all
  show "context_log_call (E\<lparr>ly_client := client\<rparr>) K context feature = context_log_call E K context feature"
    "auth_call (E\<lparr>ly_client := client\<rparr>) context = auth_call E context"
    "attest_call (E\<lparr>ly_client := client\<rparr>) = attest_call E"
    unfolding fun_eq_iff context_log_call_def auth_call_def attest_call_def auth_request_def
      auth_error_response_def f by simp_all
qed

text \<open>
  (C2) With API key authentication enabled, a request without an API key or with one that E3 does not
  accept never reaches the user process: the answer is the same whatever the user process would say, and
  its status is 401, or 500 when E3 could not be asked.
\<close>

theorem unauthenticated_requests_are_stopped:
  assumes "header_map (le_headers (ly_log E))" and "api_key_auth feature" and "\<not> is_attestation_request req"
    and "\<And>key. hm_get (le_headers (ly_log E)) (rq_headers req) ''api-key'' = Some key \<Longrightarrow>
      auth_request E context key \<noteq> Inr ()"
  shows "data_plane_service (E\<lparr>ly_client := client\<rparr>) D K context feature req = data_plane_service E D K context feature req
    \<and> (\<forall>rs. fst (data_plane_service E D K context feature req) = Answers rs \<longrightarrow> rs_status rs \<in> {401, 500})"
proof -
  let ?H = "le_headers (ly_log E)"
  have ctx: "hm_get ?H hs ''api-key'' = hm_get ?H (rq_headers req) ''api-key''"
    if "add_ev_ctx_to_headers ?H i (rq_headers req) = Some hs" for i hs
    using that header_map.names [OF assms(1)] header_map.get_insert_other [OF assms(1)]
    by (auto simp: add_ev_ctx_to_headers_def split: option.splits)
  have stop: "\<exists>err. \<forall>inner. auth_call E context inner rq = Answers (auth_error_response E err (rq_context rq))"
    if "hm_get ?H (rq_headers rq) ''api-key'' = hm_get ?H (rq_headers req) ''api-key''" for rq
  proof (cases "hm_get ?H (rq_headers req) ''api-key''")
    case (Some key)
    with assms(4) obtain err where "auth_request E context key = Inl err"
      by (cases "auth_request E context key") auto
    with Some that show ?thesis by (auto simp: auth_call_def)
  qed (use that in \<open>auto simp: auth_call_def\<close>)
  have status: "rs_status rs \<in> {401, 500}" if answered: "context_log_call E K context feature (auth_call E context inner) req = (Answers rs, logs)"
    for inner rs logs
  proof -
    obtain i hs b rs' where rs': "add_ev_ctx_to_headers ?H i (rq_headers req) = Some hs"
      "auth_call E context inner (req\<lparr>rq_headers := hs, rq_remote_ip := None, rq_context := Some b\<rparr>) = Answers rs'"
      "rs_status rs = rs_status rs'"
      using context_log_status [OF answered] by blast
    from ctx [OF rs'(1)] stop [of "req\<lparr>rq_headers := hs, rq_remote_ip := None, rq_context := Some b\<rparr>"] rs'(2)
    obtain err where "rs' = auth_error_response E err (Some b)" by auto
    with rs'(3) show ?thesis
      by (simp add: auth_error_response_def json_response_def auth_to_status_def split: AuthError.split)
  qed
  have indep: "context_log_call E K context feature (auth_call E context inner) req
      = context_log_call E K context feature (auth_call E context inner') req" for inner inner'
  proof (rule context_log_cong)
    fix i hs b
    assume "add_ev_ctx_to_headers ?H i (rq_headers req) = Some hs"
    from ctx [OF this] stop [of "req\<lparr>rq_headers := hs, rq_remote_ip := None, rq_context := Some b\<rparr>"]
    show "auth_call E context inner (req\<lparr>rq_headers := hs, rq_remote_ip := None, rq_context := Some b\<rparr>)
      = auth_call E context inner' (req\<lparr>rq_headers := hs, rq_remote_ip := None, rq_context := Some b\<rparr>)"
      by auto
  qed
  show ?thesis
    using assms(2,3) indep [of "decrypt_call D (forward_call (E\<lparr>ly_client := client\<rparr>))" "decrypt_call D (forward_call E)"]
      status [of "decrypt_call D (forward_call E)"]
    by (cases "context_log_call E K context feature (auth_call E context (decrypt_call D (forward_call E))) req")
      (auto simp: data_plane_service_def attest_call_def [abs_def] Let_def)
qed

text \<open>The contexts of the answers keep the headers the log put into them.\<close>

definition keeps_headers :: "TrxContextBuilder option \<Rightarrow> 'h trx_response outcome \<Rightarrow> bool" where
  "keeps_headers ctx out \<longleftrightarrow>
     (\<forall>rs c. out = Answers rs \<longrightarrow> rs_context rs = Some c \<longrightarrow>
        (\<exists>b. ctx = Some b \<and> b_request_headers c = b_request_headers b \<and> b_response_headers c = b_response_headers b))"

lemma forward_keeps: "keeps_headers (rq_context req) (forward_call E req)"
  by (auto simp: forward_call_def keeps_headers_def json_response_def Let_def split: option.splits if_splits)

lemma auth_keeps: "keeps_headers (rq_context req) (inner req) \<Longrightarrow> keeps_headers (rq_context req) (auth_call E context inner req)"
  by (auto simp: auth_call_def keeps_headers_def auth_error_response_def json_response_def split: option.splits sum.splits)

lemma keeps_panic [simp]: "keeps_headers ctx Panic"
  by (simp add: keeps_headers_def)

lemma forward_keeps_set: "rq_context req = Some (decrypt_setter n c) \<Longrightarrow> keeps_headers (Some c) (forward_call E req)"
  using forward_keeps [of req E] by (auto simp: keeps_headers_def decrypt_setter_def)

lemma decrypt_error_keeps: "keeps_headers (Some c) (Answers (decrypt_error_response D c e))"
  by (simp add: keeps_headers_def decrypt_error_response_def Let_def)

lemma decrypt_keeps:
  assumes "de_n_decrypted_fields D = decrypt_setter"
  shows "keeps_headers (rq_context req) (decrypt_call D (forward_call E) req)"
proof (cases "rq_context req")
  case (Some c)
  then show ?thesis
    by (simp add: decrypt_call_def assms forward_keeps_set decrypt_error_keeps Let_def split: option.split sum.split)
qed (simp add: decrypt_call_def)

lemma context_log_run:
  assumes log: "context_log_call E K context feature inner req = (out, logs)" "l \<in> set logs"
  obtains b i hs r rs c c' rhs where
    "init_request_context (ly_log E) (tk_timestamp K) (tk_trx_id K) context feature req = Some b"
    "b_request_headers r = b_request_headers b" "b_response_headers r = b_response_headers b"
    "inner (req\<lparr>rq_headers := hs, rq_remote_ip := None, rq_context := Some r\<rparr>) = Answers rs" "rs_context rs = Some c"
    "add_res_to_trx_context (ly_log E) rs (trusted_headers feature) c = Some c'"
    "add_ev_ctx_to_headers (le_headers (ly_log E)) i (rs_headers rs) = Some rhs"
    "out = Answers (rs\<lparr>rs_headers := rhs, rs_context := None\<rparr>)"
    "stop_timer_and_build (tk_started K) (tk_now K) c' = Some (Some l)"
proof -
  from log obtain b hs where b: "init_request_context (ly_log E) (tk_timestamp K) (tk_trx_id K) context feature req = Some b"
    "add_ev_ctx_to_headers (le_headers (ly_log E)) (get_trx_id (tk_trx_id K) b) (rq_headers req) = Some hs"
    by (auto simp: context_log_call_def Let_def split: option.splits)
  define r where "r = (case rq_remote_ip req of Some remote \<Rightarrow> b\<lparr>b_remote_ip := Some (Some remote)\<rparr> | None \<Rightarrow> b)"
  have r: "b_request_headers r = b_request_headers b" "b_response_headers r = b_response_headers b"
    by (simp_all add: r_def split: option.split)
  from log show thesis
    unfolding context_log_call_def Let_def b option.case r_def [symmetric]
    by (auto split: outcome.splits option.splits if_splits intro: that [OF b(1) r])
qed

lemma context_log_headers:
  assumes log: "context_log_call E K context feature inner req = (out, logs)" "l \<in> set logs"
    and inner: "\<And>rq. keeps_headers (rq_context rq) (inner rq)"
  obtains headers rs i where "out = Answers rs" "add_ev_ctx_to_headers (le_headers (ly_log E)) i headers = Some (rs_headers rs)"
    "request_headers l = le_json (ly_log E) (convert_headers_to_map (le_headers (ly_log E)) (rq_headers req) (trusted_headers feature))"
    "response_headers l = le_json (ly_log E) (convert_headers_to_map (le_headers (ly_log E)) headers (trusted_headers feature))"
proof -
  let ?map = "\<lambda>headers. convert_headers_to_map (le_headers (ly_log E)) headers (trusted_headers feature)"
  from context_log_run [OF log] obtain b i hs r rs c c' rhs where run:
    "init_request_context (ly_log E) (tk_timestamp K) (tk_trx_id K) context feature req = Some b"
    "b_request_headers r = b_request_headers b" "b_response_headers r = b_response_headers b"
    "inner (req\<lparr>rq_headers := hs, rq_remote_ip := None, rq_context := Some r\<rparr>) = Answers rs" "rs_context rs = Some c"
    "add_res_to_trx_context (ly_log E) rs (trusted_headers feature) c = Some c'"
    "add_ev_ctx_to_headers (le_headers (ly_log E)) i (rs_headers rs) = Some rhs"
    "out = Answers (rs\<lparr>rs_headers := rhs, rs_context := None\<rparr>)"
    "stop_timer_and_build (tk_started K) (tk_now K) c' = Some (Some l)" .
  from run(1) have b: "dflt (b_request_headers b) = le_json (ly_log E) (?map (rq_headers req))" "b_response_headers b = None"
    by (auto simp: init_request_context_def add_req_to_trx_context_def add_headers_to_request_def Let_def dflt_def
        init_trx_context_with_enclave_details_def builder_new_def split: option.splits)
  from inner [of "req\<lparr>rq_headers := hs, rq_remote_ip := None, rq_context := Some r\<rparr>"] run(2-5) b(2)
  have c: "b_request_headers c = b_request_headers b" "b_response_headers c = None" by (auto simp: keeps_headers_def)
  from run(6) c have c': "b_request_headers c' = b_request_headers b"
    "dflt (b_response_headers c') = le_json (ly_log E) (?map (rs_headers rs))"
    by (auto simp: add_res_to_trx_context_def add_headers_to_response_def add_status_and_group_def Let_def dflt_def split: option.splits)
  from run(9) have "request_headers l = dflt (b_request_headers c')" "response_headers l = dflt (b_response_headers c')"
    by (auto simp: stop_timer_and_build_def split: if_splits dest: build_headers)
  with b(1) c' run(7,8) show thesis by (intro that [of "rs\<lparr>rs_headers := rhs, rs_context := None\<rparr>" i "rs_headers rs"]) simp_all
qed

text \<open>
  (C38) What the log of an HTTP request holds of headers: the headers of the request, and those of the response before the identifier of the request
  is added to them, are each the JSON text of a
  map in which every value is masked unless its header is trusted, that is in the fixed list or matched by an entry of the
  configured list. The authorization headers and the API key are masked whatever the configured list says. Nothing is said of
  \<open>add_httparse_to_trx\<close>, which masks nothing and for which no caller has a request.
\<close>

theorem logged_headers_are_trusted:
  assumes "de_n_decrypted_fields D = decrypt_setter" and "data_plane_service E D K context feature req = (out, logs)"
    and "l \<in> set logs"
  shows "\<exists>rs i headers m m'. out = Answers rs \<and> add_ev_ctx_to_headers (le_headers (ly_log E)) i headers = Some (rs_headers rs)
    \<and> request_headers l = le_json (ly_log E) m \<and> response_headers l = le_json (ly_log E) m'
    \<and> m = convert_headers_to_map (le_headers (ly_log E)) (rq_headers req) (trusted_headers feature)
    \<and> m' = convert_headers_to_map (le_headers (ly_log E)) headers (trusted_headers feature)
    \<and> (\<forall>k v. m k = Some v \<or> m' k = Some v \<longrightarrow>
         v = ''***'' \<or> k \<notin> {''authorization'', ''proxy-authorization'', ''api-key''}
           \<and> (k \<in> set NON_SENSITIVE_HEADERS \<or> k \<in> set (trusted_headers feature)
              \<or> (\<exists>p. p @ ''*'' \<in> set (trusted_headers feature) \<and> prefix p k)))"
proof -
  let ?inner = "if api_key_auth feature then auth_call E context (decrypt_call D (forward_call E)) else decrypt_call D (forward_call E)"
  have inner: "keeps_headers (rq_context rq) (?inner rq)" for rq
    using decrypt_keeps [OF assms(1)] auth_keeps [of rq "decrypt_call D (forward_call E)"] by simp
  have log: "context_log_call E K context feature ?inner req = (out, logs)"
    using assms(2,3) by (auto simp: data_plane_service_def attest_call_def Let_def prod_eq_iff split: if_splits)
  have masked: "v = ''***'' \<or> k \<notin> {''authorization'', ''proxy-authorization'', ''api-key''}
      \<and> (k \<in> set NON_SENSITIVE_HEADERS \<or> k \<in> set (trusted_headers feature)
         \<or> (\<exists>p. p @ ''*'' \<in> set (trusted_headers feature) \<and> prefix p k))"
    if "convert_headers_to_map (le_headers (ly_log E)) headers (trusted_headers feature) k = Some v" for headers k v
    using convert_headers_entry [OF that] is_trusted_headerD [of "trusted_headers feature" k] by blast
  show ?thesis by (rule context_log_headers [OF log assms(3) inner]) (use masked in \<open>blast\<close>)
qed

text \<open>
  A content type or user agent with a byte outside visible ASCII, which is a valid header value,
  makes the log panic, although the conversion is marked as infallible: the request is not answered.
\<close>

theorem non_text_header_panics:
  assumes "hm_get (le_headers (ly_log E)) (rq_headers req) name = Some v" and "header_to_str (le_headers (ly_log E)) v = None"
    and "name = ''content-type'' \<or> name = ''user-agent''" and "\<not> is_attestation_request req"
  shows "data_plane_service E D K context feature req = (Panic, [])"
proof -
  have "header_text (ly_log E) (rq_headers req) name = None" using assms(1,2) by (simp add: header_text_def)
  then have "init_request_context (ly_log E) (tk_timestamp K) (tk_trx_id K) context feature req = None"
    using assms(3) by (auto simp: init_request_context_def add_req_to_trx_context_def Let_def split: option.splits)
  then show ?thesis
    using assms(4) by (simp add: data_plane_service_def attest_call_def context_log_call_def Let_def)
qed

section \<open>A concrete stack\<close>

definition sample_layers :: "(string \<times> bytes) list layer_env" where
  "sample_layers =
     \<lparr>ly_log = \<lparr>le_headers = ref_headers, le_json = (\<lambda>_. Some ''{}''), le_json_nulls = (\<lambda>_. Some ''{}'')\<rparr>, ly_hash = id,
      ly_authenticate = (\<lambda>k _. if k = ''good'' then Inr () else Inl (FailedRequest 401)),
      ly_auth_body = (\<lambda>_. ''denied''),
      ly_client = (\<lambda>rq. Some \<lparr>rs_version = ''HTTP/1.1'', rs_status = 201, rs_headers = [], rs_body = Some ''ok'', rs_context = None\<rparr>),
      ly_forward_body = ''down'', ly_nsm = \<lparr>nsm_open = True, nsm_random = Some ''nonce'', nsm_attest = (\<lambda>_ n. NsmDocument n)\<rparr>,
      ly_cert = None, ly_doc_body = id, ly_attest_body = (\<lambda>_. ''error'')\<rparr>"

definition sample_decrypt :: "((string \<times> bytes) list, string, TrxContextBuilder) decrypt_env" where
  "sample_decrypt =
     \<lparr>de_headers = ref_headers, de_is_match = (\<lambda>_. False), de_value_from = id, de_to_vec = Some,
      de_reader = (\<lambda>b. map Inr sample_frames), de_decrypt = Inr, de_error_body = (\<lambda>_. ''error''),
      de_n_decrypted_fields = decrypt_setter\<rparr>"

definition sample_clock :: trx_clock where
  "sample_clock = \<lparr>tk_timestamp = ''now'', tk_trx_id = ''AB12'', tk_started = 5000000, tk_now = 8000000\<rparr>"

definition sample_enclave :: EnclaveContext where
  "sample_enclave = \<lparr>ec_team_uuid = ''team'', ec_app_uuid = ''app'', ec_uuid = ''uuid'', ec_name = ''name''\<rparr>"

definition sample_feature :: FeatureContext where
  "sample_feature = \<lparr>api_key_auth = True, healthcheck = None, healthcheck_port = None, healthcheck_use_tls = None,
     trx_logging_enabled = True, forward_proxy_protocol = False, trusted_headers = []\<rparr>"

definition sample_trx_request :: "(string \<times> bytes) list \<Rightarrow> (string \<times> bytes) list trx_request" where
  "sample_trx_request headers = \<lparr>rq_method = ''POST'', rq_path = ''/pay'', rq_query = None, rq_headers = headers,
     rq_body = Some (ct_encode sample_ciphertext), rq_context = None, rq_remote_ip = None\<rparr>"

lemma sample_env_ok:
  "decrypt_env_ok nom_ref sample_decrypt (rq_body (sample_trx_request headers))" "client_answers_ok sample_layers"
  using sample_reader_run
  by (auto simp: decrypt_env_ok_def sample_decrypt_def sample_trx_request_def client_answers_ok_def sample_layers_def
      header_text_def ref_headers_def)


theorem logged_headers_are_trusted_witness:
  "\<exists>out l m. data_plane_service sample_layers sample_decrypt sample_clock sample_enclave sample_feature
      (sample_trx_request [(''api-key'', ''bad''), (''accept'', ''*'')]) = (out, [l])
    \<and> request_headers l = le_json (ly_log sample_layers) m \<and> m ''api-key'' = Some ''***'' \<and> m ''accept'' = Some ''*''"
proof -
  let ?req = "sample_trx_request [(''api-key'', ''bad''), (''accept'', ''*'')]"
  let ?run = "data_plane_service sample_layers sample_decrypt sample_clock sample_enclave sample_feature ?req"
  let ?m = "convert_headers_to_map (le_headers (ly_log sample_layers)) (rq_headers ?req) (trusted_headers sample_feature)"
  have "\<exists>rs l. ?run = (Answers rs, [l])"
    using data_plane_answers_and_logs [OF ref_hm.header_map_axioms, of sample_layers sample_decrypt nom_ref ?req sample_clock
        sample_enclave sample_feature] sample_env_ok nom_impl.nom_streaming_axioms
    by (auto simp: sample_layers_def sample_decrypt_def sample_clock_def sample_feature_def sample_trx_request_def
        header_text_def ref_headers_def is_attestation_request_def ref_key_def ref_header_name_def to_lower_def
        byte_in_def is_ascii_alphanumeric_def)
  then obtain out l where run: "?run = (out, [l])" by blast
  have m: "?m ''api-key'' = Some ''***''" "?m ''accept'' = Some ''*''" by code_simp+
  have "de_n_decrypted_fields sample_decrypt = decrypt_setter" by (simp add: sample_decrypt_def)
  from logged_headers_are_trusted [OF this run] have "request_headers l = le_json (ly_log sample_layers) ?m" by auto
  with run m show ?thesis by blast
qed

theorem unauthenticated_requests_are_stopped_witness:
  "data_plane_service (sample_layers\<lparr>ly_client := (\<lambda>_. None)\<rparr>) sample_decrypt sample_clock sample_enclave sample_feature
      (sample_trx_request [(''api-key'', ''bad'')])
    = data_plane_service sample_layers sample_decrypt sample_clock sample_enclave sample_feature
      (sample_trx_request [(''api-key'', ''bad'')])"
proof -
  let ?req = "sample_trx_request [(''api-key'', ''bad'')]"
  have k: "auth_request sample_layers sample_enclave key \<noteq> Inr ()"
    if "hm_get (le_headers (ly_log sample_layers)) (rq_headers ?req) ''api-key'' = Some key" for key
  proof -
    have "hm_get (le_headers (ly_log sample_layers)) (rq_headers ?req) ''api-key'' = Some ''bad''" by code_simp
    moreover have "auth_request sample_layers sample_enclave ''bad'' = Inl FailedToAuthenticateApiKey" by code_simp
    ultimately show ?thesis using that by simp
  qed
  have h: "header_map (le_headers (ly_log sample_layers))"
    by (simp add: sample_layers_def ref_hm.header_map_axioms)
  have s: "api_key_auth sample_feature" "\<not> is_attestation_request ?req"
    by (simp_all add: sample_feature_def is_attestation_request_def sample_trx_request_def)
  show ?thesis using unauthenticated_requests_are_stopped [OF h s k] by blast
qed

theorem non_text_header_panics_witness:
  "data_plane_service sample_layers sample_decrypt sample_clock sample_enclave sample_feature
      (sample_trx_request [(''content-type'', [CHR 0xE9])]) = (Panic, [])"
proof -
  let ?req = "sample_trx_request [(''content-type'', [CHR 0xE9])]"
  have g: "hm_get (le_headers (ly_log sample_layers)) (rq_headers ?req) ''content-type'' = Some [CHR 0xE9]"
    "header_to_str (le_headers (ly_log sample_layers)) [CHR 0xE9] = None" by code_simp+
  show ?thesis
    using non_text_header_panics [OF g] by (simp add: is_attestation_request_def sample_trx_request_def)
qed

end
