(* ===== verification/Cert_Resolver.thy ===== *)
theory Cert_Resolver
  imports Service_Layers Ip_Address
begin

text \<open>
  The choice of the certificate of a TLS handshake, \<open>data-plane/src/server/tls/cert_resolver.rs\<close>, with
  the names of \<open>data-plane/src/lib.rs\<close> and the hexadecimal form of \<open>shared/src/utils.rs\<close>. A certificate
  is the fields the code sets; key generation, signing, base64 and the parsing of an attestation
  document are parameters. A panic is \<open>None\<close>. The lock of the container is modelled with its poisoning:
  a panic under the write lock makes every later access panic.
\<close>

unbundle bit_operations_syntax

section \<open>Names\<close>

definition hyphenated_app_uuid :: "EnclaveContext \<Rightarrow> string" where
  "hyphenated_app_uuid c = map (\<lambda>x. if x = CHR ''_'' then CHR ''-'' else x) (ec_app_uuid c)"

definition get_cert_name :: "EnclaveContext \<Rightarrow> string" where
  "get_cert_name c = ec_name c @ ''.'' @ ec_app_uuid c @ ''.cages.evervault.com''"

definition get_hyphenated_cert_name :: "EnclaveContext \<Rightarrow> string" where
  "get_hyphenated_cert_name c = ec_name c @ ''.'' @ hyphenated_app_uuid c @ ''.cages.evervault.com''"

definition get_cert_names :: "EnclaveContext \<Rightarrow> string list" where
  "get_cert_names c = [get_cert_name c, get_hyphenated_cert_name c]"

definition get_trusted_cert_domains :: "EnclaveContext \<Rightarrow> string list" where
  "get_trusted_cert_domains c =
     map (\<lambda>domain. ec_name c @ ''.'' @ hyphenated_app_uuid c @ ''.'' @ domain)
       [''cage.evervault.com'', ''enclave.evervault.com'']"

definition lower_hex :: "bytes \<Rightarrow> string" where
  "lower_hex bs = concat (map (\<lambda>b. let n = of_char b :: nat in [hex_digit (n div 16), hex_digit (n mod 16)]) bs)"

definition extract_nonce_from_servername :: "(string \<Rightarrow> bytes option) \<Rightarrow> string \<Rightarrow> bytes option" where
  "extract_nonce_from_servername base64_decode received_servername =
     (case split_on CHR ''.'' received_servername of
        t0 # t1 # _ # _ \<Rightarrow> if t1 = ''attest'' then base64_decode t0 else None
      | _ \<Rightarrow> None)"

definition is_trusted_cert_domain :: "string option \<Rightarrow> bool" where
  "is_trusted_cert_domain received_servername =
     (case received_servername of
        Some servername \<Rightarrow>
         (case rev (split_on CHR ''.'' servername) of
            _ # _ # subdomain # _ \<Rightarrow> subdomain = ''cage'' \<or> subdomain = ''enclave''
          | _ \<Rightarrow> False)
      | None \<Rightarrow> False)"

section \<open>Certificates\<close>

record x509 =
  x_common_name :: "string option"
  x_issuer :: "string option"
  x_public_key :: bytes
  x_dns_names :: "string list"
  x_not_before :: nat
  x_not_after :: nat

record CertifiedKey =
  ck_chain :: "x509 list"
  ck_key :: bytes

datatype TlsError = NoHostnameSpecified | Attestation AttestationError | OpensslError | SignError | PemError | TryFromIntError

text \<open>
  What a handshake finds outside: the time in seconds, the key pair OpenSSL generates, the security module,
  the end of validity of an attestation document, and whether assembling and signing the certificate fails.
\<close>

record resolver_env =
  rv_now :: nat
  rv_key_pair :: "bytes option"
  rv_nsm :: nsm
  rv_expiry_time :: "bytes \<Rightarrow> (AttestationError, nat) result"
  rv_sign :: "TlsError option"

text \<open>Of the subject only the common name depends on the input: a name of at most 64 characters.\<close>

definition generate_csr :: "string list \<Rightarrow> string option" where
  "generate_csr hostnames =
     (case hostnames of
        first_hostname # _ \<Rightarrow> if length first_hostname < 65 then Some first_hostname else None
      | [] \<Rightarrow> None)"

text \<open>\<open>append_attestation_info\<close>: the document is unwrapped, so that failing to get one is a panic.\<close>

definition append_attestation_info ::
  "resolver_env \<Rightarrow> string list \<Rightarrow> bytes option \<Rightarrow> bytes option \<Rightarrow> string list \<Rightarrow> (TlsError, nat \<times> string list) result option" where
  "append_attestation_info V hostnames challenge nonce san_ext =
     (case get_attestation_doc (rv_nsm V) challenge nonce of
        Inl _ \<Rightarrow> None
      | Inr attestation_doc \<Rightarrow>
         Some (case rv_expiry_time V attestation_doc of
                 Inl e \<Rightarrow> Inl (Attestation e)
               | Inr expiry \<Rightarrow>
                   Inr (expiry, san_ext @ map (\<lambda>hostname. lower_hex attestation_doc @ ''.'' @ hostname) hostnames)))"

text \<open>The key pair of the certificate is one value; the key of the CA is not modelled, its signature is the issuer in the certificate.\<close>

definition generate_self_signed_cert ::
  "resolver_env \<Rightarrow> x509 \<Rightarrow> string list \<Rightarrow> bytes option \<Rightarrow> (TlsError, nat \<times> CertifiedKey) result option" where
  "generate_self_signed_cert V signing_cert hostnames nonce =
     (if hostnames = [] then Some (Inl NoHostnameSpecified)
      else (case rv_key_pair V of
        None \<Rightarrow> Some (Inl OpensslError)
      | Some key_pair \<Rightarrow>
         if rv_now V < 10 then Some (Inl TryFromIntError)
         else (case append_attestation_info V hostnames (Some key_pair) nonce hostnames of
           None \<Rightarrow> None
         | Some (Inl e) \<Rightarrow> Some (Inl e)
         | Some (Inr (expiry_time, san_ext)) \<Rightarrow>
            (case rv_sign V of
               Some e \<Rightarrow> Some (Inl e)
             | None \<Rightarrow>
                (let leaf_cert = \<lparr>x_common_name = generate_csr hostnames, x_issuer = x_common_name signing_cert,
                       x_public_key = key_pair, x_dns_names = san_ext, x_not_before = rv_now V - 10,
                       x_not_after = rv_now V + 365 * 86400\<rparr>
                 in Some (Inr (expiry_time, \<lparr>ck_chain = [leaf_cert, signing_cert], ck_key = key_pair\<rparr>)))))))"

section \<open>The container\<close>

record CertContainer =
  cc_expiry :: nat
  cc_cert :: CertifiedKey
  cc_poisoned :: bool

definition container_new :: "nat \<Rightarrow> CertifiedKey \<Rightarrow> CertContainer" where
  "container_new created_at cert = \<lparr>cc_expiry = created_at, cc_cert = cert, cc_poisoned = False\<rparr>"

type_synonym new_cert = "(TlsError, nat \<times> CertifiedKey) result option"

definition rotate_cert ::
  "nat \<Rightarrow> new_cert \<Rightarrow> CertContainer \<Rightarrow> (TlsError, CertifiedKey) result option \<times> CertContainer" where
  "rotate_cert now create_new_cert c =
     (if cc_poisoned c then (None, c)
      else if \<not> now < cc_expiry c then
        (case create_new_cert of
           None \<Rightarrow> (None, c\<lparr>cc_poisoned := True\<rparr>)
         | Some (Inl e) \<Rightarrow> (Some (Inl e), c)
         | Some (Inr (expiry, new_cert)) \<Rightarrow> (Some (Inr new_cert), c\<lparr>cc_expiry := expiry, cc_cert := new_cert\<rparr>))
      else (Some (Inr (cc_cert c)), c))"

definition resolve_cert :: "nat \<Rightarrow> new_cert \<Rightarrow> CertContainer \<Rightarrow> CertifiedKey option \<times> CertContainer" where
  "resolve_cert now create_new_cert c =
     (if cc_poisoned c then (None, c)
      else if now < cc_expiry c then (Some (cc_cert c), c)
      else (case rotate_cert now create_new_cert c of
              (None, c') \<Rightarrow> (None, c')
            | (Some (Inl _), c') \<Rightarrow> (Some (cc_cert c'), c')
            | (Some (Inr cert), c') \<Rightarrow> (Some cert, c')))"

record AttestableCertResolver =
  ar_context :: EnclaveContext
  ar_internal_ca :: x509
  ar_container :: CertContainer

definition resolver_new :: "resolver_env \<Rightarrow> EnclaveContext \<Rightarrow> x509 \<Rightarrow> (TlsError, AttestableCertResolver) result option" where
  "resolver_new V context internal_ca =
     map_option (map_sum id (\<lambda>(created_at, cert).
         \<lparr>ar_context = context, ar_internal_ca = internal_ca, ar_container = container_new created_at cert\<rparr>))
       (generate_self_signed_cert V internal_ca (get_cert_names context) None)"

text \<open>
  \<open>resolve_cert_using_sni\<close>: the result (\<open>None\<close>: a panic; \<open>Some None\<close>: no certificate) and the resolver after
  it. The trusted certificate is \<open>None\<close> when its lock is not free.
\<close>

definition resolve_cert_using_sni ::
  "(string \<Rightarrow> bytes option) \<Rightarrow> resolver_env \<Rightarrow> CertifiedKey option option \<Rightarrow> AttestableCertResolver \<Rightarrow> string option \<Rightarrow>
   CertifiedKey option option \<times> AttestableCertResolver" where
  "resolve_cert_using_sni base64_decode V trusted_cert_store R server_name =
     (let sni_header = (case server_name of Some s \<Rightarrow> s | None \<Rightarrow> get_cert_name (ar_context R));
          base = (case resolve_cert (rv_now V)
                         (generate_self_signed_cert V (ar_internal_ca R) (get_cert_names (ar_context R)) None) (ar_container R) of
                    (cert, c) \<Rightarrow> (map_option Some cert, R\<lparr>ar_container := c\<rparr>))
      in case Option.bind server_name (extract_nonce_from_servername base64_decode) of
           Some nonce \<Rightarrow>
             (map_option (\<lambda>r. case r of Inr (_, cert) \<Rightarrow> Some cert | Inl _ \<Rightarrow> None)
                (generate_self_signed_cert V (ar_internal_ca R) [sni_header] (Some nonce)), R)
         | None \<Rightarrow>
             if is_trusted_cert_domain server_name
             then (case trusted_cert_store of Some (Some cert) \<Rightarrow> (Some (Some cert), R) | _ \<Rightarrow> base)
             else base)"

section \<open>The intermediate CA\<close>

text \<open>
  \<open>get_ca_with_retry\<close>: the delay before the next attempt in milliseconds, without the jitter of 50 to 150, and
  the loop over the outcomes of the attempts: the delays it sleeps and the CA (\<open>None\<close> while it still tries).
  In Rust \<open>2 ^ attempts\<close> is the exclusive or.
\<close>

definition ca_retry_delay :: "64 word \<Rightarrow> 64 word" where
  "ca_retry_delay attempts = (2 XOR attempts) * 100"

fun get_ca_with_retry :: "64 word \<Rightarrow> ('e, 'ca) result list \<Rightarrow> 64 word list \<times> 'ca option" where
  "get_ca_with_retry attempts [] = ([], None)"
| "get_ca_with_retry attempts (Inr ca # rs) = ([], Some ca)"
| "get_ca_with_retry attempts (Inl e # rs) =
     (if attempts < 7
      then map_prod (\<lambda>ds. ca_retry_delay attempts # ds) id (get_ca_with_retry (attempts + 1) rs)
      else map_prod (\<lambda>ds. 20000 # ds) id (get_ca_with_retry attempts rs))"

lemma ca_retries_without_bound:
  "list_all (\<lambda>r. \<exists>e. r = Inl e) rs \<Longrightarrow> snd (get_ca_with_retry attempts (rs @ [Inr ca])) = Some ca"
  by (induction rs arbitrary: attempts) auto

lemma ca_delays_not_exponential: "map ca_retry_delay [0, 1, 2, 3, 4, 5, 6] = [200, 300, 0, 100, 600, 700, 400]"
  by (simp add: ca_retry_delay_def)

section \<open>Attestation documents in names\<close>

definition hex_value :: "char \<Rightarrow> nat" where
  "hex_value c = (let n = of_char c in if n < 58 then n - 48 else n - 87)"

fun from_hex :: "string \<Rightarrow> bytes" where
  "from_hex (a # b # r) = char_of (16 * hex_value a + hex_value b) # from_hex r"
| "from_hex _ = []"

lemma hex_value_digit [simp]: "d < 16 \<Longrightarrow> hex_value (hex_digit d) = d"
  by (auto simp: hex_value_def hex_digit_def Let_def)

lemma hex_digit_not_dot: "d < 16 \<Longrightarrow> hex_digit d \<noteq> CHR ''.''"
  using hex_value_digit [of d] by (auto simp: hex_value_def hex_digit_def Let_def of_char_of split: if_splits dest!: arg_cong [where f = "of_char :: char \<Rightarrow> nat"])

lemma of_char_less: "(of_char b :: nat) div 16 < 16"
  by (simp add: less_mult_imp_div_less)

lemma lower_hex_simps [simp]:
  "lower_hex [] = []"
  "lower_hex (b # bs) = hex_digit (of_char b div 16) # hex_digit (of_char b mod 16) # lower_hex bs"
  by (simp_all add: lower_hex_def Let_def)

lemma from_hex_lower_hex [simp]: "from_hex (lower_hex bs) = bs"
  by (induction bs) (simp_all add: of_char_less)

lemma lower_hex_no_dot: "CHR ''.'' \<notin> set (lower_hex bs)"
  by (induction bs) (use hex_digit_not_dot of_char_less in \<open>auto simp: eq_commute [of "CHR ''.''"]\<close>)

definition attested_names :: "bytes \<Rightarrow> string list \<Rightarrow> string list" where
  "attested_names doc hostnames = map (\<lambda>hostname. lower_hex doc @ ''.'' @ hostname) hostnames"

lemma attested_name_doc: "from_hex (takeWhile (\<lambda>c. c \<noteq> CHR ''.'') (lower_hex doc @ ''.'' @ h)) = doc"
proof -
  have "takeWhile (\<lambda>c. c \<noteq> CHR ''.'') (lower_hex doc @ ''.'' @ h) = lower_hex doc"
    using lower_hex_no_dot [of doc] by (subst takeWhile_append2) auto
  then show ?thesis by simp
qed

text \<open>
  A certificate made by the resolver: signed by the internal CA, for the given names and, per name, a name
  that starts with a document which the security module of one of the environments made over the key of
  the certificate.
\<close>

definition attests :: "resolver_env list \<Rightarrow> x509 \<Rightarrow> string list \<Rightarrow> CertifiedKey \<Rightarrow> bool" where
  "attests Vs ca hostnames cert \<longleftrightarrow>
     (\<exists>leaf doc nonce. ck_chain cert = [leaf, ca] \<and> x_issuer leaf = x_common_name ca \<and> x_public_key leaf = ck_key cert
        \<and> x_dns_names leaf = hostnames @ attested_names doc hostnames
        \<and> list_ex (\<lambda>V. get_attestation_doc (rv_nsm V) (Some (ck_key cert)) nonce = Inr doc) Vs)"

lemma generate_attests:
  assumes "generate_self_signed_cert V ca hostnames nonce = Some (Inr (e, cert))"
  shows "attests [V] ca hostnames cert"
  using assms
  by (auto simp: generate_self_signed_cert_def append_attestation_info_def attests_def attested_names_def Let_def
      split: if_splits option.splits sum.splits intro!: exI)

lemma attests_mono: "attests Vs ca h cert \<Longrightarrow> set Vs \<subseteq> set Us \<Longrightarrow> attests Us ca h cert"
  by (fastforce simp: attests_def list_ex_iff)

lemma generate_panics:
  "generate_self_signed_cert V ca hostnames nonce = None \<longleftrightarrow>
     hostnames \<noteq> [] \<and> 10 \<le> rv_now V
     \<and> (\<exists>key e. rv_key_pair V = Some key \<and> get_attestation_doc (rv_nsm V) (Some key) nonce = Inl e)"
  by (auto simp: generate_self_signed_cert_def append_attestation_info_def Let_def
      split: option.splits sum.splits)

section \<open>Handshakes\<close>

text \<open>The certificate of the container, and what a handshake keeps of it.\<close>

lemma resolve_cert_keeps:
  assumes "P (cc_cert c)" and "\<And>e cert. create = Some (Inr (e, cert)) \<Longrightarrow> P cert"
    and "resolve_cert now create c = (r, c')"
  shows "P (cc_cert c') \<and> (\<forall>cert. r = Some cert \<longrightarrow> P cert)"
  using assms
  by (auto simp: resolve_cert_def rotate_cert_def split: if_splits option.splits sum.splits prod.splits)

lemma resolve_base:
  assumes "attests Vs (ar_internal_ca R) (get_cert_names (ar_context R)) (cc_cert (ar_container R))"
    and "resolve_cert (rv_now V) (generate_self_signed_cert V (ar_internal_ca R) (get_cert_names (ar_context R)) None)
      (ar_container R) = (r, c)"
  shows "attests (V # Vs) (ar_internal_ca R) (get_cert_names (ar_context R)) (cc_cert c)
    \<and> (\<forall>cert. r = Some cert \<longrightarrow> attests (V # Vs) (ar_internal_ca R) (get_cert_names (ar_context R)) cert)"
  using assms by (intro resolve_cert_keeps [OF _ _ assms(2)]) (auto dest!: generate_attests intro: attests_mono)

type_synonym handshake = "resolver_env \<times> CertifiedKey option option \<times> string option"

fun handshakes :: "(string \<Rightarrow> bytes option) \<Rightarrow> AttestableCertResolver \<Rightarrow> handshake list \<Rightarrow> CertifiedKey option option list" where
  "handshakes base64_decode R [] = []"
| "handshakes base64_decode R ((V, trusted, server_name) # hs) =
     (case resolve_cert_using_sni base64_decode V trusted R server_name of
        (r, R') \<Rightarrow> r # handshakes base64_decode R' hs)"

text \<open>
  What a handshake may serve: the trusted certificate, a certificate for the names of the enclave, or, for a
  server name with a nonce, one for that server name.
\<close>

definition may_serve ::
  "resolver_env list \<Rightarrow> EnclaveContext \<Rightarrow> x509 \<Rightarrow> handshake \<Rightarrow> CertifiedKey option option \<Rightarrow> bool" where
  "may_serve Vs context ca h r \<longleftrightarrow>
     (case r of
        Some (Some cert) \<Rightarrow>
          (case h of (V, trusted, server_name) \<Rightarrow>
             trusted = Some (Some cert) \<and> is_trusted_cert_domain server_name
             \<or> attests Vs ca (get_cert_names context) cert
             \<or> (\<exists>s. server_name = Some s \<and> attests Vs ca [s] cert))
      | _ \<Rightarrow> True)"

lemma may_serve_mono: "may_serve Vs context ca h r \<Longrightarrow> set Vs \<subseteq> set Us \<Longrightarrow> may_serve Us context ca h r"
  by (auto simp: may_serve_def attests_mono split: option.splits prod.splits)

lemma resolve_step:
  assumes "attests Vs (ar_internal_ca R) (get_cert_names (ar_context R)) (cc_cert (ar_container R))"
    and "resolve_cert_using_sni base64_decode V trusted R server_name = (r, R')"
  shows "ar_context R' = ar_context R \<and> ar_internal_ca R' = ar_internal_ca R
    \<and> attests (V # Vs) (ar_internal_ca R) (get_cert_names (ar_context R)) (cc_cert (ar_container R'))
    \<and> may_serve (V # Vs) (ar_context R) (ar_internal_ca R) (V, trusted, server_name) r"
proof -
  obtain cert c where b: "resolve_cert (rv_now V)
      (generate_self_signed_cert V (ar_internal_ca R) (get_cert_names (ar_context R)) None) (ar_container R) = (cert, c)"
    by fastforce
  note base = resolve_base [OF assms(1) b]
  have keep: "attests (V # Vs) (ar_internal_ca R) (get_cert_names (ar_context R)) (cc_cert (ar_container R))"
    by (rule attests_mono [OF assms(1)]) auto
  show ?thesis
  proof (cases "Option.bind server_name (extract_nonce_from_servername base64_decode)")
    case None
    then show ?thesis
      using assms(2) b base keep
      by (auto simp: resolve_cert_using_sni_def may_serve_def Let_def split: if_splits option.splits)
  next
    case (Some nonce)
    then obtain s where "server_name = Some s" by (cases server_name) auto
    then show ?thesis
      using assms(2) b Some keep
      by (auto simp: resolve_cert_using_sni_def may_serve_def Let_def split: option.splits sum.splits
          dest!: generate_attests intro: attests_mono [of "[V]"])
  qed
qed

lemma handshakes_served:
  assumes "attests Vs (ar_internal_ca R) (get_cert_names (ar_context R)) (cc_cert (ar_container R))"
  shows "list_all2 (may_serve (Vs @ map fst hs) (ar_context R) (ar_internal_ca R)) hs (handshakes base64_decode R hs)"
  using assms
proof (induction hs arbitrary: R Vs)
  case (Cons h hs)
  obtain V trusted server_name where h: "h = (V, trusted, server_name)" by (cases h)
  obtain r R' where s: "resolve_cert_using_sni base64_decode V trusted R server_name = (r, R')" by fastforce
  note step = resolve_step [OF Cons.prems s]
  then have "list_all2 (may_serve ((V # Vs) @ map fst hs) (ar_context R) (ar_internal_ca R)) hs (handshakes base64_decode R' hs)"
    using Cons.IH [of "V # Vs" R'] by simp
  then have "list_all2 (may_serve (Vs @ map fst (h # hs)) (ar_context R) (ar_internal_ca R)) hs (handshakes base64_decode R' hs)"
    by (rule list_all2_mono) (auto simp: h elim!: may_serve_mono)
  moreover have "may_serve (Vs @ map fst (h # hs)) (ar_context R) (ar_internal_ca R) h r"
    using step by (auto simp: h elim!: may_serve_mono)
  ultimately show ?case by (simp add: h s)
qed simp

text \<open>
  Whatever handshakes follow the start of the resolver, a certificate that is served is the trusted one
  (for a trusted domain only) or is signed by the internal CA, is bound to its key by an attestation document
  of the security module, and names the enclave or, when a nonce was asked for, the requested host.
\<close>

theorem served_certificates_attest_enclave:
  assumes "resolver_new V0 context ca = Some (Inr R)"
  shows "list_all2 (may_serve (V0 # map fst hs) context ca) hs (handshakes base64_decode R hs)"
proof -
  from assms obtain e cert where g: "generate_self_signed_cert V0 ca (get_cert_names context) None = Some (Inr (e, cert))"
    and R: "R = \<lparr>ar_context = context, ar_internal_ca = ca, ar_container = container_new e cert\<rparr>"
    by (cases "generate_self_signed_cert V0 ca (get_cert_names context) None" rule: option.exhaust)
      (auto simp: resolver_new_def sum.map_id elim!: map_sum_eq_Inr)
  from generate_attests [OF g]
  have "attests [V0] ca (get_cert_names context) (cc_cert (ar_container R)) \<and> ar_context R = context \<and> ar_internal_ca R = ca"
    by (simp add: R container_new_def)
  then show ?thesis using handshakes_served [of "[V0]" R hs base64_decode] by simp
qed

lemma nonce_of_servername:
  assumes "base64_decode encoded = Some nonce" and "CHR ''.'' \<notin> set encoded"
  shows "extract_nonce_from_servername base64_decode (encoded @ ''.attest.'' @ domain) = Some nonce"
proof -
  have "split_on CHR ''.'' (encoded @ ''.attest.'' @ domain) = encoded # ''attest'' # split_on CHR ''.'' domain"
    using assms(2) split_on_append_sep [of "CHR ''.''" encoded "''attest.'' @ domain"]
      split_on_append_sep [of "CHR ''.''" "''attest''" domain] by simp
  moreover obtain d ds where "split_on CHR ''.'' domain = d # ds" by (cases "split_on CHR ''.'' domain") auto
  ultimately show ?thesis using assms(1) by (simp add: extract_nonce_from_servername_def)
qed

text \<open>
  (C39) A request for \<open><nonce>.attest.<domain>\<close> is answered with a fresh certificate for exactly that name whose
  attestation document, which can be read back from the name it is embedded in, is the one the security
  module makes over the nonce of the client and the key of the certificate; the base certificate is not
  touched.
\<close>

theorem nonce_request_gets_fresh_attestation:
  assumes "base64_decode encoded = Some nonce" and "CHR ''.'' \<notin> set encoded" and "10 \<le> rv_now V"
    and "rv_key_pair V = Some key" and "get_attestation_doc (rv_nsm V) (Some key) (Some nonce) = Inr doc"
    and "rv_expiry_time V doc = Inr expiry" and "rv_sign V = None"
  shows "\<exists>leaf name. resolve_cert_using_sni base64_decode V trusted R (Some (encoded @ ''.attest.'' @ domain))
      = (Some (Some \<lparr>ck_chain = [leaf, ar_internal_ca R], ck_key = key\<rparr>), R)
    \<and> x_public_key leaf = key \<and> x_dns_names leaf = [encoded @ ''.attest.'' @ domain, name]
    \<and> from_hex (takeWhile (\<lambda>c. c \<noteq> CHR ''.'') name) = doc"
proof -
  let ?s = "encoded @ ''.attest.'' @ domain"
  note nonce = nonce_of_servername [where base64_decode = base64_decode and domain = domain, OF assms(1,2)]
  have "\<exists>leaf e. generate_self_signed_cert V (ar_internal_ca R) [?s] (Some nonce)
      = Some (Inr (e, \<lparr>ck_chain = [leaf, ar_internal_ca R], ck_key = key\<rparr>))
    \<and> x_public_key leaf = key \<and> x_dns_names leaf = [?s, lower_hex doc @ ''.'' @ ?s]"
    using assms(3-7) by (simp add: generate_self_signed_cert_def append_attestation_info_def Let_def)
  with nonce attested_name_doc [of doc ?s] show ?thesis
    by (force simp: resolve_cert_using_sni_def Let_def)
qed

text \<open>
  A handshake panics exactly when it needs a new certificate and the security module gives no
  attestation document for it; every other failure leaves the previous certificate (or none) to be served.
\<close>

theorem handshake_panics_iff_attestation_fails:
  assumes "\<not> cc_poisoned (ar_container R)"
  shows "fst (resolve_cert_using_sni base64_decode V trusted R server_name) = None \<longleftrightarrow>
    (let nonce = Option.bind server_name (extract_nonce_from_servername base64_decode);
         fresh = (nonce \<noteq> None
           \<or> cc_expiry (ar_container R) \<le> rv_now V \<and> \<not> (is_trusted_cert_domain server_name \<and> Option.bind trusted id \<noteq> None))
     in fresh \<and> 10 \<le> rv_now V
        \<and> (\<exists>key e. rv_key_pair V = Some key \<and> get_attestation_doc (rv_nsm V) (Some key) nonce = Inl e))"
proof -
  have base: "fst (resolve_cert (rv_now V) create (ar_container R)) = None \<longleftrightarrow>
      cc_expiry (ar_container R) \<le> rv_now V \<and> create = None" for create
    using assms by (auto simp: resolve_cert_def rotate_cert_def split: option.splits sum.splits)
  have names: "get_cert_names (ar_context R) \<noteq> []" by (simp add: get_cert_names_def)
  show ?thesis
  proof (cases "Option.bind server_name (extract_nonce_from_servername base64_decode)")
    case None
    then show ?thesis
      using base [of "generate_self_signed_cert V (ar_internal_ca R) (get_cert_names (ar_context R)) None"] names
      by (auto simp: resolve_cert_using_sni_def generate_panics Let_def split: option.splits prod.splits)
  next
    case (Some nonce)
    then show ?thesis by (simp add: resolve_cert_using_sni_def generate_panics Let_def)
  qed
qed

section \<open>A concrete resolver\<close>

definition sample_resolver_env :: resolver_env where
  "sample_resolver_env = \<lparr>rv_now = 100, rv_key_pair = Some ''key'',
     rv_nsm = \<lparr>nsm_open = True, nsm_random = Some ''rnd'', nsm_attest = (\<lambda>c n. NsmDocument (the c @ n))\<rparr>,
     rv_expiry_time = (\<lambda>_. Inr 200), rv_sign = None\<rparr>"

definition sample_ca :: x509 where
  "sample_ca = \<lparr>x_common_name = Some ''ca'', x_issuer = None, x_public_key = ''cakey'', x_dns_names = [],
     x_not_before = 0, x_not_after = 1000\<rparr>"

definition sample_resolver :: AttestableCertResolver where
  "sample_resolver = (case resolver_new sample_resolver_env sample_enclave sample_ca of
     Some (Inr R) \<Rightarrow> R
   | _ \<Rightarrow> \<lparr>ar_context = sample_enclave, ar_internal_ca = sample_ca,
            ar_container = container_new 0 \<lparr>ck_chain = [], ck_key = []\<rparr>\<rparr>)"

lemma sample_resolver_new: "resolver_new sample_resolver_env sample_enclave sample_ca = Some (Inr sample_resolver)"
  by (simp add: sample_resolver_def sample_resolver_env_def resolver_new_def generate_self_signed_cert_def
      append_attestation_info_def get_cert_names_def get_attestation_doc_def get_nonce_def Let_def)

theorem served_certificates_attest_enclave_witness:
  "list_all2 (may_serve [sample_resolver_env, sample_resolver_env] sample_enclave sample_ca)
     [(sample_resolver_env, None, Some ''name.app.cages.evervault.com'')]
     (handshakes Some sample_resolver [(sample_resolver_env, None, Some ''name.app.cages.evervault.com'')])"
  using served_certificates_attest_enclave [OF sample_resolver_new,
      of "[(sample_resolver_env, None, Some ''name.app.cages.evervault.com'')]" Some] by simp

theorem nonce_request_gets_fresh_attestation_witness:
  "\<exists>leaf name. resolve_cert_using_sni Some sample_resolver_env None sample_resolver (Some (''abc'' @ ''.attest.'' @ ''enclave''))
      = (Some (Some \<lparr>ck_chain = [leaf, ar_internal_ca sample_resolver], ck_key = ''key''\<rparr>), sample_resolver)
    \<and> x_public_key leaf = ''key'' \<and> x_dns_names leaf = [''abc'' @ ''.attest.'' @ ''enclave'', name]
    \<and> from_hex (takeWhile (\<lambda>c. c \<noteq> CHR ''.'') name) = ''keyabc''"
  by (rule nonce_request_gets_fresh_attestation [of Some "''abc''" "''abc''" sample_resolver_env "''key''" "''keyabc''" 200])
    (simp_all add: sample_resolver_env_def get_attestation_doc_def get_nonce_def)

theorem handshake_panics_iff_attestation_fails_witness:
  "fst (resolve_cert_using_sni Some (sample_resolver_env\<lparr>rv_now := 300,
      rv_nsm := \<lparr>nsm_open = False, nsm_random = None, nsm_attest = (\<lambda>_ _. NsmError)\<rparr>\<rparr>) None sample_resolver None) = None"
proof -
  have "\<not> cc_poisoned (ar_container sample_resolver)" and "cc_expiry (ar_container sample_resolver) = 200"
    by (simp_all add: sample_resolver_def sample_resolver_env_def resolver_new_def generate_self_signed_cert_def
        append_attestation_info_def get_cert_names_def get_attestation_doc_def get_nonce_def container_new_def Let_def)
  then show ?thesis
    by (subst handshake_panics_iff_attestation_fails)
      (simp_all add: sample_resolver_env_def get_attestation_doc_def is_trusted_cert_domain_def Let_def)
qed

end
