(* ===== verification/Acme_State.thy ===== *)
theory Acme_State
  imports Config_Client Cert_Resolver
begin

text \<open>
  The ground of the ACME client, \<open>data-plane/src/acme\<close>: its errors, the objects of the protocol, the services it
  calls and the computations it is written in. A computation changes a state that holds the services' own
  state, the nonce of the directory, the cached account, the trusted certificate store and the trace of
  what was sent, signed, stored and waited for; it returns a value or an error, or panics. The lemmas of the last
  sections carry invariants and bounds through the computations.
\<close>

section \<open>Objects\<close>

datatype AcmeError =
    AcIoError
  | AcHyperError
  | AcSerdeError
  | AcClientError string
  | AcHttpError
  | AcNoNonce
  | AcHeaderConversionError
  | AcOpenSSLError
  | AcUtf8Error
  | AcFromUtf8Error
  | AcCsrError string
  | AcFieldNotFound string
  | AcConfigClient DpError
  | AcE3ClientError ClientError
  | AcPEMError
  | AcRustlsSignError
  | AcSystemTimeError
  | AcGeneral string

datatype Provider = LetsEncrypt | ZeroSSL

fun directory_path :: "Provider \<Rightarrow> string" where
  "directory_path LetsEncrypt = ''/directory''"
| "directory_path ZeroSSL = ''/v2/DV90''"

fun hostname :: "Provider \<Rightarrow> string" where
  "hostname LetsEncrypt = ''acme-v02.api.letsencrypt.org''"
| "hostname ZeroSSL = ''acme.zerossl.com''"

fun eab_required :: "Provider \<Rightarrow> bool" where
  "eab_required LetsEncrypt = False"
| "eab_required ZeroSSL = True"

record Directory =
  dr_new_nonce_url :: string
  dr_new_account_url :: string
  dr_new_order_url :: string
  dr_revoke_cert_url :: string
  dr_key_change_url :: "string option"
  dr_new_authz_url :: "string option"

datatype AccountStatus = AccountValid | AccountDeactivated | AccountRevoked

record Account =
  ac_directory :: "Directory option"
  ac_id :: string
  ac_status :: AccountStatus
  ac_contact :: "string list option"
  ac_terms_of_service_agreed :: "bool option"
  ac_provider :: "Provider option"

datatype OrderStatus = OrderPending | OrderReady | OrderProcessing | OrderValid | OrderInvalid

definition is_done :: "OrderStatus \<Rightarrow> bool" where
  "is_done s \<longleftrightarrow> s = OrderValid \<or> s = OrderInvalid"

definition is_pending :: "OrderStatus \<Rightarrow> bool" where
  "is_pending s \<longleftrightarrow> s = OrderPending"

record Order =
  or_account :: "Account option"
  or_url :: string
  or_status :: OrderStatus
  or_identifiers :: "Identifier list"
  or_authorization_urls :: "string list"
  or_finalize_url :: string
  or_certificate_url :: "string option"

datatype ChallengeStatus = ChallengePending | ChallengeProcessing | ChallengeValid | ChallengeInvalid

record Challenge =
  ch_account :: "Account option"
  ch_type :: string
  ch_url :: string
  ch_status :: ChallengeStatus
  ch_token :: "string option"

datatype AuthorizationStatus =
  AuthPending | AuthValid | AuthInvalid | AuthDeactivated | AuthExpired | AuthRevoked

record Authorization =
  au_account :: "Account option"
  au_url :: string
  au_identifier :: Identifier
  au_status :: AuthorizationStatus
  au_challenges :: "Challenge list"

record JwkThumb =
  jt_crv :: string
  jt_kty :: string
  jt_x :: string
  jt_y :: string

definition thumb_of :: "Jwk \<Rightarrow> JwkThumb" where
  "thumb_of jwk = \<lparr>jt_crv = jwk_crv jwk, jt_kty = jwk_kty jwk, jt_x = jwk_x jwk, jt_y = jwk_y jwk\<rparr>"

record StorageLock =
  sl_name :: string
  sl_uuid :: string
  sl_expiry_time :: nat
  sl_attempts :: "nat option"

section \<open>Services\<close>

text \<open>Requests to the ACME server and its responses: the headers the code writes and reads, and the body when it can be read.\<close>

record acme_request =
  aq_method :: string
  aq_url :: string
  aq_content_type :: string
  aq_host :: string
  aq_body :: bytes

record acme_response =
  ap_status :: nat
  ap_replay_nonce :: "bytes option"
  ap_location :: "bytes option"
  ap_body :: "bytes option"

text \<open>The payloads of the signed requests, before they are written as JSON.\<close>

datatype acme_payload =
    EmptyObject
  | NewOrderPayload "Identifier list"
  | CsrPayload string
  | NewAccountPayload "string list option" "bool option" "bool option" "JwsResult option"

record acme_json =
  aj_directory :: "string \<Rightarrow> Directory option"
  aj_account :: "string \<Rightarrow> Account option"
  aj_order :: "string \<Rightarrow> Order option"
  aj_authorization :: "string \<Rightarrow> Authorization option"
  aj_challenge :: "string \<Rightarrow> Challenge option"
  aj_payload :: "acme_payload \<Rightarrow> string"
  aj_jws :: "JwsResult \<Rightarrow> bytes"
  aj_jwk :: "Jwk \<Rightarrow> string"
  aj_jwk_thumb :: "JwkThumb \<Rightarrow> string"
  aj_lock :: "StorageLock \<Rightarrow> string"
  aj_lock_from :: "string \<Rightarrow> StorageLock option"

text \<open>
  OpenSSL, \<open>http\<close> and \<open>pem\<close>: signing requests in DER, hashes, base64, certificates in PEM, keys, the text of a header
  and the URLs a request can be built for.
\<close>

record acme_crypto =
  ak_csr :: "PKey \<Rightarrow> string list \<Rightarrow> bytes option"
  ak_sha256 :: "bytes \<Rightarrow> bytes option"
  ak_b64 :: "bytes \<Rightarrow> string"
  ak_stack_from_pem :: "bytes \<Rightarrow> x509 list option"
  ak_to_pem :: "x509 \<Rightarrow> bytes option"
  ak_private_key_to_der :: "PKey \<Rightarrow> bytes option"
  ak_any_ecdsa_type :: "bytes \<Rightarrow> bool"
  ak_parse_pems :: "bytes \<Rightarrow> x509 list option"
  ak_public_key_to_der :: "PKey \<Rightarrow> bytes option"
  ak_public_key_to_pem :: "PKey \<Rightarrow> bytes option"
  ak_private_key_to_pem :: "PKey \<Rightarrow> bytes option"
  ak_private_key_from_pem :: "bytes \<Rightarrow> PKey option"
  ak_to_str :: "bytes \<Rightarrow> string option"
  ak_uri_ok :: "string \<Rightarrow> bool"
  ak_acme_host :: string

text \<open>
  What changes outside: the ACME server, the configuration client, E3 (on objects of strings), the clock in
  milliseconds and random numbers. \<open>sv_backoff\<close> are the delays that the retries of a storage call of the configuration client sleep
  when the call is made now.
\<close>

type_synonym json_object = "(string \<times> string) list"

record 's acme_services =
  sv_send :: "acme_request \<Rightarrow> 's \<Rightarrow> (AcmeError, acme_response) result \<times> 's"
  sv_jws :: "JwsRequest \<Rightarrow> 's \<Rightarrow> (DpError, JwsResult) result \<times> 's"
  sv_jwk :: "'s \<Rightarrow> (DpError, Jwk) result \<times> 's"
  sv_get :: "string \<Rightarrow> 's \<Rightarrow> (DpError, string option) result \<times> 's"
  sv_put :: "string \<Rightarrow> string \<Rightarrow> 's \<Rightarrow> (DpError, unit) result \<times> 's"
  sv_delete :: "string \<Rightarrow> 's \<Rightarrow> (DpError, unit) result \<times> 's"
  sv_encrypt :: "json_object \<Rightarrow> 's \<Rightarrow> (ClientError, json_object) result \<times> 's"
  sv_decrypt :: "json_object \<Rightarrow> 's \<Rightarrow> (ClientError, json_object) result \<times> 's"
  sv_gen_ec_key :: "'s \<Rightarrow> PKey option \<times> 's"
  sv_uuid :: "'s \<Rightarrow> string \<times> 's"
  sv_jitter :: "'s \<Rightarrow> nat \<times> 's"
  sv_backoff :: "'s \<Rightarrow> nat list"
  sv_sleep :: "nat \<Rightarrow> 's \<Rightarrow> 's"
  sv_now :: "'s \<Rightarrow> nat"

record 's acme_env =
  en_json :: acme_json
  en_crypto :: acme_crypto
  en_services :: "'s acme_services"

datatype acme_event =
    Sent acme_request
  | SignRequest JwsRequest
  | PutObject string string
  | DeleteObject string
  | Slept nat
  | RenewalIn nat
  | Installed CertifiedKey

record 's acme_state =
  st_env :: 's
  st_nonce :: "string option"
  st_account :: "Account option"
  st_trusted :: "CertifiedKey option"
  st_trace :: "acme_event list"

section \<open>Computations\<close>

datatype 'a outcome = Val 'a | Err AcmeError | Panicked

type_synonym ('s, 'a) acme = "'s acme_state \<Rightarrow> 'a outcome \<times> 's acme_state"

definition ret :: "'a \<Rightarrow> ('s, 'a) acme" where
  "ret v = (\<lambda>s. (Val v, s))"

definition throw :: "AcmeError \<Rightarrow> ('s, 'a) acme" where
  "throw e = (\<lambda>s. (Err e, s))"

definition panic :: "('s, 'a) acme" where
  "panic = (\<lambda>s. (Panicked, s))"

text \<open>Sequencing with the \<open>?\<close> operator.\<close>

definition and_then :: "('s, 'a) acme \<Rightarrow> ('a \<Rightarrow> ('s, 'b) acme) \<Rightarrow> ('s, 'b) acme" where
  "and_then m f = (\<lambda>s. case m s of (Val v, s') \<Rightarrow> f v s' | (Err e, s') \<Rightarrow> (Err e, s') | (Panicked, s') \<Rightarrow> (Panicked, s'))"

definition of_option :: "AcmeError \<Rightarrow> 'a option \<Rightarrow> ('s, 'a) acme" where
  "of_option e x = (case x of None \<Rightarrow> throw e | Some v \<Rightarrow> ret v)"

definition of_result :: "('e \<Rightarrow> AcmeError) \<Rightarrow> ('e, 'a) result \<Rightarrow> ('s, 'a) acme" where
  "of_result g r = (case r of Inl e \<Rightarrow> throw (g e) | Inr v \<Rightarrow> ret v)"

definition service :: "('s \<Rightarrow> 'r \<times> 's) \<Rightarrow> ('s, 'r) acme" where
  "service f = (\<lambda>s. case f (st_env s) of (r, e) \<Rightarrow> (Val r, s\<lparr>st_env := e\<rparr>))"

definition emit :: "acme_event \<Rightarrow> ('s, unit) acme" where
  "emit ev = (\<lambda>s. (Val (), s\<lparr>st_trace := st_trace s @ [ev]\<rparr>))"

definition utc_now :: "'s acme_env \<Rightarrow> ('s, nat) acme" where
  "utc_now E = (\<lambda>s. (Val (sv_now (en_services E) (st_env s)), s))"

definition sleep :: "'s acme_env \<Rightarrow> nat \<Rightarrow> ('s, unit) acme" where
  "sleep E ms = and_then (emit (Slept ms)) (\<lambda>_. service (\<lambda>e. ((), sv_sleep (en_services E) ms e)))"

definition acme_send :: "'s acme_env \<Rightarrow> acme_request \<Rightarrow> ('s, acme_response) acme" where
  "acme_send E q =
     (if ak_uri_ok (en_crypto E) (aq_url q)
      then and_then (emit (Sent q)) (\<lambda>_. and_then (service (sv_send (en_services E) q)) (of_result (\<lambda>e. e)))
      else throw AcHttpError)"

definition config_jws :: "'s acme_env \<Rightarrow> JwsRequest \<Rightarrow> ('s, JwsResult) acme" where
  "config_jws E q = and_then (emit (SignRequest q)) (\<lambda>_.
     and_then (service (sv_jws (en_services E) q)) (of_result AcConfigClient))"

definition config_jwk :: "'s acme_env \<Rightarrow> ('s, Jwk) acme" where
  "config_jwk E = and_then (service (sv_jwk (en_services E))) (of_result AcConfigClient)"

text \<open>The retries of a storage call: their delays are in the trace, the time they take is part of the call.\<close>

definition backoff :: "'s acme_env \<Rightarrow> ('s, unit) acme" where
  "backoff E = (\<lambda>s. (Val (), s\<lparr>st_trace := st_trace s @ map Slept (sv_backoff (en_services E) (st_env s))\<rparr>))"

definition storage_get :: "'s acme_env \<Rightarrow> string \<Rightarrow> ('s, string option) acme" where
  "storage_get E key = and_then (backoff E) (\<lambda>_.
     and_then (service (sv_get (en_services E) key)) (of_result AcConfigClient))"

definition storage_put :: "'s acme_env \<Rightarrow> string \<Rightarrow> string \<Rightarrow> ('s, unit) acme" where
  "storage_put E key object = and_then (emit (PutObject key object)) (\<lambda>_. and_then (backoff E) (\<lambda>_.
     and_then (service (sv_put (en_services E) key object)) (of_result AcConfigClient)))"

definition storage_delete :: "'s acme_env \<Rightarrow> string \<Rightarrow> ('s, unit) acme" where
  "storage_delete E key = and_then (emit (DeleteObject key)) (\<lambda>_. and_then (backoff E) (\<lambda>_.
     and_then (service (sv_delete (en_services E) key)) (of_result AcConfigClient)))"

text \<open>\<open>to_bytes\<close> of a body and \<open>from_utf8\<close> of its bytes.\<close>

definition body_bytes :: "acme_response \<Rightarrow> ('s, bytes) acme" where
  "body_bytes resp = of_option AcHyperError (ap_body resp)"

definition body_str :: "acme_response \<Rightarrow> ('s, string) acme" where
  "body_str resp = and_then (body_bytes resp) (\<lambda>bs. of_option AcUtf8Error (from_utf8 bs))"

lemma and_then_simps [simp]:
  "m s = (Val v, s') \<Longrightarrow> and_then m f s = f v s'"
  "m s = (Err e, s') \<Longrightarrow> and_then m f s = (Err e, s')"
  "m s = (Panicked, s') \<Longrightarrow> and_then m f s = (Panicked, s')"
  by (simp_all add: and_then_def)

lemma computation_simps [simp]:
  "ret v s = (Val v, s)" "throw e s = (Err e, s)" "panic s = (Panicked, s)"
  "of_option e None s = (Err e, s)" "of_option e (Some v) s = (Val v, s)"
  "of_result g (Inl x) s = (Err (g x), s)" "of_result g (Inr v) s = (Val v, s)"
  "emit ev s = (Val (), s\<lparr>st_trace := st_trace s @ [ev]\<rparr>)"
  "utc_now E s = (Val (sv_now (en_services E) (st_env s)), s)"
  "backoff E s = (Val (), s\<lparr>st_trace := st_trace s @ map Slept (sv_backoff (en_services E) (st_env s))\<rparr>)"
  by (simp_all add: backoff_def ret_def throw_def panic_def of_option_def of_result_def emit_def utc_now_def)

lemma service_simp [simp]: "f (st_env s) = (r, e) \<Longrightarrow> service f s = (Val r, s\<lparr>st_env := e\<rparr>)"
  by (simp add: service_def)

lemma and_then_assoc: "and_then (and_then m f) g = and_then m (\<lambda>v. and_then (f v) g)"
  by (auto simp: and_then_def fun_eq_iff split: prod.split outcome.split)

lemma and_then_Val:
  assumes "and_then m f s = (Val v, s')"
  obtains w s1 where "m s = (Val w, s1)" "f w s1 = (Val v, s')"
  using assms by (auto simp: and_then_def split: prod.splits outcome.splits)

lemma and_then_cases [consumes 1, case_names Val Err Panicked]:
  assumes "and_then m f s = (r, s')"
  obtains v t where "m s = (Val v, t)" "f v t = (r, s')"
    | e where "m s = (Err e, s')" "r = Err e"
    | "m s = (Panicked, s')" "r = Panicked"
  using assms by (auto simp: and_then_def split: prod.splits outcome.splits)

section \<open>Invariants\<close>

text \<open>A computation keeps an invariant when it holds after every outcome.\<close>

named_theorems keeps_intros

definition keeps :: "('s acme_state \<Rightarrow> bool) \<Rightarrow> ('s, 'a) acme \<Rightarrow> bool" where
  "keeps I m \<longleftrightarrow> (\<forall>s. I s \<longrightarrow> I (snd (m s)))"

lemma keepsD: "keeps I m \<Longrightarrow> I s \<Longrightarrow> m s = (r, s') \<Longrightarrow> I s'"
  by (auto simp: keeps_def)

lemma keepsI: "(\<And>s r s'. I s \<Longrightarrow> m s = (r, s') \<Longrightarrow> I s') \<Longrightarrow> keeps I m"
  by (auto simp: keeps_def) (metis prod.collapse)

lemma keeps_and_then [keeps_intros]:
  assumes "keeps I m" "\<And>v. keeps I (f v)"
  shows "keeps I (and_then m f)"
  using assms by (auto simp: keeps_def and_then_def split: prod.splits outcome.splits)

lemma keeps_trivial [keeps_intros]:
  "keeps I (ret v)" "keeps I (throw e)" "keeps I panic" "keeps I (of_option e x)" "keeps I (of_result g r)" "keeps I (utc_now E)"
  "keeps I (Pair r1)"
  by (auto simp: keeps_def ret_def throw_def panic_def of_option_def of_result_def utc_now_def split: option.splits sum.splits)

lemma keeps_if [keeps_intros]: "(c \<Longrightarrow> keeps I m) \<Longrightarrow> (\<not> c \<Longrightarrow> keeps I m') \<Longrightarrow> keeps I (if c then m else m')"
  by simp

lemma keeps_case_option [keeps_intros]:
  "(x = None \<Longrightarrow> keeps I m) \<Longrightarrow> (\<And>v. x = Some v \<Longrightarrow> keeps I (f v)) \<Longrightarrow> keeps I (case x of None \<Rightarrow> m | Some v \<Rightarrow> f v)"
  by (cases x) auto

lemma keeps_body [keeps_intros]: "keeps I (body_bytes resp)" "keeps I (body_str resp)"
  by (simp_all add: body_bytes_def body_str_def keeps_intros)

section \<open>Bounds\<close>

text \<open>A computation costs at most \<open>n\<close> of a measure of the state.\<close>

named_theorems costs_intros

definition costs :: "('s acme_state \<Rightarrow> nat) \<Rightarrow> nat \<Rightarrow> ('s, 'a) acme \<Rightarrow> bool" where
  "costs c n m \<longleftrightarrow> (\<forall>s. c (snd (m s)) \<le> c s + n)"

lemma costsD: "costs c n m \<Longrightarrow> m s = (r, s') \<Longrightarrow> c s' \<le> c s + n"
  by (auto simp: costs_def dest: spec [of _ s])

lemma costsI: "(\<And>s r s'. m s = (r, s') \<Longrightarrow> c s' \<le> c s + n) \<Longrightarrow> costs c n m"
  by (auto simp: costs_def) (metis prod.collapse)

lemma costs_mono: "costs c n m \<Longrightarrow> n \<le> k \<Longrightarrow> costs c k m"
  by (force simp: costs_def intro: order_trans)

lemma costs_and_then:
  assumes "costs c n m" "\<And>v s s'. m s = (Val v, s') \<Longrightarrow> costs c k (f v)"
  shows "costs c (n + k) (and_then m f)"
proof (rule costsI)
  fix s r s'
  assume run: "and_then m f s = (r, s')"
  obtain r1 s1 where m: "m s = (r1, s1)" by fastforce
  with assms(1) have "c s1 \<le> c s + n" by (rule costsD)
  moreover have "c s' \<le> c s1 + k" if "r1 = Val v" for v
    using assms(2) [of s v s1] run m that by (auto dest: costsD)
  ultimately show "c s' \<le> c s + (n + k)"
    using run m by (cases r1) auto
qed

lemma costs_and_then0 [costs_intros]:
  "costs c n m \<Longrightarrow> (\<And>v. costs c 0 (f v)) \<Longrightarrow> costs c n (and_then m f)"
  using costs_and_then [of c n m 0 f] by simp

lemma costs_trivial [costs_intros]:
  "costs c n (ret v)" "costs c n (throw e)" "costs c n panic" "costs c n (of_option e x)" "costs c n (of_result g r)"
  "costs c n (utc_now E)" "costs c n (Pair r1)"
  by (auto simp: costs_def ret_def throw_def panic_def of_option_def of_result_def utc_now_def split: option.splits sum.splits)

lemma costs_if [costs_intros]: "(b \<Longrightarrow> costs c n m) \<Longrightarrow> (\<not> b \<Longrightarrow> costs c n m') \<Longrightarrow> costs c n (if b then m else m')"
  by simp

lemma costs_case_option [costs_intros]:
  "(x = None \<Longrightarrow> costs c n m) \<Longrightarrow> (\<And>v. x = Some v \<Longrightarrow> costs c n (f v)) \<Longrightarrow> costs c n (case x of None \<Rightarrow> m | Some v \<Rightarrow> f v)"
  by (cases x) auto

lemma costs_body [costs_intros]: "costs c n (body_bytes resp)" "costs c n (body_str resp)"
  by (auto simp: body_bytes_def body_str_def intro!: costs_intros)

end
