(* ===== verification/Acme_Order.thy ===== *)
theory Acme_Order
  imports Acme_State
begin

text \<open>
  Ordering a certificate: the directory with its nonce (\<open>data-plane/src/acme/directory.rs\<close>), accounts
  (\<open>account.rs\<close>), orders (\<open>order.rs\<close>), authorizations and challenges (\<open>authorization.rs\<close>) and
  \<open>order_certificate\<close> of \<open>cert.rs\<close>, which uses them all. Every signed request takes its nonce from the
  directory or asks for one, so no nonce is used twice; polling is bounded, so an order ends.
\<close>

section \<open>Directory\<close>

definition extract_nonce_from_response :: "'s acme_env \<Rightarrow> acme_response \<Rightarrow> ('s, string option) acme" where
  "extract_nonce_from_response E resp =
     (case ap_replay_nonce resp of
        None \<Rightarrow> ret None
      | Some nonce \<Rightarrow> and_then (of_option AcHeaderConversionError (ak_to_str (en_crypto E) nonce)) (\<lambda>s. ret (Some s)))"

text \<open>The mutex around the nonce.\<close>

definition take_nonce :: "('s, string option) acme" where
  "take_nonce = (\<lambda>s. (Val (st_nonce s), s\<lparr>st_nonce := None\<rparr>))"

definition set_nonce :: "string option \<Rightarrow> ('s, unit) acme" where
  "set_nonce n = (\<lambda>s. (Val (), s\<lparr>st_nonce := n\<rparr>))"

definition store_nonce :: "'s acme_env \<Rightarrow> acme_response \<Rightarrow> ('s, unit) acme" where
  "store_nonce E resp =
     and_then (extract_nonce_from_response E resp) (\<lambda>maybe_nonce.
       case maybe_nonce of None \<Rightarrow> ret () | Some nonce \<Rightarrow> set_nonce (Some nonce))"

definition fetch_directory :: "'s acme_env \<Rightarrow> Provider \<Rightarrow> ('s, Directory) acme" where
  "fetch_directory E provider =
     and_then (acme_send E \<lparr>aq_method = ''GET'', aq_url = ''https://'' @ hostname provider @ directory_path provider,
         aq_content_type = ''application/json'', aq_host = hostname provider, aq_body = []\<rparr>) (\<lambda>resp.
     and_then (body_str resp) (\<lambda>body.
       case aj_directory (en_json E) body of
         None \<Rightarrow> panic
       | Some directory \<Rightarrow> and_then (set_nonce None) (\<lambda>_. ret directory)))"

definition request_nonce :: "'s acme_env \<Rightarrow> Directory \<Rightarrow> Provider \<Rightarrow> ('s, string) acme" where
  "request_nonce E directory provider =
     and_then (acme_send E \<lparr>aq_method = ''GET'', aq_url = dr_new_nonce_url directory,
         aq_content_type = ''application/json'', aq_host = hostname provider, aq_body = []\<rparr>) (\<lambda>resp.
     and_then (extract_nonce_from_response E resp) (of_option AcNoNonce))"

definition directory_get_nonce :: "'s acme_env \<Rightarrow> Directory \<Rightarrow> Provider \<Rightarrow> ('s, string) acme" where
  "directory_get_nonce E directory provider =
     and_then take_nonce (\<lambda>maybe_nonce.
       case maybe_nonce of None \<Rightarrow> request_nonce E directory provider | Some nonce \<Rightarrow> ret nonce)"

definition authenticated_request_raw ::
  "'s acme_env \<Rightarrow> Directory \<Rightarrow> string \<Rightarrow> string \<Rightarrow> string \<Rightarrow> string option \<Rightarrow> Provider \<Rightarrow> ('s, acme_response) acme" where
  "authenticated_request_raw E directory meth url payload account_id provider =
     and_then (directory_get_nonce E directory provider) (\<lambda>nonce.
     and_then (config_jws E \<lparr>jq_signature_type = SignECDSA, jq_url = url, jq_nonce = Some nonce, jq_payload = payload,
         jq_account_id = account_id\<rparr>) (\<lambda>result.
     and_then (acme_send E \<lparr>aq_method = meth, aq_url = url, aq_content_type = ''application/jose+json'',
         aq_host = ak_acme_host (en_crypto E), aq_body = aj_jws (en_json E) result\<rparr>) (\<lambda>resp.
       if \<not> is_success (ap_status resp)
       then and_then (body_str resp) (\<lambda>body. throw (AcClientError body))
       else and_then (store_nonce E resp) (\<lambda>_. ret resp))))"

definition authenticated_request ::
  "'s acme_env \<Rightarrow> Directory \<Rightarrow> string \<Rightarrow> string \<Rightarrow> acme_payload option \<Rightarrow> string option \<Rightarrow> Provider \<Rightarrow> ('s, acme_response) acme" where
  "authenticated_request E directory url meth payload account_id provider =
     (let payload_parsed = (case payload of None \<Rightarrow> [] | Some p \<Rightarrow> aj_payload (en_json E) p) in
      and_then (authenticated_request_raw E directory meth url payload_parsed account_id provider) (\<lambda>resp.
      and_then (store_nonce E resp) (\<lambda>_. ret resp)))"

section \<open>Accounts\<close>

definition location_str :: "'s acme_env \<Rightarrow> string \<Rightarrow> acme_response \<Rightarrow> ('s, string) acme" where
  "location_str E missing resp =
     and_then (of_option (AcGeneral missing) (ap_location resp)) (\<lambda>location.
       of_option AcHeaderConversionError (ak_to_str (en_crypto E) location))"

definition external_account_binding :: "'s acme_env \<Rightarrow> bool \<Rightarrow> string \<Rightarrow> ('s, JwsResult option) acme" where
  "external_account_binding E required url =
     (if required
      then and_then (config_jwk E) (\<lambda>jwk.
           and_then (config_jws E \<lparr>jq_signature_type = SignHMAC, jq_url = url, jq_nonce = None,
               jq_payload = aj_jwk (en_json E) jwk, jq_account_id = None\<rparr>) (\<lambda>jws. ret (Some jws)))
      else ret None)"

record AccountBuilder =
  ab_directory :: Directory
  ab_eab_required :: bool
  ab_contact :: "string list option"
  ab_terms_of_service_agreed :: "bool option"
  ab_only_return_existing :: "bool option"
  ab_provider :: Provider

definition account_builder_new :: "Directory \<Rightarrow> bool \<Rightarrow> Provider \<Rightarrow> AccountBuilder" where
  "account_builder_new directory required provider =
     \<lparr>ab_directory = directory, ab_eab_required = required, ab_contact = None, ab_terms_of_service_agreed = None,
      ab_only_return_existing = None, ab_provider = provider\<rparr>"

definition account_contact :: "string list \<Rightarrow> AccountBuilder \<Rightarrow> AccountBuilder" where
  "account_contact contact b = b\<lparr>ab_contact := Some contact\<rparr>"

definition account_terms_of_service_agreed :: "bool \<Rightarrow> AccountBuilder \<Rightarrow> AccountBuilder" where
  "account_terms_of_service_agreed agreed b = b\<lparr>ab_terms_of_service_agreed := Some agreed\<rparr>"

definition account_only_return_existing :: "bool \<Rightarrow> AccountBuilder \<Rightarrow> AccountBuilder" where
  "account_only_return_existing existing b = b\<lparr>ab_only_return_existing := Some existing\<rparr>"

lemmas account_builder_defs = account_builder_new_def account_contact_def account_terms_of_service_agreed_def

definition account_build :: "'s acme_env \<Rightarrow> AccountBuilder \<Rightarrow> ('s, Account) acme" where
  "account_build E b =
     (let directory = ab_directory b; provider = ab_provider b; url = dr_new_account_url directory in
      and_then (external_account_binding E (ab_eab_required b) url) (\<lambda>binding.
      and_then (authenticated_request E directory url ''POST''
          (Some (NewAccountPayload (ab_contact b) (ab_terms_of_service_agreed b) (ab_only_return_existing b) binding)) None provider) (\<lambda>res.
      and_then (body_str res) (\<lambda>body.
      and_then (of_option AcSerdeError (aj_account (en_json E) body)) (\<lambda>account.
      and_then (location_str E ''No location header in newAccount request'' res) (\<lambda>account_id.
        ret (account\<lparr>ac_directory := Some directory, ac_id := account_id, ac_provider := Some provider\<rparr>)))))))"

definition init_acme_account :: "'s acme_env \<Rightarrow> Provider \<Rightarrow> ('s, Account) acme" where
  "init_acme_account E provider =
     and_then (fetch_directory E provider) (\<lambda>directory.
       account_build E (account_terms_of_service_agreed True (account_contact [''mailto:engineering@evervault.com'']
         (account_builder_new directory (eab_required provider) provider))))"

definition get_account_and_directory :: "Account option \<Rightarrow> ('s, Account \<times> Directory) acme" where
  "get_account_and_directory maybe_account =
     and_then (of_option (AcFieldNotFound ''account'') maybe_account) (\<lambda>account.
     and_then (of_option (AcFieldNotFound ''directory'') (ac_directory account)) (\<lambda>directory. ret (account, directory)))"

definition provider_of :: "Account \<Rightarrow> Provider" where
  "provider_of account = (case ac_provider account of Some p \<Rightarrow> p | None \<Rightarrow> LetsEncrypt)"

text \<open>A signed \<open>POST\<close> for an account; the calls below differ in the URL, the payload and what they read from the answer.\<close>

definition account_post :: "'s acme_env \<Rightarrow> Account \<times> Directory \<Rightarrow> string \<Rightarrow> acme_payload option \<Rightarrow> ('s, acme_response) acme" where
  "account_post E ad url payload =
     authenticated_request E (snd ad) url ''POST'' payload (Some (ac_id (fst ad))) (provider_of (fst ad))"

section \<open>Polling\<close>

text \<open>The loops \<open>wait_ready\<close> and \<open>wait_done\<close>; the number is that of the polls left.\<close>

fun poll_while ::
  "'s acme_env \<Rightarrow> ('a \<Rightarrow> bool) \<Rightarrow> ('a \<Rightarrow> ('s, 'a) acme) \<Rightarrow> string \<Rightarrow> nat \<Rightarrow> nat \<Rightarrow> 'a \<Rightarrow> ('s, 'a) acme" where
  "poll_while E waiting poll message poll_interval 0 x = (if waiting x then throw (AcGeneral message) else ret x)"
| "poll_while E waiting poll message poll_interval (Suc attempts) x =
     (if waiting x
      then and_then (sleep E poll_interval) (\<lambda>_.
           and_then (poll x) (\<lambda>y. poll_while E waiting poll message poll_interval attempts y))
      else ret x)"

section \<open>Orders\<close>

definition order_build :: "'s acme_env \<Rightarrow> Account \<Rightarrow> Identifier list \<Rightarrow> Provider \<Rightarrow> ('s, Order) acme" where
  "order_build E account identifiers provider =
     and_then (of_option (AcFieldNotFound ''directory'') (ac_directory account)) (\<lambda>directory.
     and_then (authenticated_request E directory (dr_new_order_url directory) ''POST'' (Some (NewOrderPayload identifiers))
         (Some (ac_id account)) provider) (\<lambda>response.
     and_then (body_str response) (\<lambda>body.
     and_then (of_option AcSerdeError (aj_order (en_json E) body)) (\<lambda>order.
     and_then (location_str E ''No location header in newOrder response'' response) (\<lambda>order_url.
       ret (order\<lparr>or_account := Some account, or_url := order_url\<rparr>))))))"

definition gen_csr :: "'s acme_env \<Rightarrow> PKey \<Rightarrow> string list \<Rightarrow> ('s, bytes) acme" where
  "gen_csr E key_pair domains =
     (if domains = [] then throw (AcCsrError ''CSR validation error: At least one domain name needs to be supplied'')
      else of_option AcOpenSSLError (ak_csr (en_crypto E) key_pair domains))"

text \<open>The order in the answer, with the account and the URL of the order asked about.\<close>

definition order_answer :: "'s acme_env \<Rightarrow> Order \<Rightarrow> Account \<Rightarrow> acme_response \<Rightarrow> ('s, Order) acme" where
  "order_answer E asked account response =
     and_then (body_str response) (\<lambda>body.
     and_then (of_option AcSerdeError (aj_order (en_json E) body)) (\<lambda>order.
       ret (order\<lparr>or_account := Some account, or_url := or_url asked\<rparr>)))"

definition order_finalize :: "'s acme_env \<Rightarrow> Order \<Rightarrow> PKey \<Rightarrow> ('s, Order) acme" where
  "order_finalize E order pkey =
     and_then (gen_csr E pkey (map id_value (or_identifiers order))) (\<lambda>csr.
     and_then (get_account_and_directory (or_account order)) (\<lambda>ad.
     and_then (account_post E ad (or_finalize_url order) (Some (CsrPayload (ak_b64 (en_crypto E) csr))))
       (order_answer E order (fst ad))))"

definition order_poll :: "'s acme_env \<Rightarrow> Order \<Rightarrow> ('s, Order) acme" where
  "order_poll E order =
     and_then (get_account_and_directory (or_account order)) (\<lambda>ad.
     and_then (account_post E ad (or_url order) None) (order_answer E order (fst ad)))"

definition order_certificate_chain :: "'s acme_env \<Rightarrow> Order \<Rightarrow> ('s, x509 list option) acme" where
  "order_certificate_chain E order =
     (case or_certificate_url order of
        None \<Rightarrow> ret None
      | Some certificate_url \<Rightarrow>
          and_then (get_account_and_directory (or_account order)) (\<lambda>ad.
          and_then (account_post E ad certificate_url None) (\<lambda>response.
          and_then (body_bytes response) (\<lambda>body.
          and_then (of_option AcOpenSSLError (ak_stack_from_pem (en_crypto E) body)) (\<lambda>chain. ret (Some chain))))))"

definition order_wait_ready :: "'s acme_env \<Rightarrow> nat \<Rightarrow> nat \<Rightarrow> Order \<Rightarrow> ('s, Order) acme" where
  "order_wait_ready E = poll_while E (\<lambda>order. is_pending (or_status order)) (order_poll E) ''Max attempts reached for polling order.''"

definition order_wait_done :: "'s acme_env \<Rightarrow> nat \<Rightarrow> nat \<Rightarrow> Order \<Rightarrow> ('s, Order) acme" where
  "order_wait_done E = poll_while E (\<lambda>order. \<not> is_done (or_status order)) (order_poll E) ''Max attempts reached for polling order.''"

section \<open>Authorizations and challenges\<close>

definition with_account :: "Account \<Rightarrow> string \<Rightarrow> Authorization \<Rightarrow> Authorization" where
  "with_account account url authorization =
     authorization\<lparr>au_account := Some account, au_url := url,
       au_challenges := map (\<lambda>challenge. challenge\<lparr>ch_account := Some account\<rparr>) (au_challenges authorization)\<rparr>"

fun fetch_authorizations :: "'s acme_env \<Rightarrow> Account \<times> Directory \<Rightarrow> string list \<Rightarrow> ('s, Authorization list) acme" where
  "fetch_authorizations E ad [] = ret []"
| "fetch_authorizations E ad (url # urls) =
     and_then (account_post E ad url None) (\<lambda>response.
     and_then (body_str response) (\<lambda>body.
     and_then (of_option AcSerdeError (aj_authorization (en_json E) body)) (\<lambda>authorization.
     and_then (fetch_authorizations E ad urls) (\<lambda>rest. ret (with_account (fst ad) url authorization # rest)))))"

definition authorizations :: "'s acme_env \<Rightarrow> Order \<Rightarrow> ('s, Authorization list) acme" where
  "authorizations E order =
     and_then (get_account_and_directory (or_account order)) (\<lambda>ad.
       fetch_authorizations E ad (or_authorization_urls order))"

definition get_challenge :: "string \<Rightarrow> Authorization \<Rightarrow> Challenge option" where
  "get_challenge ty authorization = find (\<lambda>challenge. ch_type challenge = ty) (au_challenges authorization)"

definition authorization_poll :: "'s acme_env \<Rightarrow> Authorization \<Rightarrow> ('s, Authorization) acme" where
  "authorization_poll E authorization =
     and_then (get_account_and_directory (au_account authorization)) (\<lambda>ad.
     and_then (account_post E ad (au_url authorization) None) (\<lambda>response.
     and_then (body_str response) (\<lambda>body.
     and_then (of_option AcSerdeError (aj_authorization (en_json E) body)) (\<lambda>polled.
       ret (polled\<lparr>au_url := au_url authorization, au_account := Some (fst ad)\<rparr>)))))"

definition authorization_wait_done :: "'s acme_env \<Rightarrow> nat \<Rightarrow> nat \<Rightarrow> Authorization \<Rightarrow> ('s, Authorization) acme" where
  "authorization_wait_done E = poll_while E (\<lambda>a. au_status a = AuthPending) (authorization_poll E)
     ''Max attempts reached for checking authorization is complete''"

definition key_authorization :: "'s acme_env \<Rightarrow> Challenge \<Rightarrow> ('s, string option) acme" where
  "key_authorization E challenge =
     (case ch_token challenge of
        None \<Rightarrow> ret None
      | Some token \<Rightarrow>
          and_then (get_account_and_directory (ch_account challenge)) (\<lambda>_.
          and_then (config_jwk E) (\<lambda>jwk.
          and_then (of_option AcOpenSSLError (ak_sha256 (en_crypto E) (aj_jwk_thumb (en_json E) (thumb_of jwk)))) (\<lambda>digest.
            ret (Some (token @ ''.'' @ ak_b64 (en_crypto E) digest))))))"

text \<open>\<open>validate\<close> and \<open>poll\<close> of a challenge differ in the payload.\<close>

definition challenge_post :: "'s acme_env \<Rightarrow> acme_payload option \<Rightarrow> Challenge \<Rightarrow> ('s, Challenge) acme" where
  "challenge_post E payload challenge =
     and_then (get_account_and_directory (ch_account challenge)) (\<lambda>ad.
     and_then (account_post E ad (ch_url challenge) payload) (\<lambda>response.
     and_then (body_str response) (\<lambda>body.
     and_then (of_option AcSerdeError (aj_challenge (en_json E) body)) (\<lambda>answer.
       ret (answer\<lparr>ch_account := Some (fst ad)\<rparr>)))))"

definition challenge_validate :: "'s acme_env \<Rightarrow> Challenge \<Rightarrow> ('s, Challenge) acme" where
  "challenge_validate E = challenge_post E (Some EmptyObject)"

definition challenge_poll :: "'s acme_env \<Rightarrow> Challenge \<Rightarrow> ('s, Challenge) acme" where
  "challenge_poll E = challenge_post E None"

definition challenge_wait_done :: "'s acme_env \<Rightarrow> nat \<Rightarrow> nat \<Rightarrow> Challenge \<Rightarrow> ('s, Challenge) acme" where
  "challenge_wait_done E = poll_while E (\<lambda>c. ch_status c = ChallengePending \<or> ch_status c = ChallengeProcessing)
     (challenge_poll E) ''Max attempts polling challenge exceeded''"

section \<open>Ordering\<close>

record RawAcmeCertificate =
  rc_certificate :: string

fun convert_to_pems :: "'s acme_env \<Rightarrow> x509 list \<Rightarrow> ('s, string list) acme" where
  "convert_to_pems E [] = ret []"
| "convert_to_pems E (x509 # x509s) =
     and_then (of_option AcOpenSSLError (ak_to_pem (en_crypto E) x509)) (\<lambda>pem.
     and_then (of_option AcUtf8Error (from_utf8 pem)) (\<lambda>pem_string.
     and_then (convert_to_pems E x509s) (\<lambda>rest. ret (pem_string # rest))))"

definition convert_to_pemfile :: "'s acme_env \<Rightarrow> x509 list \<Rightarrow> ('s, string) acme" where
  "convert_to_pemfile E certificates =
     and_then (convert_to_pems E certificates) (\<lambda>pem_strings. ret (join_with [CHR 0x0A] pem_strings))"

definition from_x509s :: "'s acme_env \<Rightarrow> x509 list \<Rightarrow> ('s, RawAcmeCertificate) acme" where
  "from_x509s E x509s = and_then (convert_to_pemfile E x509s) (\<lambda>pem_string. ret \<lparr>rc_certificate = pem_string\<rparr>)"

text \<open>The account of the retriever, made when there is none.\<close>

definition cached_account :: "'s acme_env \<Rightarrow> Provider \<Rightarrow> ('s, Account) acme" where
  "cached_account E provider =
     (\<lambda>s. case st_account s of
        Some acme_account \<Rightarrow> (Val acme_account, s)
      | None \<Rightarrow> and_then (init_acme_account E provider)
          (\<lambda>new_account s'. (Val new_account, s'\<lparr>st_account := Some new_account\<rparr>)) s)"

text \<open>One turn of the loop over the authorizations.\<close>

definition validate_authorization :: "'s acme_env \<Rightarrow> Authorization \<Rightarrow> ('s, unit) acme" where
  "validate_authorization E auth =
     and_then (of_option (AcFieldNotFound ''Challenge not found in authorization'') (get_challenge ''http-01'' auth)) (\<lambda>challenge.
     and_then (of_option (AcFieldNotFound ''Token not found in challenge returned'') (ch_token challenge)) (\<lambda>token.
     and_then (key_authorization E challenge) (\<lambda>maybe_value.
     and_then (of_option (AcFieldNotFound ''Token not found in challenge returned'') maybe_value) (\<lambda>token_value.
     and_then (storage_put E (''acme-challenges/'' @ token) token_value) (\<lambda>_.
     and_then (challenge_validate E challenge) (\<lambda>challenge_validated.
     and_then (challenge_wait_done E 10000 7 challenge_validated) (\<lambda>_.
     and_then (authorization_wait_done E 10000 7 auth) (\<lambda>_. ret ()))))))))"

fun for_each :: "('a \<Rightarrow> ('s, unit) acme) \<Rightarrow> 'a list \<Rightarrow> ('s, unit) acme" where
  "for_each f [] = ret ()"
| "for_each f (x # xs) = and_then (f x) (\<lambda>_. for_each f xs)"

text \<open>What follows when the order has been made.\<close>

definition complete_order :: "'s acme_env \<Rightarrow> PKey \<Rightarrow> Order \<Rightarrow> ('s, RawAcmeCertificate) acme" where
  "complete_order E key order =
     and_then (authorizations E order) (\<lambda>auths.
     and_then (for_each (validate_authorization E) auths) (\<lambda>_.
     and_then (order_wait_ready E 5000 5 order) (\<lambda>order_ready.
     and_then (order_finalize E order_ready key) (\<lambda>order_finalized.
     and_then (order_wait_done E 5000 5 order_finalized) (\<lambda>order_complete.
     and_then (order_certificate_chain E order_complete) (\<lambda>maybe_chain.
     and_then (of_option (AcFieldNotFound ''Certificate not found in completed order'') maybe_chain) (\<lambda>cert_chain.
       from_x509s E cert_chain)))))))"

definition order_certificate :: "'s acme_env \<Rightarrow> string list \<Rightarrow> PKey \<Rightarrow> Provider \<Rightarrow> ('s, RawAcmeCertificate) acme" where
  "order_certificate E domains key provider =
     and_then (cached_account E provider) (\<lambda>acme_account.
     and_then (order_build E acme_account (map (\<lambda>domain. \<lparr>id_type = ''dns'', id_value = domain\<rparr>) domains) provider)
       (complete_order E key))"

section \<open>Nonces\<close>

text \<open>
  The nonces of the requests that were signed. The server never gives the same nonce twice; the other services
  do not take nonces back.
\<close>

definition signed_nonces :: "acme_event list \<Rightarrow> string list" where
  "signed_nonces tr = List.map_filter (\<lambda>ev. case ev of SignRequest q \<Rightarrow> jq_nonce q | _ \<Rightarrow> None) tr"

lemma signed_nonces_simps [simp]:
  "signed_nonces [] = []"
  "signed_nonces (tr @ tr') = signed_nonces tr @ signed_nonces tr'"
  "signed_nonces [SignRequest q] = (case jq_nonce q of None \<Rightarrow> [] | Some n \<Rightarrow> [n])"
  "signed_nonces [Sent r] = []" "signed_nonces [PutObject k v] = []" "signed_nonces [DeleteObject k] = []"
  "signed_nonces [Slept n] = []" "signed_nonces [RenewalIn n] = []" "signed_nonces [Installed c] = []"
  by (simp_all add: signed_nonces_def List.map_filter_def split: option.splits)

lemma signed_nonces_Slept [simp]: "signed_nonces (map Slept ds) = []"
  by (induction ds) (simp_all add: signed_nonces_def List.map_filter_def)

definition unused_nonce :: "('s \<Rightarrow> string set) \<Rightarrow> string \<Rightarrow> 's acme_state \<Rightarrow> bool" where
  "unused_nonce issued n s \<longleftrightarrow> n \<in> issued (st_env s) \<and> n \<notin> set (signed_nonces (st_trace s))"

definition nonce_inv :: "('s \<Rightarrow> string set) \<Rightarrow> 's acme_state \<Rightarrow> bool" where
  "nonce_inv issued s \<longleftrightarrow>
     distinct (signed_nonces (st_trace s)) \<and> set (signed_nonces (st_trace s)) \<subseteq> issued (st_env s)
     \<and> (\<forall>n. st_nonce s = Some n \<longrightarrow> unused_nonce issued n s)"

definition fresh_response :: "('s \<Rightarrow> string set) \<Rightarrow> 's acme_env \<Rightarrow> acme_response \<Rightarrow> 's acme_state \<Rightarrow> bool" where
  "fresh_response issued E resp s \<longleftrightarrow>
     (\<forall>b n. ap_replay_nonce resp = Some b \<longrightarrow> ak_to_str (en_crypto E) b = Some n \<longrightarrow> unused_nonce issued n s)"

lemma keeps_st_nonce: "keeps (\<lambda>s. st_nonce s = n) (service f)" "keeps (\<lambda>s. st_nonce s = n) (emit ev)"
  by (auto simp: keeps_def service_def split: prod.splits)

lemma keeps_extract: "keeps I (extract_nonce_from_response E resp)"
  by (simp add: extract_nonce_from_response_def keeps_intros)

lemma extract_Val:
  assumes "extract_nonce_from_response E resp s = (Val (Some n), s')"
  obtains b where "ap_replay_nonce resp = Some b" "ak_to_str (en_crypto E) b = Some n" "s' = s"
  using assms
  by (cases "ap_replay_nonce resp"; cases "ak_to_str (en_crypto E) (the (ap_replay_nonce resp))")
    (auto simp: extract_nonce_from_response_def and_then_def)

locale acme_server =
  fixes E :: "'s acme_env" and issued :: "'s \<Rightarrow> string set"
  assumes send_issued: "sv_send (en_services E) q e = (r, e') \<Longrightarrow> issued e \<subseteq> issued e'"
    and fresh_nonce: "sv_send (en_services E) q e = (Inr resp, e') \<Longrightarrow> ap_replay_nonce resp = Some b \<Longrightarrow>
      ak_to_str (en_crypto E) b = Some n \<Longrightarrow> n \<notin> issued e \<and> n \<in> issued e'"
    and others_issued: "issued e \<subseteq> issued (snd (sv_jws (en_services E) j e))"
      "issued e \<subseteq> issued (snd (sv_jwk (en_services E) e))"
      "issued e \<subseteq> issued (snd (sv_get (en_services E) k e))"
      "issued e \<subseteq> issued (snd (sv_put (en_services E) k v e))"
      "issued e \<subseteq> issued (snd (sv_delete (en_services E) k e))"
      "issued e \<subseteq> issued (snd (sv_encrypt (en_services E) x e))"
      "issued e \<subseteq> issued (snd (sv_decrypt (en_services E) x e))"
      "issued e \<subseteq> issued (snd (sv_gen_ec_key (en_services E) e))"
      "issued e \<subseteq> issued (snd (sv_uuid (en_services E) e))"
      "issued e \<subseteq> issued (snd (sv_jitter (en_services E) e))"
      "issued e \<subseteq> issued (sv_sleep (en_services E) t e)"
begin

text \<open>A computation that only calls services or writes events without a nonce.\<close>

lemma keeps_service:
  assumes "\<And>e. issued e \<subseteq> issued (snd (f e))"
  shows "keeps (nonce_inv issued) (service f)"
proof (rule keepsI)
  fix s r s'
  assume inv: "nonce_inv issued s" and run: "service f s = (r, s')"
  then have "s' = s\<lparr>st_env := snd (f (st_env s))\<rparr>" by (auto simp: service_def split: prod.splits)
  with inv assms [of "st_env s"] show "nonce_inv issued s'" by (auto simp: nonce_inv_def unused_nonce_def)
qed

lemma keeps_emit: "signed_nonces [ev] = [] \<Longrightarrow> keeps (nonce_inv issued) (emit ev)"
  by (auto simp: keeps_def nonce_inv_def unused_nonce_def)

lemma keeps_backoff: "keeps (nonce_inv issued) (backoff E)"
  by (auto simp: keeps_def nonce_inv_def unused_nonce_def)

lemma keeps_services:
  "keeps (nonce_inv issued) (config_jwk E)" "keeps (nonce_inv issued) (storage_get E k)" "keeps (nonce_inv issued) (storage_put E k v)"
  "keeps (nonce_inv issued) (storage_delete E k)" "keeps (nonce_inv issued) (sleep E t)"
  by (simp_all add: config_jwk_def storage_get_def storage_put_def storage_delete_def sleep_def keeps_intros
      keeps_service keeps_emit keeps_backoff others_issued)

lemma send_fresh:
  assumes "acme_send E q s = (Val resp, s')" "nonce_inv issued s"
  shows "fresh_response issued E resp s'"
proof -
  let ?s = "s\<lparr>st_trace := st_trace s @ [Sent q]\<rparr>"
  obtain r e where svc: "sv_send (en_services E) q (st_env s) = (r, e)" by fastforce
  then have "service (sv_send (en_services E) q) ?s = (Val r, ?s\<lparr>st_env := e\<rparr>)" by simp
  with assms(1) have r: "r = Inr resp" and s': "s' = ?s\<lparr>st_env := e\<rparr>"
    by (cases r; auto simp: acme_send_def split: if_splits)+
  have "unused_nonce issued n s'" if "ap_replay_nonce resp = Some b" "ak_to_str (en_crypto E) b = Some n" for b n
    using fresh_nonce [OF svc [unfolded r] that] assms(2) by (auto simp: s' unused_nonce_def nonce_inv_def)
  then show ?thesis by (auto simp: fresh_response_def)
qed

lemma keeps_send: "keeps (nonce_inv issued) (acme_send E q)"
proof -
  have "issued e \<subseteq> issued (snd (sv_send (en_services E) q e))" for e
    by (rule send_issued [of q e "fst (sv_send (en_services E) q e)"]) simp
  then show ?thesis by (simp add: acme_send_def keeps_intros keeps_service keeps_emit)
qed

lemma store_nonce_inv:
  assumes "store_nonce E resp s = (r, s')" "fresh_response issued E resp s" "nonce_inv issued s"
  shows "nonce_inv issued s' \<and> fresh_response issued E resp s'"
  using assms
  by (cases "ap_replay_nonce resp"; cases "ak_to_str (en_crypto E) (the (ap_replay_nonce resp))")
    (auto simp: store_nonce_def extract_nonce_from_response_def set_nonce_def and_then_def fresh_response_def nonce_inv_def
      unused_nonce_def)

lemma keeps_request_nonce: "keeps (nonce_inv issued) (request_nonce E directory provider)"
  by (simp add: request_nonce_def keeps_intros keeps_send keeps_extract)

lemma request_nonce_unused:
  assumes "request_nonce E directory provider s = (Val n, s')" "nonce_inv issued s"
  shows "unused_nonce issued n s'"
proof -
  obtain resp t1 where send: "acme_send E \<lparr>aq_method = ''GET'', aq_url = dr_new_nonce_url directory,
      aq_content_type = ''application/json'', aq_host = hostname provider, aq_body = []\<rparr> s = (Val resp, t1)"
    and rest: "and_then (extract_nonce_from_response E resp) (of_option AcNoNonce) t1 = (Val n, s')"
    using assms(1) unfolding request_nonce_def by (rule and_then_Val)
  from rest obtain m t2 where "extract_nonce_from_response E resp t1 = (Val m, t2)" "of_option AcNoNonce m t2 = (Val n, s')"
    by (rule and_then_Val)
  then have "extract_nonce_from_response E resp t1 = (Val (Some n), s')" by (cases m) auto
  with send_fresh [OF send assms(2)] show ?thesis by (auto simp: fresh_response_def elim: extract_Val)
qed

lemma request_nonce_keeps_None: "keeps (\<lambda>s. st_nonce s = None) (request_nonce E directory provider)"
  by (simp add: request_nonce_def acme_send_def keeps_intros keeps_extract keeps_st_nonce)

lemma get_nonce_inv:
  assumes "nonce_inv issued s" "directory_get_nonce E directory provider s = (r, s')"
  shows "nonce_inv issued s'" and "r = Val n \<Longrightarrow> unused_nonce issued n s'" and "st_nonce s' = None"
proof -
  have inv: "nonce_inv issued (s\<lparr>st_nonce := None\<rparr>)" using assms(1) by (auto simp: nonce_inv_def unused_nonce_def)
  have run: "(case st_nonce s of None \<Rightarrow> request_nonce E directory provider | Some nonce \<Rightarrow> ret nonce) (s\<lparr>st_nonce := None\<rparr>) = (r, s')"
    using assms(2) by (simp add: directory_get_nonce_def take_nonce_def)
  show "nonce_inv issued s'"
    using run inv by (cases "st_nonce s") (auto dest: keepsD [OF keeps_request_nonce])
  show "unused_nonce issued n s'" if "r = Val n"
    using run inv that assms(1)
    by (cases "st_nonce s") (auto dest: request_nonce_unused simp: nonce_inv_def unused_nonce_def)
  show "st_nonce s' = None"
    using run keepsD [OF request_nonce_keeps_None, of "s\<lparr>st_nonce := None\<rparr>" directory provider r s']
    by (cases "st_nonce s") auto
qed

lemma sign_inv:
  assumes "nonce_inv issued s" "unused_nonce issued n s" "st_nonce s = None" "jq_nonce q = Some n"
    and "config_jws E q s = (r, s')"
  shows "nonce_inv issued s'"
proof -
  let ?s = "s\<lparr>st_trace := st_trace s @ [SignRequest q]\<rparr>"
  have "nonce_inv issued ?s" using assms(1-4) by (auto simp: nonce_inv_def unused_nonce_def)
  moreover have "keeps (nonce_inv issued) (and_then (service (sv_jws (en_services E) q)) (of_result AcConfigClient))"
    by (simp add: keeps_intros keeps_service others_issued)
  ultimately show ?thesis using assms(5) by (auto simp: config_jws_def dest: keepsD)
qed

text \<open>A response is handled as long as the nonce it brought has not been used.\<close>

lemma response_inv:
  assumes "acme_send E q s = (Val resp, t1)" "nonce_inv issued s"
    and "(if \<not> is_success (ap_status resp) then and_then (body_str resp) (\<lambda>body. throw (AcClientError body))
        else and_then (store_nonce E resp) (\<lambda>_. ret resp)) t1 = (r, s')"
  shows "nonce_inv issued s' \<and> (\<forall>v. r = Val v \<longrightarrow> v = resp \<and> fresh_response issued E resp s')"
proof -
  have t1: "nonce_inv issued t1" "fresh_response issued E resp t1"
    using assms(1,2) send_fresh keepsD [OF keeps_send] by blast+
  show ?thesis
  proof (cases "is_success (ap_status resp)")
    case True
    obtain r2 t2 where store: "store_nonce E resp t1 = (r2, t2)" by fastforce
    with store_nonce_inv [OF store t1(2,1)] assms(3) True show ?thesis by (cases r2) auto
  next
    case False
    have "keeps (nonce_inv issued) (and_then (body_str resp) (\<lambda>body. throw (AcClientError body)))"
      by (simp add: keeps_intros)
    moreover have "r \<noteq> Val v" for v using False assms(3) by (auto elim: and_then_Val)
    ultimately show ?thesis using False assms(3) t1(1) by (auto dest: keepsD)
  qed
qed

lemma keeps_config_jws_none: "jq_nonce q = None \<Longrightarrow> keeps (nonce_inv issued) (config_jws E q)"
  by (simp add: config_jws_def keeps_intros keeps_service keeps_emit others_issued)

lemma raw_request_inv:
  assumes "authenticated_request_raw E directory meth url payload account_id provider s = (r, s')" "nonce_inv issued s"
  shows "nonce_inv issued s' \<and> (\<forall>resp. r = Val resp \<longrightarrow> fresh_response issued E resp s')"
  using assms(1) unfolding authenticated_request_raw_def
proof (cases rule: and_then_cases)
  case (Val nonce t)
  note n = get_nonce_inv [OF assms(2) Val(1)]
  from Val(2) show ?thesis
  proof (cases rule: and_then_cases)
    case (Val result u)
    then have u: "nonce_inv issued u" using sign_inv n by (metis JwsRequest.select_convs(3))
    from Val(2) show ?thesis
    proof (cases rule: and_then_cases)
      case (Val resp v)
      with response_inv [OF Val(1) u Val(2)] show ?thesis by auto
    qed (use u in \<open>auto dest: keepsD [OF keeps_send]\<close>)
  qed (use n sign_inv in \<open>force+\<close>)
qed (use get_nonce_inv(1) assms(2) in auto)

lemma keeps_authenticated_request: "keeps (nonce_inv issued) (authenticated_request E directory url meth payload account_id provider)"
proof (rule keepsI)
  fix s r s'
  assume inv: "nonce_inv issued s" and run: "authenticated_request E directory url meth payload account_id provider s = (r, s')"
  from run [unfolded authenticated_request_def Let_def] show "nonce_inv issued s'"
  proof (cases rule: and_then_cases)
    case (Val resp t)
    note t = raw_request_inv [OF Val(1) inv]
    from Val(2) show ?thesis
      using t by (cases rule: and_then_cases) (auto dest: store_nonce_inv)
  qed (use raw_request_inv inv in auto)
qed

lemmas keeps_calls = keeps_intros keeps_authenticated_request keeps_services keeps_config_jws_none

lemma keeps_poll_while: "(\<And>x. keeps (nonce_inv issued) (poll x)) \<Longrightarrow> keeps (nonce_inv issued) (poll_while E waiting poll message d n x)"
  by (induction n arbitrary: x) (simp_all add: keeps_calls)

lemma keeps_account_post: "keeps (nonce_inv issued) (account_post E ad url payload)"
  by (simp add: account_post_def keeps_calls)

lemma keeps_account_and_directory: "keeps I (get_account_and_directory a)"
  by (simp add: get_account_and_directory_def keeps_intros)

lemma keeps_order: "keeps (nonce_inv issued) (order_poll E order)" "keeps (nonce_inv issued) (order_finalize E order key)"
  "keeps (nonce_inv issued) (order_certificate_chain E order)" "keeps (nonce_inv issued) (authorizations E order)"
proof -
  have answer: "keeps (nonce_inv issued) (order_answer E order account response)" for account response
    by (simp add: order_answer_def keeps_intros)
  show "keeps (nonce_inv issued) (order_poll E order)"
    by (simp add: order_poll_def keeps_intros answer keeps_account_post keeps_account_and_directory)
  show "keeps (nonce_inv issued) (order_finalize E order key)"
    by (simp add: order_finalize_def gen_csr_def keeps_intros answer keeps_account_post keeps_account_and_directory)
  show "keeps (nonce_inv issued) (order_certificate_chain E order)"
    unfolding order_certificate_chain_def
    by (intro keeps_intros keeps_account_post keeps_account_and_directory)
  have "keeps (nonce_inv issued) (fetch_authorizations E ad urls)" for ad urls
    by (induction urls) (simp_all add: keeps_intros keeps_account_post)
  then show "keeps (nonce_inv issued) (authorizations E order)"
    by (simp add: authorizations_def keeps_intros keeps_account_and_directory)
qed

lemma keeps_validate_authorization: "keeps (nonce_inv issued) (validate_authorization E auth)"
proof -
  have post: "keeps (nonce_inv issued) (challenge_post E payload challenge)" for payload challenge
    by (simp add: challenge_post_def keeps_intros keeps_account_post keeps_account_and_directory)
  have poll: "keeps (nonce_inv issued) (authorization_poll E a)" for a
    by (simp add: authorization_poll_def keeps_intros keeps_account_post keeps_account_and_directory)
  have "keeps (nonce_inv issued) (key_authorization E challenge)" for challenge
    unfolding key_authorization_def by (intro keeps_calls keeps_account_and_directory)
  with post poll show ?thesis
    by (simp add: validate_authorization_def challenge_validate_def challenge_wait_done_def challenge_poll_def
        authorization_wait_done_def keeps_calls keeps_poll_while)
qed

lemma keeps_complete_order: "keeps (nonce_inv issued) (complete_order E key order)"
proof -
  have loop: "keeps (nonce_inv issued) (for_each (validate_authorization E) auths)" for auths
    by (induction auths) (simp_all add: keeps_intros keeps_validate_authorization)
  have pems: "keeps (nonce_inv issued) (convert_to_pems E x509s)" for x509s
    by (induction x509s) (simp_all add: keeps_intros)
  then have "keeps (nonce_inv issued) (from_x509s E x509s)" for x509s
    by (simp add: from_x509s_def convert_to_pemfile_def keeps_intros)
  with loop show ?thesis
    by (simp add: complete_order_def order_wait_ready_def order_wait_done_def keeps_intros keeps_poll_while keeps_order)
qed

lemma keeps_init_acme_account: "keeps (nonce_inv issued) (init_acme_account E provider)"
proof -
  have set_None: "keeps (nonce_inv issued) (set_nonce None)"
    by (auto simp: keeps_def set_nonce_def nonce_inv_def unused_nonce_def)
  have fetch: "keeps (nonce_inv issued) (fetch_directory E provider)"
    unfolding fetch_directory_def by (intro keeps_intros keeps_send set_None)
  have "keeps (nonce_inv issued) (external_account_binding E required url)" for required url
    by (simp add: external_account_binding_def keeps_calls)
  then have "keeps (nonce_inv issued) (account_build E b)" for b
    by (simp add: account_build_def location_str_def Let_def keeps_calls)
  with fetch show ?thesis by (simp add: init_acme_account_def keeps_intros)
qed

lemma keeps_order_certificate: "keeps (nonce_inv issued) (order_certificate E domains key provider)"
proof -
  have set_account: "nonce_inv issued (s\<lparr>st_account := a\<rparr>) = nonce_inv issued s" for s a
    by (simp add: nonce_inv_def unused_nonce_def)
  have "keeps (nonce_inv issued) (\<lambda>s. (Val a, s\<lparr>st_account := Some a\<rparr>))" for a
    by (simp add: keeps_def set_account)
  then have "keeps (nonce_inv issued) (and_then (init_acme_account E provider) (\<lambda>a s. (Val a, s\<lparr>st_account := Some a\<rparr>)))"
    by (simp add: keeps_intros keeps_init_acme_account)
  then have "keeps (nonce_inv issued) (cached_account E provider)"
    by (auto simp: cached_account_def keeps_def split: option.splits)
  moreover have "keeps (nonce_inv issued) (order_build E account identifiers provider)" for account identifiers
    by (simp add: order_build_def location_str_def keeps_calls)
  ultimately show ?thesis by (simp add: order_certificate_def keeps_intros keeps_complete_order)
qed

end

text \<open>Any number of orders, one after the other, whatever their outcome.\<close>

type_synonym order_request = "string list \<times> PKey \<times> Provider"

fun run_orders :: "'s acme_env \<Rightarrow> order_request list \<Rightarrow> 's acme_state \<Rightarrow> 's acme_state" where
  "run_orders E [] s = s"
| "run_orders E ((domains, key, provider) # orders) s = run_orders E orders (snd (order_certificate E domains key provider s))"

text \<open>
  (C8) No nonce is used twice: in any number of orders, for any answers of the services and whatever fails,
  the requests to be signed carry distinct nonces, as long as the ACME server does not hand out a nonce
  twice. A nonce is taken out of the directory before it is used and replaced only by a newer one.
\<close>

theorem nonces_used_once:
  assumes "acme_server E issued" and "st_trace s = []" and "st_nonce s = None"
  shows "distinct (signed_nonces (st_trace (run_orders E orders s)))"
proof -
  have "nonce_inv issued (run_orders E orders s)" if "nonce_inv issued s" for s
    using that
  proof (induction orders arbitrary: s)
    case (Cons order orders)
    then show ?case
      using acme_server.keeps_order_certificate [OF assms(1)] by (cases order) (auto simp: keeps_def)
  qed simp
  moreover have "nonce_inv issued s" by (simp add: nonce_inv_def assms(2,3))
  ultimately show ?thesis by (simp add: nonce_inv_def)
qed

section \<open>Bounds\<close>

text \<open>What the trace of a state has cost: \<open>a\<close> for a request, \<open>b\<close> for a millisecond slept.\<close>

definition spent :: "nat \<Rightarrow> nat \<Rightarrow> 's acme_state \<Rightarrow> nat" where
  "spent a b s = sum_list (map (\<lambda>ev. case ev of Sent _ \<Rightarrow> a | Slept d \<Rightarrow> b * d | _ \<Rightarrow> 0) (st_trace s))"

definition requests_sent :: "'s acme_state \<Rightarrow> nat" where
  "requests_sent s = spent 1 0 s"

definition time_slept :: "'s acme_state \<Rightarrow> nat" where
  "time_slept s = spent 0 1 s"

lemma costs_service [costs_intros]: "costs (spent a b) n (service f)"
  by (auto simp: costs_def service_def spent_def split: prod.splits)

lemma costs_emit:
  "costs (spent a b) a (emit (Sent q))" "costs (spent a b) n (emit (SignRequest j))" "costs (spent a b) n (emit (PutObject k v))"
  "costs (spent a b) (b * d) (emit (Slept d))"
  by (auto simp: costs_def spent_def)

lemma costs_calls:
  "costs (spent a b) a (acme_send E q)" "costs (spent a b) n (config_jws E j)" "costs (spent a b) n (config_jwk E)"
  "costs (spent a b) (b * d) (sleep E d)"
  by (simp_all add: acme_send_def config_jws_def config_jwk_def sleep_def costs_intros costs_emit)

text \<open>
  The strategy of the storage calls, \<open>ExponentialBackoff::from_millis(500)\<close> with jitter and \<open>take(2)\<close>: at most two delays, of up to
  500 milliseconds and up to 250 seconds.
\<close>

definition backoff_bounded :: "'s acme_env \<Rightarrow> bool" where
  "backoff_bounded E \<longleftrightarrow> (\<forall>e. \<exists>ds. sv_backoff (en_services E) e = ds \<and> length ds \<le> 2 \<and> list_all2 (\<le>) ds (take (length ds) [500, 250000]))"

lemma backoff_sum:
  assumes "backoff_bounded E"
  shows "sum_list (sv_backoff (en_services E) e) \<le> 250500"
proof -
  obtain ds where ds: "sv_backoff (en_services E) e = ds" "length ds \<le> 2" "list_all2 (\<le>) ds (take (length ds) [500, 250000])"
    using assms by (auto simp: backoff_bounded_def)
  from ds(2) consider "ds = []" | x where "ds = [x]" | x y where "ds = [x, y]"
    by (cases ds; cases "tl ds"; cases "tl (tl ds)") auto
  then show ?thesis using ds(1,3) by cases auto
qed

lemma spent_backoff: "spent a b (s\<lparr>st_trace := st_trace s @ map Slept ds\<rparr>) = spent a b s + b * sum_list ds"
  by (induction ds rule: rev_induct) (simp_all add: spent_def algebra_simps)

lemma costs_storage_put:
  assumes "backoff_bounded E"
  shows "costs (spent a b) (250500 * b) (storage_put E k v)"
proof -
  have "costs (spent a b) (250500 * b) (backoff E)"
    using backoff_sum [OF assms] by (auto simp: costs_def spent_backoff mult.commute [of b])
  then have "costs (spent a b) (0 + (250500 * b + 0)) (storage_put E k v)"
    unfolding storage_put_def by (intro costs_and_then costs_emit costs_intros)
  then show ?thesis by simp
qed

lemma costs_nonce: "costs (spent a b) n take_nonce" "costs (spent a b) n (set_nonce x)" "costs (spent a b) n (store_nonce E resp)"
  "costs c n (extract_nonce_from_response E resp)"
  by (auto simp: costs_def take_nonce_def set_nonce_def store_nonce_def extract_nonce_from_response_def spent_def and_then_def of_option_def
      split: prod.splits option.splits outcome.splits)

lemma costs_get_nonce: "costs (spent a b) a (directory_get_nonce E directory provider)"
proof -
  have "costs (spent a b) a (request_nonce E directory provider)"
    unfolding request_nonce_def by (intro costs_intros costs_calls costs_nonce)
  then have "costs (spent a b) a (case m of None \<Rightarrow> request_nonce E directory provider | Some nonce \<Rightarrow> ret nonce)" for m
    by (intro costs_intros)
  with costs_nonce(1) have "costs (spent a b) (0 + a) (directory_get_nonce E directory provider)"
    unfolding directory_get_nonce_def by (intro costs_and_then)
  then show ?thesis by simp
qed

lemma costs_authenticated_request:
  "costs (spent a b) (2 * a) (authenticated_request E directory url meth payload account_id provider)"
proof -
  have rest: "costs (spent a b) 0 (if \<not> is_success (ap_status resp) then and_then (body_str resp) (\<lambda>body. throw (AcClientError body))
      else and_then (store_nonce E resp) (\<lambda>_. ret resp))" for resp
    by (intro costs_intros costs_nonce)
  have "costs (spent a b) (a + (0 + a)) (authenticated_request_raw E directory meth url p account_id provider)" for p
    unfolding authenticated_request_raw_def
    by (intro costs_and_then costs_and_then0 costs_get_nonce costs_calls rest)
  then have raw: "costs (spent a b) (2 * a) (authenticated_request_raw E directory meth url p account_id provider)" for p
    by (simp add: mult_2)
  show ?thesis
    unfolding authenticated_request_def Let_def by (intro costs_and_then0 raw costs_intros costs_nonce)
qed

lemma costs_poll_while:
  assumes "\<And>x. costs (spent a b) k (poll x)"
  shows "costs (spent a b) (n * (b * d + k)) (poll_while E waiting poll message d n x)"
proof (induction n arbitrary: x)
  case (Suc n)
  have "costs (spent a b) (b * d + (k + n * (b * d + k)))
      (and_then (sleep E d) (\<lambda>_. and_then (poll x) (\<lambda>y. poll_while E waiting poll message d n y)))"
    by (intro costs_and_then costs_calls assms Suc)
  then show ?case by (simp add: costs_intros add.assoc)
qed (simp add: costs_intros)

lemma costs_account: "costs (spent a b) (2 * a) (account_post E ad url payload)" "costs c n (get_account_and_directory x)"
  by (simp_all add: account_post_def get_account_and_directory_def costs_authenticated_request costs_intros)

text \<open>A call that looks up the account, sends one signed request and reads the answer.\<close>

lemma costs_account_call:
  assumes "\<And>ad response. costs (spent a b) 0 (f ad response)"
  shows "costs (spent a b) (2 * a)
    (and_then (get_account_and_directory x) (\<lambda>ad. and_then (account_post E ad (url ad) payload) (f ad)))"
proof -
  have "costs (spent a b) (0 + 2 * a)
      (and_then (get_account_and_directory x) (\<lambda>ad. and_then (account_post E ad (url ad) payload) (f ad)))"
    by (intro costs_and_then costs_and_then0 costs_account assms)
  then show ?thesis by simp
qed

lemma costs_order_answer: "costs c n (order_answer E asked account response)"
  unfolding order_answer_def by (intro costs_and_then0 costs_intros)

lemma costs_order:
  "costs (spent a b) (2 * a) (order_poll E order)" "costs (spent a b) (2 * a) (order_finalize E order key)"
  "costs (spent a b) (2 * a) (order_certificate_chain E order)"
proof -
  show "costs (spent a b) (2 * a) (order_poll E order)"
    unfolding order_poll_def by (intro costs_account_call costs_order_answer)
  have csr: "costs (spent a b) 0 (gen_csr E key domains)" for domains by (simp add: gen_csr_def costs_intros)
  have "costs (spent a b) (0 + 2 * a) (order_finalize E order key)"
    unfolding order_finalize_def by (intro costs_and_then csr costs_account_call costs_order_answer)
  then show "costs (spent a b) (2 * a) (order_finalize E order key)" by simp
  show "costs (spent a b) (2 * a) (order_certificate_chain E order)"
    unfolding order_certificate_chain_def by (intro costs_intros costs_account_call)
qed

lemma costs_challenge_post: "costs (spent a b) (2 * a) (challenge_post E payload challenge)"
  unfolding challenge_post_def by (intro costs_account_call costs_intros)

lemma costs_authorization_poll: "costs (spent a b) (2 * a) (authorization_poll E auth)"
  unfolding authorization_poll_def by (intro costs_account_call costs_intros)

lemma costs_key_authorization: "costs (spent a b) 0 (key_authorization E challenge)"
  unfolding key_authorization_def by (intro costs_intros costs_calls costs_account)

lemma costs_validate_authorization:
  assumes "backoff_bounded E"
  shows "costs (spent a b) (30 * a + 390500 * b) (validate_authorization E auth)"
proof -
  have "costs (spent a b) (0 + (0 + (0 + (0 + (250500 * b + (2 * a + (7 * (b * 10000 + 2 * a) + (7 * (b * 10000 + 2 * a)))))))))
      (validate_authorization E auth)"
    unfolding validate_authorization_def challenge_validate_def challenge_wait_done_def challenge_poll_def
      authorization_wait_done_def
    by (intro costs_and_then costs_and_then0 costs_trivial costs_key_authorization costs_storage_put [OF assms] costs_challenge_post
        costs_poll_while costs_authorization_poll)
  then show ?thesis by (rule costs_mono) simp
qed

lemma costs_for_each: "(\<And>x. costs c k (f x)) \<Longrightarrow> costs c (length xs * k) (for_each f xs)"
proof (induction xs)
  case (Cons x xs)
  then show ?case using costs_and_then [of c k "f x" "length xs * k" "\<lambda>_. for_each f xs"] by simp
qed (simp add: costs_intros)

lemma fetch_authorizations_length:
  "fetch_authorizations E ad urls s = (Val auths, s') \<Longrightarrow> length auths = length urls"
  by (induction urls arbitrary: auths s s') (auto elim!: and_then_Val)

lemma costs_fetch_authorizations: "costs (spent a b) (length urls * (2 * a)) (fetch_authorizations E ad urls)"
proof (induction urls)
  case (Cons url urls)
  have "costs (spent a b) (2 * a + (0 + (0 + (length urls * (2 * a))))) (fetch_authorizations E ad (url # urls))"
    unfolding fetch_authorizations.simps
    by (intro costs_and_then costs_and_then0 costs_account costs_trivial costs_body Cons)
  then show ?case by simp
qed (simp add: costs_intros)

lemma costs_authorizations: "costs (spent a b) (length (or_authorization_urls order) * (2 * a)) (authorizations E order)"
proof -
  have "costs (spent a b) (0 + length (or_authorization_urls order) * (2 * a)) (authorizations E order)"
    unfolding authorizations_def by (intro costs_and_then costs_account costs_fetch_authorizations)
  then show ?thesis by simp
qed

lemma authorizations_length:
  "authorizations E order s = (Val auths, s') \<Longrightarrow> length auths = length (or_authorization_urls order)"
  by (auto simp: authorizations_def elim!: and_then_Val dest: fetch_authorizations_length)

lemma costs_from_x509s: "costs c n (from_x509s E x509s)"
proof -
  have "costs c n (convert_to_pems E x509s)"
    by (induction x509s arbitrary: n) (auto intro!: costs_intros)
  then show ?thesis by (simp add: from_x509s_def convert_to_pemfile_def costs_intros)
qed

lemma costs_complete_order:
  fixes order :: Order
  assumes "backoff_bounded E"
  defines "n \<equiv> length (or_authorization_urls order)"
  shows "costs (spent a b) (n * (32 * a + 390500 * b) + 24 * a + 50000 * b) (complete_order E key order)"
proof -
  have loop: "costs (spent a b) (n * (30 * a + 390500 * b)) (for_each (validate_authorization E) auths)"
    if "authorizations E order s = (Val auths, s')" for auths s s'
    using costs_for_each [OF costs_validate_authorization [OF assms(1)], where xs = auths] authorizations_length [OF that]
    by (simp add: n_def)
  have auths: "costs (spent a b) (n * (2 * a)) (authorizations E order)"
    unfolding n_def by (rule costs_authorizations)
  have "costs (spent a b) (n * (2 * a) + (n * (30 * a + 390500 * b) + (5 * (b * 5000 + 2 * a) + (2 * a +
      (5 * (b * 5000 + 2 * a) + (2 * a + (0 + 0))))))) (complete_order E key order)"
    unfolding complete_order_def order_wait_ready_def order_wait_done_def
    by (intro costs_and_then auths loop costs_poll_while costs_order costs_trivial costs_from_x509s)
  then show ?thesis by (rule costs_mono) (simp add: algebra_simps)
qed

text \<open>The account and the order: the directory, the new account and the new order.\<close>

definition make_order :: "'s acme_env \<Rightarrow> string list \<Rightarrow> Provider \<Rightarrow> ('s, Order) acme" where
  "make_order E domains provider =
     and_then (cached_account E provider) (\<lambda>acme_account.
       order_build E acme_account (map (\<lambda>domain. \<lparr>id_type = ''dns'', id_value = domain\<rparr>) domains) provider)"

lemma order_certificate_split: "order_certificate E domains key provider = and_then (make_order E domains provider) (complete_order E key)"
  by (simp add: order_certificate_def make_order_def and_then_assoc)

lemma costs_location: "costs c n (location_str E m resp)"
  unfolding location_str_def by (intro costs_intros)

lemma costs_init_account: "costs (spent a b) (3 * a) (init_acme_account E provider)"
proof -
  have fetch: "costs (spent a b) a (fetch_directory E provider)"
    unfolding fetch_directory_def by (intro costs_intros costs_calls costs_nonce)
  have eab: "costs (spent a b) 0 (external_account_binding E required url)" for required url
    unfolding external_account_binding_def by (intro costs_intros costs_calls)
  have "costs (spent a b) (0 + 2 * a) (account_build E bld)" for bld
    unfolding account_build_def Let_def
    by (intro costs_and_then [OF eab] costs_and_then0 costs_authenticated_request costs_intros costs_location)
  then have "costs (spent a b) (a + 2 * a) (init_acme_account E provider)"
    unfolding init_acme_account_def by (intro costs_and_then [OF fetch]) simp
  then show ?thesis by simp
qed

lemma costs_make_order: "costs (spent a b) (5 * a) (make_order E domains provider)"
proof -
  have "costs (spent a b) 0 (\<lambda>s. (Val x, s\<lparr>st_account := Some x\<rparr>))" for x by (simp add: costs_def spent_def)
  then have "costs (spent a b) (3 * a) (and_then (init_acme_account E provider) (\<lambda>x s. (Val x, s\<lparr>st_account := Some x\<rparr>)))"
    by (intro costs_and_then0 costs_init_account)
  then have acc: "costs (spent a b) (3 * a) (cached_account E provider)"
    by (auto simp: cached_account_def costs_def split: option.split)
  have "costs (spent a b) (0 + 2 * a) (order_build E account identifiers provider)" for account identifiers
    unfolding order_build_def by (intro costs_and_then costs_and_then0 costs_authenticated_request costs_intros costs_location)
  then have "costs (spent a b) (3 * a + 2 * a) (make_order E domains provider)"
    unfolding make_order_def by (intro costs_and_then [OF acc]) simp
  then show ?thesis by simp
qed

lemma spent_order_certificate:
  assumes "backoff_bounded E" and "make_order E domains provider s = (r, t)"
  shows "spent a b (snd (order_certificate E domains key provider s)) \<le> spent a b s + 5 * a
    + (case r of Val order \<Rightarrow> length (or_authorization_urls order) * (32 * a + 390500 * b) + 24 * a + 50000 * b | _ \<Rightarrow> 0)"
proof -
  have t: "spent a b t \<le> spent a b s + 5 * a" using costsD [OF costs_make_order assms(2)] .
  show ?thesis
  proof (cases r)
    case (Val order)
    obtain x u where u: "complete_order E key order t = (x, u)" by fastforce
    from costsD [OF costs_complete_order [OF assms(1)] u, of a b] t Val u assms(2) show ?thesis
      by (simp add: order_certificate_split)
  qed (use t assms(2) in \<open>simp_all add: order_certificate_split\<close>)
qed

text \<open>
  (C18) An order does a bounded amount of work, whatever the server answers. Up to the new order, with the directory and the account,
  it sends at most 5 requests and does not sleep. When the server answers with an order of \<open>n\<close> authorizations, it sends at most
  \<open>32 n + 24\<close> more and sleeps at most \<open>390.5 n + 50\<close> seconds: \<open>140 n + 50\<close> between polls, and up to \<open>250.5\<close> for each
  authorization in the retries of storing its challenge. The condition is that the delays of the retries are those of their
  strategy. The time that the requests themselves take is not counted.
\<close>

theorem order_is_bounded:
  assumes "backoff_bounded E" and "order_certificate E domains key provider s = (r, s')"
    and "make_order E domains provider s = (made, t)"
  shows "case made of
      Val order \<Rightarrow> requests_sent s' \<le> requests_sent s + 5 + 32 * length (or_authorization_urls order) + 24
        \<and> time_slept s' \<le> time_slept s + 390500 * length (or_authorization_urls order) + 50000
    | _ \<Rightarrow> requests_sent s' \<le> requests_sent s + 5 \<and> time_slept s' \<le> time_slept s"
  using spent_order_certificate [OF assms(1,3), of 1 0 key] spent_order_certificate [OF assms(1,3), of 0 1 key] assms(2)
  by (cases made) (simp_all add: requests_sent_def time_slept_def mult.commute)

section \<open>A concrete server\<close>

text \<open>
  A server that answers every URL with a body of its own and a nonce that has never been seen; the challenge is
  processed for \<open>delay\<close> answers. The state counts the answers and holds the clock and the stored objects.
\<close>

record sample_acme =
  sm_count :: nat
  sm_now :: nat
  sm_objects :: "(string \<times> string) list"

definition nonce_of :: "nat \<Rightarrow> string" where
  "nonce_of n = replicate n CHR ''n''"

definition sample_answer :: "nat \<Rightarrow> nat \<Rightarrow> string \<Rightarrow> bytes" where
  "sample_answer delay n url = (if url = ''c'' \<and> n < delay then ''w'' else url)"

definition sample_send :: "nat \<Rightarrow> acme_request \<Rightarrow> sample_acme \<Rightarrow> (AcmeError, acme_response) result \<times> sample_acme" where
  "sample_send delay q e =
     (Inr \<lparr>ap_status = 200, ap_replay_nonce = Some (nonce_of (sm_count e)), ap_location = Some ''l'',
        ap_body = Some (sample_answer delay (sm_count e) (aq_url q))\<rparr>, e\<lparr>sm_count := Suc (sm_count e)\<rparr>)"

definition sample_directory :: Directory where
  "sample_directory = \<lparr>dr_new_nonce_url = ''n'', dr_new_account_url = ''a'', dr_new_order_url = ''o'',
     dr_revoke_cert_url = ''r'', dr_key_change_url = None, dr_new_authz_url = None\<rparr>"

definition sample_order :: "string \<Rightarrow> Order option" where
  "sample_order body =
     map_option (\<lambda>status. \<lparr>or_account = None, or_url = [], or_status = status,
         or_identifiers = [\<lparr>id_type = ''dns'', id_value = ''d''\<rparr>], or_authorization_urls = [''z''],
         or_finalize_url = ''f'', or_certificate_url = (if status = OrderValid then Some ''x'' else None)\<rparr>)
       (map_of [(''o'', OrderPending), (''l'', OrderReady), (''f'', OrderValid)] body)"

definition sample_challenge :: "string \<Rightarrow> Challenge option" where
  "sample_challenge body =
     Some \<lparr>ch_account = None, ch_type = ''http-01'', ch_url = ''c'',
       ch_status = (if body = ''w'' then ChallengeProcessing else ChallengeValid), ch_token = Some ''t''\<rparr>"

definition sample_acme_json :: acme_json where
  "sample_acme_json =
     \<lparr>aj_directory = (\<lambda>_. Some sample_directory),
      aj_account = (\<lambda>_. Some \<lparr>ac_directory = None, ac_id = [], ac_status = AccountValid, ac_contact = None,
         ac_terms_of_service_agreed = None, ac_provider = None\<rparr>),
      aj_order = sample_order,
      aj_authorization = (\<lambda>_. Some \<lparr>au_account = None, au_url = [], au_identifier = \<lparr>id_type = ''dns'', id_value = ''d''\<rparr>,
         au_status = AuthValid, au_challenges = [the (sample_challenge ''w'')]\<rparr>),
      aj_challenge = sample_challenge, aj_payload = (\<lambda>_. ''p''), aj_jws = jr_payload, aj_jwk = jwk_x,
      aj_jwk_thumb = jt_x, aj_lock = (\<lambda>l. sl_uuid l),
      aj_lock_from = (\<lambda>u. Some \<lparr>sl_name = ''certificate-v1'', sl_uuid = u, sl_expiry_time = 0, sl_attempts = Some 1\<rparr>)\<rparr>"

definition sample_x509 :: x509 where
  "sample_x509 = \<lparr>x_common_name = Some ''d'', x_issuer = None, x_public_key = ''k'', x_dns_names = [''d''],
     x_not_before = 0, x_not_after = 90 * 86400\<rparr>"

definition sample_acme_crypto :: acme_crypto where
  "sample_acme_crypto =
     \<lparr>ak_csr = (\<lambda>_ _. Some ''csr''), ak_sha256 = Some, ak_b64 = (\<lambda>b. b), ak_stack_from_pem = (\<lambda>_. Some [sample_x509]),
      ak_to_pem = (\<lambda>_. Some ''pem''), ak_private_key_to_der = (\<lambda>k. Some (pk_material k)), ak_any_ecdsa_type = (\<lambda>_. True),
      ak_parse_pems = (\<lambda>_. Some [sample_x509]), ak_public_key_to_der = (\<lambda>k. Some (pk_material k)), ak_public_key_to_pem = (\<lambda>_. Some ''pub''),
      ak_private_key_to_pem = (\<lambda>_. Some ''priv''), ak_private_key_from_pem = (\<lambda>_. Some \<lparr>pk_id = EC, pk_material = ''k''\<rparr>),
      ak_to_str = Some, ak_uri_ok = (\<lambda>_. True), ak_acme_host = ''acme-v02.api.letsencrypt.org''\<rparr>"

definition sample_acme_services :: "nat \<Rightarrow> sample_acme acme_services" where
  "sample_acme_services delay =
     \<lparr>sv_send = sample_send delay,
      sv_jws = (\<lambda>q e. (Inr \<lparr>jr_protected = jq_url q, jr_payload = jq_payload q, jr_signature = ''s''\<rparr>, e)),
      sv_jwk = (\<lambda>e. (Inr \<lparr>jwk_alg = ''ES256'', jwk_crv = ''P-256'', jwk_kty = ''EC'', jwk_use = ''sig'', jwk_x = ''x'', jwk_y = ''y''\<rparr>, e)),
      sv_get = (\<lambda>k e. (Inr (map_of (sm_objects e) k), e)),
      sv_put = (\<lambda>k v e. (Inr (), e\<lparr>sm_objects := (k, v) # sm_objects e\<rparr>)),
      sv_delete = (\<lambda>k e. (Inr (), e\<lparr>sm_objects := filter (\<lambda>(k', _). k' \<noteq> k) (sm_objects e)\<rparr>)),
      sv_encrypt = (\<lambda>x e. (Inr x, e)), sv_decrypt = (\<lambda>x e. (Inr x, e)),
      sv_gen_ec_key = (\<lambda>e. (Some \<lparr>pk_id = EC, pk_material = ''k''\<rparr>, e)),
      sv_uuid = (\<lambda>e. (nonce_of (sm_count e), e\<lparr>sm_count := Suc (sm_count e)\<rparr>)), sv_jitter = (\<lambda>e. (1, e)), sv_backoff = (\<lambda>e. []),
      sv_sleep = (\<lambda>ms e. e\<lparr>sm_now := sm_now e + ms\<rparr>), sv_now = sm_now\<rparr>"

definition sample_acme_env :: "nat \<Rightarrow> sample_acme acme_env" where
  "sample_acme_env delay = \<lparr>en_json = sample_acme_json, en_crypto = sample_acme_crypto, en_services = sample_acme_services delay\<rparr>"

definition sample_acme_state :: "sample_acme acme_state" where
  "sample_acme_state = \<lparr>st_env = \<lparr>sm_count = 0, sm_now = 0, sm_objects = []\<rparr>, st_nonce = None, st_account = None,
     st_trusted = None, st_trace = []\<rparr>"

definition sample_issued :: "sample_acme \<Rightarrow> string set" where
  "sample_issued e = nonce_of ` {..<sm_count e}"

lemma nonce_of_inject [simp]: "nonce_of m = nonce_of n \<longleftrightarrow> m = n"
  by (auto simp: nonce_of_def dest: arg_cong [of _ _ length])

interpretation sample_server: acme_server "sample_acme_env delay" sample_issued
  by unfold_locales
    (auto simp: sample_acme_env_def sample_acme_services_def sample_acme_crypto_def sample_send_def sample_issued_def)

abbreviation sample_key :: PKey where
  "sample_key \<equiv> \<lparr>pk_id = EC, pk_material = ''k''\<rparr>"

text \<open>The equations that run a concrete order.\<close>

lemma poll_while_eval:
  "\<not> waiting x \<Longrightarrow> poll_while E waiting poll message d n x = ret x"
  "waiting x \<Longrightarrow> poll_while E waiting poll message d (numeral k) x = and_then (sleep E d) (\<lambda>_.
     and_then (poll x) (\<lambda>y. poll_while E waiting poll message d (pred_numeral k) y))"
  by (cases n) (simp_all add: numeral_eq_Suc)

lemmas sample_acme_defs = sample_acme_env_def sample_acme_services_def sample_acme_crypto_def sample_acme_json_def
  sample_acme_state_def sample_send_def sample_answer_def sample_order_def sample_challenge_def sample_directory_def

lemmas order_run_defs = authenticated_request_def authenticated_request_raw_def directory_get_nonce_def take_nonce_def set_nonce_def
  store_nonce_def request_nonce_def extract_nonce_from_response_def acme_send_def config_jws_def config_jwk_def
  storage_put_def sleep_def service_def fetch_directory_def init_acme_account_def account_build_def account_builder_defs
  external_account_binding_def body_str_def body_bytes_def location_str_def get_account_and_directory_def
  account_post_def provider_of_def order_build_def gen_csr_def order_answer_def order_finalize_def order_poll_def
  order_certificate_chain_def order_wait_ready_def order_wait_done_def with_account_def authorizations_def
  get_challenge_def authorization_poll_def authorization_wait_done_def key_authorization_def challenge_post_def
  challenge_validate_def challenge_poll_def challenge_wait_done_def convert_to_pemfile_def from_x509s_def
  cached_account_def validate_authorization_def complete_order_def order_certificate_def is_done_def is_pending_def
  from_utf8_def is_success_def and_then_def Let_def utf8_valid.simps byte_in_def poll_while_eval

lemma sample_order_signs:
  "signed_nonces (st_trace (snd (order_certificate (sample_acme_env 0) [''d''] sample_key LetsEncrypt sample_acme_state)))
     = map nonce_of [1, 2, 3, 4, 5, 6, 7]"
  by (simp add: order_run_defs sample_acme_defs) (simp add: signed_nonces_def List.map_filter_def eval_nat_numeral)

lemma sample_order_made:
  "\<exists>order t. make_order (sample_acme_env 0) [''d''] LetsEncrypt sample_acme_state = (Val order, t)
     \<and> or_authorization_urls order = [''z'']"
  by (simp add: make_order_def order_run_defs sample_acme_defs)

theorem order_is_bounded_witness:
  "\<exists>r s'. order_certificate (sample_acme_env 0) [''d''] sample_key LetsEncrypt sample_acme_state = (r, s')
     \<and> requests_sent s' \<le> 61 \<and> time_slept s' \<le> 440500"
proof -
  obtain order t where m: "make_order (sample_acme_env 0) [''d''] LetsEncrypt sample_acme_state = (Val order, t)"
    "or_authorization_urls order = [''z'']" using sample_order_made by blast
  obtain r s' where o: "order_certificate (sample_acme_env 0) [''d''] sample_key LetsEncrypt sample_acme_state = (r, s')" by fastforce
  have "backoff_bounded (sample_acme_env 0)"
    by (simp add: backoff_bounded_def sample_acme_env_def sample_acme_services_def)
  from order_is_bounded [OF this o m(1)] m(2) o show ?thesis
    by (simp add: requests_sent_def time_slept_def spent_def sample_acme_state_def)
qed

theorem nonces_used_once_witness:
  "distinct (signed_nonces (st_trace (run_orders (sample_acme_env 0) [([''d''], sample_key, LetsEncrypt)] sample_acme_state)))
   \<and> length (signed_nonces (st_trace (run_orders (sample_acme_env 0) [([''d''], sample_key, LetsEncrypt)] sample_acme_state))) = 7"
proof
  show "distinct (signed_nonces (st_trace (run_orders (sample_acme_env 0) [([''d''], sample_key, LetsEncrypt)] sample_acme_state)))"
    by (rule nonces_used_once [OF sample_server.acme_server_axioms]) (simp_all add: sample_acme_state_def)
qed (simp add: sample_order_signs)

end
