(* ===== verification/Acme_Lock.thy ===== *)
theory Acme_Lock
  imports Acme_State
begin

text \<open>
  The lock that keeps the instances of an enclave from ordering a certificate at the same time,
  \<open>data-plane/src/acme/lock.rs\<close> and its use in \<open>data-plane/src/acme/cert.rs\<close>: an object in the shared storage with
  a random identifier and an expiry time. An instance that finds no valid lock writes its own, waits two seconds
  and orders when the stored lock is still its own. Times are milliseconds; the stored expiry time is cut
  to seconds. The operations are computations of \<open>Acme_State\<close>; the instances together are the step relation
  \<open>lock_step\<close>.
\<close>

section \<open>Operations\<close>

definition lock_new :: "string \<Rightarrow> nat \<Rightarrow> string \<Rightarrow> nat \<Rightarrow> StorageLock" where
  "lock_new name attempts uuid now =
     \<lparr>sl_name = name, sl_uuid = uuid, sl_expiry_time = now + 30000, sl_attempts = Some attempts\<rparr>"

definition new_with_config_client :: "'s acme_env \<Rightarrow> string \<Rightarrow> nat \<Rightarrow> ('s, StorageLock) acme" where
  "new_with_config_client E name attempts =
     and_then (service (sv_uuid (en_services E))) (\<lambda>uuid.
     and_then (utc_now E) (\<lambda>now. ret (lock_new name attempts uuid now)))"

definition lock_key_name :: "StorageLock \<Rightarrow> string" where
  "lock_key_name l = sl_name l @ ''.lock''"

definition is_expired :: "nat \<Rightarrow> StorageLock \<Rightarrow> bool" where
  "is_expired now l \<longleftrightarrow> now > sl_expiry_time l"

definition has_uuid :: "StorageLock \<Rightarrow> string \<Rightarrow> bool" where
  "has_uuid l uuid \<longleftrightarrow> sl_uuid l = uuid"

definition read_from_storage :: "'s acme_env \<Rightarrow> string \<Rightarrow> ('s, StorageLock option) acme" where
  "read_from_storage E name =
     and_then (storage_get E (name @ ''.lock'')) (\<lambda>response.
       case response of
         None \<Rightarrow> ret None
       | Some body \<Rightarrow> and_then (of_option AcSerdeError (aj_lock_from (en_json E) body)) (\<lambda>lock. ret (Some lock)))"

definition write_lock :: "'s acme_env \<Rightarrow> StorageLock \<Rightarrow> ('s, unit) acme" where
  "write_lock E l = storage_put E (lock_key_name l) (aj_lock (en_json E) l)"

definition is_persisted :: "'s acme_env \<Rightarrow> StorageLock \<Rightarrow> ('s, bool) acme" where
  "is_persisted E l =
     and_then (storage_get E (lock_key_name l)) (\<lambda>response.
       case response of
         None \<Rightarrow> ret False
       | Some body \<Rightarrow>
           and_then (of_option AcSerdeError (aj_lock_from (en_json E) body)) (\<lambda>lock. ret (has_uuid lock (sl_uuid l))))"

definition write_and_check_persisted :: "'s acme_env \<Rightarrow> StorageLock \<Rightarrow> ('s, bool) acme" where
  "write_and_check_persisted E l =
     and_then (write_lock E l) (\<lambda>_. and_then (sleep E 2000) (\<lambda>_. is_persisted E l))"

definition lock_delete :: "'s acme_env \<Rightarrow> StorageLock \<Rightarrow> ('s, unit) acme" where
  "lock_delete E l = storage_delete E (lock_key_name l)"

definition order_lock_exists_and_is_valid :: "nat \<Rightarrow> StorageLock option \<Rightarrow> bool" where
  "order_lock_exists_and_is_valid now lock_maybe =
     (case lock_maybe of Some lock \<Rightarrow> \<not> is_expired now lock | None \<Rightarrow> False)"

section \<open>The instances\<close>

text \<open>The lock as it is read back: its expiry time has lost the milliseconds.\<close>

definition stored_form :: "StorageLock \<Rightarrow> StorageLock" where
  "stored_form l = l\<lparr>sl_expiry_time := sl_expiry_time l div 1000 * 1000\<rparr>"

datatype phase =
    Idle
  | HasRead nat "StorageLock option"
  | Writing nat StorageLock
  | Waiting nat StorageLock
  | Ordering nat StorageLock

record lock_sys =
  ls_now :: nat
  ls_stored :: "StorageLock option"
  ls_phase :: "nat \<Rightarrow> phase"
  ls_used :: "string set"

definition lock_init :: "lock_sys \<Rightarrow> bool" where
  "lock_init s \<longleftrightarrow> (\<forall>i. ls_phase s i = Idle) \<and> (\<forall>l. ls_stored s = Some l \<longrightarrow> sl_uuid l \<in> ls_used s)"

abbreviation move :: "lock_sys \<Rightarrow> nat \<Rightarrow> phase \<Rightarrow> lock_sys" where
  "move s i p \<equiv> s\<lparr>ls_phase := (ls_phase s)(i := p)\<rparr>"

text \<open>
  The steps of the instances, interleaved: time passes; the stored lock is read; the instance decides whether it is
  valid and otherwise makes its own; the own lock is written; after two seconds the stored lock is compared with the
  own one; the order ends and the lock is deleted, or the order fails and the lock stays; an instance stops.
  \<open>latency\<close> bounds the time from reading to writing (\<open>None\<close>: unbounded) and \<open>timely\<close> says that an order starts and ends
  before its lock expires.
\<close>

text \<open>
  All instances share the clock \<open>ls_now\<close>: the expiry that one instance writes with its \<open>Utc::now()\<close> is tested by another with its own,
  and clocks that differ are not modelled. The retries of a write are one step.
\<close>

inductive lock_step :: "nat option \<Rightarrow> bool \<Rightarrow> lock_sys \<Rightarrow> lock_sys \<Rightarrow> bool"
  for latency :: "nat option" and timely :: bool where
  tick: "t \<ge> ls_now s \<Longrightarrow> (\<And>i w l. timely \<Longrightarrow> ls_phase s i = Ordering w l \<Longrightarrow> \<not> is_expired t (stored_form l)) \<Longrightarrow>
     lock_step latency timely s (s\<lparr>ls_now := t\<rparr>)"
| read: "ls_phase s i = Idle \<Longrightarrow> lock_step latency timely s (move s i (HasRead (ls_now s) (ls_stored s)))"
| wait: "ls_phase s i = HasRead r lock_maybe \<Longrightarrow> order_lock_exists_and_is_valid (ls_now s) lock_maybe \<Longrightarrow>
     lock_step latency timely s (move s i Idle)"
| create: "ls_phase s i = HasRead r lock_maybe \<Longrightarrow> \<not> order_lock_exists_and_is_valid (ls_now s) lock_maybe \<Longrightarrow>
     uuid \<notin> ls_used s \<Longrightarrow>
     lock_step latency timely s ((move s i (Writing r (lock_new name attempts uuid (ls_now s))))\<lparr>ls_used := insert uuid (ls_used s)\<rparr>)"
| put: "ls_phase s i = Writing r l \<Longrightarrow> (\<And>d. latency = Some d \<Longrightarrow> ls_now s \<le> r + d) \<Longrightarrow>
     lock_step latency timely s ((move s i (Waiting (ls_now s) l))\<lparr>ls_stored := Some (stored_form l)\<rparr>)"
| won: "ls_phase s i = Waiting w l \<Longrightarrow> w + 2000 \<le> ls_now s \<Longrightarrow> ls_stored s = Some p \<Longrightarrow> has_uuid p (sl_uuid l) \<Longrightarrow>
     (timely \<Longrightarrow> \<not> is_expired (ls_now s) (stored_form l)) \<Longrightarrow>
     lock_step latency timely s (move s i (Ordering w l))"
| lost: "ls_phase s i = Waiting w l \<Longrightarrow> w + 2000 \<le> ls_now s \<Longrightarrow> (\<And>p. ls_stored s = Some p \<Longrightarrow> \<not> has_uuid p (sl_uuid l)) \<Longrightarrow>
     lock_step latency timely s (move s i Idle)"
| finish: "ls_phase s i = Ordering w l \<Longrightarrow> lock_step latency timely s ((move s i Idle)\<lparr>ls_stored := None\<rparr>)"
| fail: "ls_phase s i = Ordering w l \<Longrightarrow> lock_step latency timely s (move s i Idle)"
| stop: "lock_step latency timely s (move s i Idle)"

inductive lock_reach :: "nat option \<Rightarrow> bool \<Rightarrow> lock_sys \<Rightarrow> bool" for latency timely where
  init: "lock_init s \<Longrightarrow> lock_reach latency timely s"
| step: "lock_reach latency timely s \<Longrightarrow> lock_step latency timely s s' \<Longrightarrow> lock_reach latency timely s'"

section \<open>Mutual exclusion\<close>

fun lock_of :: "phase \<Rightarrow> StorageLock option" where
  "lock_of (Writing r l) = Some l"
| "lock_of (Waiting w l) = Some l"
| "lock_of (Ordering w l) = Some l"
| "lock_of _ = None"

fun written_at :: "phase \<Rightarrow> (nat \<times> StorageLock) option" where
  "written_at (Waiting w l) = Some (w, l)"
| "written_at (Ordering w l) = Some (w, l)"
| "written_at _ = None"

lemma written_lock_of: "written_at p = Some (w, l) \<Longrightarrow> lock_of p = Some l"
  by (cases p) auto

text \<open>The identifiers of the locks tell them apart.\<close>

definition uuids_ok :: "lock_sys \<Rightarrow> bool" where
  "uuids_ok s \<longleftrightarrow>
     (\<forall>i l. lock_of (ls_phase s i) = Some l \<longrightarrow> sl_uuid l \<in> ls_used s)
     \<and> (\<forall>i j l l'. lock_of (ls_phase s i) = Some l \<and> lock_of (ls_phase s j) = Some l' \<and> sl_uuid l = sl_uuid l' \<longrightarrow> i = j)
     \<and> (\<forall>p. ls_stored s = Some p \<longrightarrow> sl_uuid p \<in> ls_used s)
     \<and> (\<forall>i w l p. written_at (ls_phase s i) = Some (w, l) \<and> ls_stored s = Some p \<and> sl_uuid p = sl_uuid l \<longrightarrow>
          p = stored_form l)
     \<and> (\<forall>i r l p. ls_phase s i = Writing r l \<and> ls_stored s = Some p \<longrightarrow> sl_uuid p \<noteq> sl_uuid l)"

text \<open>Times of reading and writing are in the past.\<close>

fun past :: "nat \<Rightarrow> phase \<Rightarrow> bool" where
  "past t (HasRead r p) \<longleftrightarrow> r \<le> t"
| "past t (Writing r l) \<longleftrightarrow> r \<le> t"
| "past t (Waiting w l) \<longleftrightarrow> w \<le> t"
| "past t (Ordering w l) \<longleftrightarrow> w \<le> t"
| "past t Idle \<longleftrightarrow> True"

lemma past_mono: "past t p \<Longrightarrow> t \<le> t' \<Longrightarrow> past t' p"
  by (cases p) auto

definition times_ok :: "lock_sys \<Rightarrow> bool" where
  "times_ok s \<longleftrightarrow> (\<forall>i. past (ls_now s) (ls_phase s i))"

text \<open>
  While the stored lock is that of an instance, another instance has read the storage before it was written, or
  has seen it, and will not write as long as it is valid.
\<close>

definition seen_ok :: "lock_sys \<Rightarrow> bool" where
  "seen_ok s \<longleftrightarrow>
     (\<forall>i j w l. written_at (ls_phase s i) = Some (w, l) \<and> ls_stored s = Some (stored_form l) \<and> i \<noteq> j \<longrightarrow>
        (\<forall>r p. ls_phase s j = HasRead r p \<longrightarrow> r \<le> w \<or> p = Some (stored_form l))
        \<and> (\<forall>r l'. ls_phase s j = Writing r l' \<longrightarrow> r \<le> w \<or> is_expired (ls_now s) (stored_form l)))"

definition holder_ok :: "lock_sys \<Rightarrow> bool" where
  "holder_ok s \<longleftrightarrow>
     (\<forall>i w l. ls_phase s i = Ordering w l \<longrightarrow>
        ls_stored s = Some (stored_form l) \<and> w + 2000 \<le> ls_now s \<and> \<not> is_expired (ls_now s) (stored_form l))"

lemma stored_form_uuid [simp]: "sl_uuid (stored_form l) = sl_uuid l"
  by (simp add: stored_form_def)

lemma lock_new_uuid [simp]: "sl_uuid (lock_new name attempts uuid now) = uuid"
  by (simp add: lock_new_def)

lemma uuids_okD:
  assumes "uuids_ok s"
  shows "lock_of (ls_phase s i) = Some l \<Longrightarrow> sl_uuid l \<in> ls_used s"
    and "lock_of (ls_phase s i) = Some l \<Longrightarrow> lock_of (ls_phase s j) = Some l' \<Longrightarrow> sl_uuid l = sl_uuid l' \<Longrightarrow> i = j"
    and "ls_stored s = Some p \<Longrightarrow> sl_uuid p \<in> ls_used s"
    and "written_at (ls_phase s i) = Some (w, l) \<Longrightarrow> ls_stored s = Some p \<Longrightarrow> sl_uuid p = sl_uuid l \<Longrightarrow> p = stored_form l"
    and "ls_phase s i = Writing r l \<Longrightarrow> ls_stored s = Some p \<Longrightarrow> sl_uuid p \<noteq> sl_uuid l"
  using assms unfolding uuids_ok_def by blast+

lemma uuids_okI:
  assumes "\<And>i l. lock_of (ls_phase s i) = Some l \<Longrightarrow> sl_uuid l \<in> ls_used s"
    and "\<And>i j l l'. lock_of (ls_phase s i) = Some l \<Longrightarrow> lock_of (ls_phase s j) = Some l' \<Longrightarrow> sl_uuid l = sl_uuid l' \<Longrightarrow> i = j"
    and "\<And>p. ls_stored s = Some p \<Longrightarrow> sl_uuid p \<in> ls_used s"
    and "\<And>i w l p. written_at (ls_phase s i) = Some (w, l) \<Longrightarrow> ls_stored s = Some p \<Longrightarrow> sl_uuid p = sl_uuid l \<Longrightarrow> p = stored_form l"
    and "\<And>i r l p. ls_phase s i = Writing r l \<Longrightarrow> ls_stored s = Some p \<Longrightarrow> sl_uuid p \<noteq> sl_uuid l"
  shows "uuids_ok s"
  using assms unfolding uuids_ok_def by blast

lemma seen_okD:
  assumes "seen_ok s" "written_at (ls_phase s i) = Some (w, l)" "ls_stored s = Some (stored_form l)" "i \<noteq> j"
  shows "ls_phase s j = HasRead r p \<Longrightarrow> r \<le> w \<or> p = Some (stored_form l)"
    and "ls_phase s j = Writing r l' \<Longrightarrow> r \<le> w \<or> is_expired (ls_now s) (stored_form l)"
  using assms unfolding seen_ok_def by blast+

lemma seen_okI:
  assumes "\<And>i j w l r p. written_at (ls_phase s i) = Some (w, l) \<Longrightarrow> ls_stored s = Some (stored_form l) \<Longrightarrow> i \<noteq> j \<Longrightarrow>
      ls_phase s j = HasRead r p \<Longrightarrow> r \<le> w \<or> p = Some (stored_form l)"
    and "\<And>i j w l r l'. written_at (ls_phase s i) = Some (w, l) \<Longrightarrow> ls_stored s = Some (stored_form l) \<Longrightarrow> i \<noteq> j \<Longrightarrow>
      ls_phase s j = Writing r l' \<Longrightarrow> r \<le> w \<or> is_expired (ls_now s) (stored_form l)"
  shows "seen_ok s"
  using assms unfolding seen_ok_def by blast

lemma holder_okD:
  assumes "holder_ok s" "ls_phase s i = Ordering w l"
  shows "ls_stored s = Some (stored_form l)" "w + 2000 \<le> ls_now s" "\<not> is_expired (ls_now s) (stored_form l)"
  using assms unfolding holder_ok_def by blast+

lemma uuids_ok_move:
  assumes "uuids_ok s" "lock_of p = None"
  shows "uuids_ok (move s i p)"
proof -
  have "written_at p = None" and "\<And>r l. p \<noteq> Writing r l" using assms(2) by (cases p; simp)+
  then show ?thesis
    using assms(2) by (intro uuids_okI) (auto dest: uuids_okD [OF assms(1)] split: if_splits)
qed

lemma seen_ok_move:
  assumes "seen_ok s" "written_at p = None" "\<And>r l. p \<noteq> Writing r l"
    and "\<And>r q w l j. p = HasRead r q \<Longrightarrow> written_at (ls_phase s j) = Some (w, l) \<Longrightarrow> ls_stored s = Some (stored_form l)
      \<Longrightarrow> i \<noteq> j \<Longrightarrow> r \<le> w \<or> q = Some (stored_form l)"
  shows "seen_ok (move s i p)"
  using assms(2-4) by (intro seen_okI) (auto dest: seen_okD [OF assms(1)] split: if_splits)

lemma holder_ok_move: "holder_ok s \<Longrightarrow> (\<And>w l. p \<noteq> Ordering w l) \<Longrightarrow> holder_ok (move s i p)"
  by (simp add: holder_ok_def)

lemma uuids_ok_step:
  assumes u: "uuids_ok s" and "lock_step latency timely s s'"
  shows "uuids_ok s'"
  using assms(2)
proof cases
  case (create i r p uuid name attempts)
  then show ?thesis by (intro uuids_okI) (auto dest: uuids_okD [OF u] split: if_splits)
next
  case (put i r l)
  then have l: "lock_of (ls_phase s i) = Some l" by simp
  have ne: "sl_uuid l' \<noteq> sl_uuid l" if "lock_of (ls_phase s j) = Some l'" "j \<noteq> i" for j l'
    using uuids_okD(2) [OF u that(1) l] that(2) by blast
  have writing: "sl_uuid l \<noteq> sl_uuid l'" if "ls_phase s j = Writing r' l'" "j \<noteq> i" for j r' l'
    using that ne [of j l'] by simp
  have written: "sl_uuid l \<noteq> sl_uuid l'" if "written_at (ls_phase s j) = Some (w, l')" "j \<noteq> i" for j w l'
    using ne [OF written_lock_of [OF that(1)] that(2)] by simp
  from ne ne [symmetric] put l uuids_okD(1) [OF u l] show ?thesis
    by (intro uuids_okI) (auto dest: uuids_okD [OF u] written writing split: if_splits)
next
  case (won i w l p)
  then have l: "lock_of (ls_phase s i) = Some l" and w: "written_at (ls_phase s i) = Some (w, l)" by simp_all
  have "sl_uuid l' \<noteq> sl_uuid l" if "lock_of (ls_phase s j) = Some l'" "j \<noteq> i" for j l'
    using uuids_okD(2) [OF u that(1) l] that(2) by blast
  from this this [symmetric] won(1,4) uuids_okD(1) [OF u l] uuids_okD(4) [OF u w] show ?thesis
    by (intro uuids_okI) (auto dest: uuids_okD [OF u] split: if_splits)
next
  case (tick t)
  then show ?thesis by (intro uuids_okI) (auto dest: uuids_okD [OF u])
next
  case (finish i w l)
  then show ?thesis by (intro uuids_okI) (auto dest: uuids_okD [OF u] split: if_splits)
qed (simp_all add: uuids_ok_move [OF u])

lemma times_ok_step:
  assumes "times_ok s" "lock_step latency timely s s'"
  shows "times_ok s'"
proof -
  note t = assms(1) [unfolded times_ok_def, rule_format]
  from assms(2) show ?thesis
  proof cases
    case (tick t)
    then show ?thesis using past_mono [OF t] by (simp add: times_ok_def)
  next
    case (create i r p uuid name attempts)
    then show ?thesis using t [of i] t by (auto simp: times_ok_def)
  next
    case (won i w l p)
    then show ?thesis using t [of i] t by (auto simp: times_ok_def)
  qed (use t in \<open>auto simp: times_ok_def\<close>)
qed

text \<open>An instance that has read before a lock was written is too late to write over it once its order may begin.\<close>

lemma seen_ok_step:
  assumes "seen_ok s" "uuids_ok s" "times_ok s" "lock_step latency timely s s'"
  shows "seen_ok s'"
  using assms(4)
proof cases
  case (tick t)
  have "is_expired t l" if "is_expired (ls_now s) l" for l using that tick(2) by (simp add: is_expired_def)
  with tick(1) show ?thesis by (intro seen_okI) (auto dest: seen_okD [OF assms(1)])
next
  case (create i r p uuid name attempts)
  have "r \<le> w \<or> is_expired (ls_now s) (stored_form l)"
    if "written_at (ls_phase s k) = Some (w, l)" "ls_stored s = Some (stored_form l)" "k \<noteq> i" for k w l
    using seen_okD(1) [OF assms(1) that create(2)] create(3) by (auto simp: order_lock_exists_and_is_valid_def)
  with create(1) show ?thesis by (intro seen_okI) (auto dest: seen_okD [OF assms(1)] split: if_splits)
next
  case (put i r l)
  have other: "stored_form l' \<noteq> stored_form l" if "written_at (ls_phase s j) = Some (w, l')" for j w l'
  proof -
    have "j \<noteq> i" using that put(2) by auto
    moreover have "lock_of (ls_phase s i) = Some l" using put(2) by simp
    ultimately have "sl_uuid l' \<noteq> sl_uuid l" using uuids_okD(2) [OF assms(2) written_lock_of [OF that]] by blast
    then show ?thesis by (metis stored_form_uuid)
  qed
  note other' = other [THEN not_sym]
  have t: "past (ls_now s) (ls_phase s j)" for j using assms(3) by (simp add: times_ok_def)
  have "r' \<le> ls_now s" if "ls_phase s j = HasRead r' p" for j r' p using t [of j] that by simp
  moreover have "r' \<le> ls_now s" if "ls_phase s j = Writing r' l'" for j r' l' using t [of j] that by simp
  ultimately show ?thesis using put(1) by (intro seen_okI) (auto dest: other other' split: if_splits)
next
  case (won i w l p)
  then have "written_at (ls_phase s i) = Some (w, l)" by simp
  with won(1) show ?thesis by (intro seen_okI) (auto dest: seen_okD [OF assms(1)] split: if_splits)
next
  case (finish i w l)
  then show ?thesis by (intro seen_okI) auto
qed (auto intro!: seen_ok_move [OF assms(1)])

lemma holder_ok_step:
  assumes "holder_ok s" "seen_ok s" "uuids_ok s" "lock_step (Some d) True s s'" "d < 2000"
  shows "holder_ok s'"
  using assms(4)
proof cases
  case (tick t)
  then show ?thesis using holder_okD [OF assms(1)] by (fastforce simp: holder_ok_def)
next
  case (create i r p uuid name attempts)
  with assms(1) show ?thesis by (simp add: holder_ok_def)
next
  case (put i r l)
  have False if h: "ls_phase s j = Ordering w l'" for j w l'
  proof -
    note hold = holder_okD [OF assms(1) h]
    from h put(2) have "j \<noteq> i" by auto
    then have "r \<le> w"
      using seen_okD(2) [OF assms(2) _ hold(1) _ put(2)] hold(3) h by (metis written_at.simps(2))
    with put(3) [of d] hold(2) assms(5) show False by simp
  qed
  with put(1) show ?thesis by (auto simp: holder_ok_def split: if_splits)
next
  case (won i w l p)
  then have "p = stored_form l"
    using uuids_okD(4) [OF assms(3), of i w l p] by (simp add: has_uuid_def)
  with won holder_okD [OF assms(1)] show ?thesis by (auto simp: holder_ok_def split: if_splits)
next
  case (finish i w l)
  have "j = i" if "ls_phase s j = Ordering w' l'" for j w' l'
  proof -
    have "stored_form l = stored_form l'" using holder_okD(1) [OF assms(1)] that finish(2) by (metis option.inject)
    then have "sl_uuid l' = sl_uuid l" by (metis stored_form_uuid)
    then show ?thesis using uuids_okD(2) [OF assms(3), of j l' i l] that finish(2) by simp
  qed
  with finish(1) show ?thesis by (auto simp: holder_ok_def split: if_splits)
qed (simp_all add: holder_ok_move [OF assms(1)])

lemma lock_reach_inv:
  assumes "lock_reach (Some d) True s" "d < 2000"
  shows "holder_ok s \<and> seen_ok s \<and> uuids_ok s \<and> times_ok s"
  using assms(1)
proof induction
  case (init s)
  then show ?case by (auto simp: lock_init_def holder_ok_def seen_ok_def uuids_ok_def times_ok_def)
next
  case (step s s')
  with assms(2) show ?case by (blast intro: holder_ok_step seen_ok_step uuids_ok_step times_ok_step)
qed

text \<open>
  (C7) At most one instance orders a certificate: when every instance writes its lock within less than two seconds
  after reading the storage and ends its order before its lock expires, two instances never order at the
  same time, however the instances, their failures and the passing of time are interleaved.
\<close>

theorem orders_are_exclusive:
  assumes "lock_reach (Some d) True s" and "d < 2000"
    and "ls_phase s i = Ordering w l" and "ls_phase s j = Ordering w' l'"
  shows "i = j"
proof -
  note inv = lock_reach_inv [OF assms(1,2)]
  have "stored_form l = stored_form l'"
    using inv holder_okD(1) [OF _ assms(3)] holder_okD(1) [OF _ assms(4)] by simp
  then have "sl_uuid l = sl_uuid l'" by (metis stored_form_uuid)
  then show ?thesis using uuids_okD(2) [of s i l j l'] inv assms(3,4) by simp
qed

text \<open>A run: instance 0 reads the empty storage together with instance 1, writes its lock and wins it.\<close>

definition first_state :: lock_sys where
  "first_state = \<lparr>ls_now = 0, ls_stored = None, ls_phase = (\<lambda>_. Idle), ls_used = {}\<rparr>"

definition lock_a :: StorageLock where
  "lock_a = lock_new ''cert'' 1 ''a'' 0"

definition lock_b :: StorageLock where
  "lock_b = lock_new ''cert'' 1 ''b'' 2000"

definition one_orders :: "phase \<Rightarrow> lock_sys" where
  "one_orders p = \<lparr>ls_now = 2000, ls_stored = Some (stored_form lock_a),
     ls_phase = (\<lambda>_. Idle)(1 := p, 0 := Ordering 0 lock_a), ls_used = {''a''}\<rparr>"

lemma lock_a_valid: "\<not> is_expired 2000 (stored_form lock_a)" "\<not> is_expired 4000 (stored_form lock_a)"
  by (simp_all add: is_expired_def stored_form_def lock_a_def lock_new_def)

lemma lock_b_valid: "\<not> is_expired 4000 (stored_form lock_b)"
  by (simp add: is_expired_def stored_form_def lock_b_def lock_new_def)

lemma reach_tick:
  assumes "lock_reach latency timely s" "ls_now s \<le> t"
    and "\<forall>i. \<forall>w l. ls_phase s i = Ordering w l \<longrightarrow> \<not> is_expired t (stored_form l)"
  shows "lock_reach latency timely (s\<lparr>ls_now := t\<rparr>)"
  using assms by (blast intro: lock_reach.step lock_step.tick)

lemma reach_one_orders: "lock_reach (Some d) True (one_orders (HasRead 0 None))"
proof -
  let ?s = "\<lambda>t st p u. \<lparr>ls_now = t, ls_stored = st, ls_phase = (\<lambda>_. Idle)(1 := HasRead 0 None, 0 := p), ls_used = u\<rparr>"
  note step = lock_reach.step [of "Some d" True]
  have "lock_reach (Some d) True first_state"
    by (rule lock_reach.init) (simp add: lock_init_def first_state_def)
  from step [OF this lock_step.read [of _ 1]] have "lock_reach (Some d) True (?s 0 None Idle {})"
    by (simp add: first_state_def fun_upd_idem)
  from step [OF this lock_step.read [of _ 0]] have "lock_reach (Some d) True (?s 0 None (HasRead 0 None) {})"
    by simp
  from step [OF this lock_step.create [of _ 0 0 None "''a''" _ _ "''cert''" 1]]
  have "lock_reach (Some d) True (?s 0 None (Writing 0 lock_a) {''a''})"
    by (simp add: order_lock_exists_and_is_valid_def lock_a_def)
  from step [OF this lock_step.put [of _ 0 0 lock_a]]
  have "lock_reach (Some d) True (?s 0 (Some (stored_form lock_a)) (Waiting 0 lock_a) {''a''})"
    by simp
  from reach_tick [OF this, of 2000]
  have "lock_reach (Some d) True (?s 2000 (Some (stored_form lock_a)) (Waiting 0 lock_a) {''a''})"
    by simp
  from step [OF this lock_step.won [of _ 0 0 lock_a "stored_form lock_a"]] show ?thesis
    by (simp add: one_orders_def has_uuid_def lock_a_valid)
qed

theorem orders_are_exclusive_witness:
  "lock_reach (Some 1500) True (one_orders (HasRead 0 None))
   \<and> {j. \<exists>w' l'. ls_phase (one_orders (HasRead 0 None)) j = Ordering w' l'} = {0}"
proof -
  have "ls_phase (one_orders (HasRead 0 None)) 0 = Ordering 0 lock_a" by (simp add: one_orders_def)
  with orders_are_exclusive [OF reach_one_orders _ this, of 1500] show ?thesis
    using reach_one_orders by auto
qed

text \<open>
  The two seconds an instance waits are all that protects it: as soon as an instance may take two seconds from
  reading the storage to writing its lock, two instances can order a certificate at the same time, both
  before their locks expire. The lock in the storage is replaced, not compared and exchanged.
\<close>

theorem orders_overlap_at_two_seconds:
  "\<exists>s w l w' l'. lock_reach (Some 2000) True s \<and> ls_phase s 0 = Ordering w l \<and> ls_phase s 1 = Ordering w' l'"
proof -
  let ?s = "\<lambda>t st p. \<lparr>ls_now = t, ls_stored = Some (stored_form st),
    ls_phase = (\<lambda>_. Idle)(1 := p, 0 := Ordering 0 lock_a), ls_used = {''b'', ''a''}\<rparr>"
  note step = lock_reach.step [of "Some 2000" True]
  from step [OF reach_one_orders lock_step.create [of _ 1 0 None "''b''" _ _ "''cert''" 1]]
  have "lock_reach (Some 2000) True (?s 2000 lock_a (Writing 0 lock_b))"
    by (simp add: order_lock_exists_and_is_valid_def lock_b_def one_orders_def fun_upd_twist)
  from step [OF this lock_step.put [of _ 1 0 lock_b]]
  have "lock_reach (Some 2000) True (?s 2000 lock_b (Waiting 2000 lock_b))"
    by (simp add: fun_upd_twist)
  from reach_tick [OF this, of 4000] have "lock_reach (Some 2000) True (?s 4000 lock_b (Waiting 2000 lock_b))"
    by (simp add: lock_a_valid)
  from step [OF this lock_step.won [of _ 1 2000 lock_b "stored_form lock_b"]]
  have "lock_reach (Some 2000) True (?s 4000 lock_b (Ordering 2000 lock_b))"
    by (simp add: has_uuid_def lock_b_valid fun_upd_twist)
  then show ?thesis by fastforce
qed

end
