(* ===== verification/Acme_Cert.thy ===== *)
theory Acme_Cert
  imports Acme_Order Acme_Lock
begin

text \<open>
  The trusted certificate of an enclave: its storage (\<open>data-plane/src/acme/raw_cert.rs\<close>), the retriever with its
  renewal (\<open>cert.rs\<close>), the key pair (\<open>key.rs\<close>), the times of \<open>utils.rs\<close> and \<open>get_trusted_cert\<close> of \<open>mod.rs\<close>.
  Times are milliseconds. A renewal that is scheduled is the event \<open>RenewalIn\<close>; what it does is \<open>renewal_task\<close>. The
  trusted certificate store is never poisoned, because nothing panics while it is locked.
\<close>

section \<open>Times\<close>

abbreviation CERTIFICATE_LOCK_NAME :: string where
  "CERTIFICATE_LOCK_NAME \<equiv> ''certificate-v1''"

abbreviation CERTIFICATE_OBJECT_KEY :: string where
  "CERTIFICATE_OBJECT_KEY \<equiv> ''certificate-v1.pem''"

definition ONE_DAY_IN_SECONDS :: nat where
  "ONE_DAY_IN_SECONDS = 86400"

definition THIRTY_DAYS_IN_SECONDS :: nat where
  "THIRTY_DAYS_IN_SECONDS = ONE_DAY_IN_SECONDS * 30"

definition SIXTY_DAYS_IN_SECONDS :: nat where
  "SIXTY_DAYS_IN_SECONDS = ONE_DAY_IN_SECONDS * 60"

text \<open>The expiry of a certificate is in seconds.\<close>

definition asn1_time_to_system_time :: "nat \<Rightarrow> nat" where
  "asn1_time_to_system_time time = time * 1000"

definition get_jittered_time :: "'s acme_env \<Rightarrow> nat \<Rightarrow> ('s, nat) acme" where
  "get_jittered_time E base_time =
     and_then (service (sv_jitter (en_services E))) (\<lambda>jitter. ret (base_time + jitter * 1000))"

text \<open>\<open>SystemTime::duration_since(SystemTime::now())\<close>.\<close>

definition duration_until :: "'s acme_env \<Rightarrow> nat \<Rightarrow> ('s, nat) acme" where
  "duration_until E time =
     and_then (utc_now E) (\<lambda>now. if now \<le> time then ret (time - now) else throw AcSystemTimeError)"

definition seconds_with_jitter_to_time :: "'s acme_env \<Rightarrow> nat \<Rightarrow> ('s, nat) acme" where
  "seconds_with_jitter_to_time E seconds =
     and_then (utc_now E) (\<lambda>now.
     and_then (get_jittered_time E (now + seconds * 1000)) (duration_until E))"

section \<open>Certificates in storage\<close>

definition raw_from_storage :: "'s acme_env \<Rightarrow> ('s, RawAcmeCertificate option) acme" where
  "raw_from_storage E =
     and_then (storage_get E CERTIFICATE_OBJECT_KEY) (\<lambda>response_maybe.
       ret (map_option (\<lambda>body. \<lparr>rc_certificate = body\<rparr>) response_maybe))"

definition to_x509s :: "'s acme_env \<Rightarrow> RawAcmeCertificate \<Rightarrow> ('s, x509 list) acme" where
  "to_x509s E raw = of_option AcOpenSSLError (ak_stack_from_pem (en_crypto E) (rc_certificate raw))"

definition earliest_expiry :: "x509 list \<Rightarrow> nat option" where
  "earliest_expiry x509s =
     fold (\<lambda>cert earliest. case earliest of
         None \<Rightarrow> Some (x_not_after cert)
       | Some e \<Rightarrow> if x_not_after cert < e then Some (x_not_after cert) else earliest) x509s None"

definition time_till_renewal_required :: "'s acme_env \<Rightarrow> x509 list \<Rightarrow> ('s, nat) acme" where
  "time_till_renewal_required E x509s =
     and_then (utc_now E) (\<lambda>now.
       let thirty_days_from_now = now div 1000 + THIRTY_DAYS_IN_SECONDS in
       case earliest_expiry x509s of
         None \<Rightarrow> ret 0
       | Some expiry \<Rightarrow>
           if expiry < thirty_days_from_now then ret 0
           else and_then (get_jittered_time E (asn1_time_to_system_time expiry - THIRTY_DAYS_IN_SECONDS * 1000))
                  (duration_until E))"

definition to_certified_key :: "'s acme_env \<Rightarrow> x509 list \<Rightarrow> PKey \<Rightarrow> ('s, CertifiedKey) acme" where
  "to_certified_key E x509s private_key =
     and_then (of_option AcOpenSSLError (ak_private_key_to_der (en_crypto E) private_key)) (\<lambda>der.
       if \<not> ak_any_ecdsa_type (en_crypto E) der then throw AcRustlsSignError
       else if list_ex (\<lambda>cert. ak_to_pem (en_crypto E) cert = None) x509s then throw AcOpenSSLError
       else and_then (of_option AcPEMError
              (ak_parse_pems (en_crypto E) (concat (map (\<lambda>cert. the (ak_to_pem (en_crypto E) cert)) x509s)))) (\<lambda>cert_chain.
            ret \<lparr>ck_chain = cert_chain, ck_key = der\<rparr>))"

definition raw_persist :: "'s acme_env \<Rightarrow> RawAcmeCertificate \<Rightarrow> ('s, unit) acme" where
  "raw_persist E raw = storage_put E CERTIFICATE_OBJECT_KEY (rc_certificate raw)"

section \<open>The retriever\<close>

definition decrypt_certificate :: "'s acme_env \<Rightarrow> RawAcmeCertificate \<Rightarrow> ('s, RawAcmeCertificate) acme" where
  "decrypt_certificate E raw =
     and_then (service (sv_decrypt (en_services E) [(''certificate'', rc_certificate raw)])) (\<lambda>response.
     and_then (of_result AcE3ClientError response) (\<lambda>data.
     and_then (of_option AcSerdeError (map_of data ''certificate'')) (\<lambda>c. ret \<lparr>rc_certificate = c\<rparr>)))"

definition encrypt_certificate :: "'s acme_env \<Rightarrow> RawAcmeCertificate \<Rightarrow> ('s, RawAcmeCertificate) acme" where
  "encrypt_certificate E raw =
     and_then (service (sv_encrypt (en_services E) [(''certificate'', rc_certificate raw)])) (\<lambda>response.
     and_then (of_result AcE3ClientError response) (\<lambda>data.
     and_then (of_option AcSerdeError (map_of data ''certificate'')) (\<lambda>c. ret \<lparr>rc_certificate = c\<rparr>)))"

definition write_certificate_to_rwlock :: "CertifiedKey \<Rightarrow> ('s, unit) acme" where
  "write_certificate_to_rwlock cert =
     and_then (emit (Installed cert)) (\<lambda>_ s. (Val (), s\<lparr>st_trusted := Some cert\<rparr>))"

definition schedule_certificate_renewal :: "nat \<Rightarrow> ('s, unit) acme" where
  "schedule_certificate_renewal time_till_renewal = emit (RenewalIn time_till_renewal)"

definition fetch_certificate_and_renewal_time :: "'s acme_env \<Rightarrow> PKey \<Rightarrow> ('s, (CertifiedKey \<times> nat) option) acme" where
  "fetch_certificate_and_renewal_time E key =
     and_then (raw_from_storage E) (\<lambda>maybe_raw.
       case maybe_raw of
         None \<Rightarrow> ret None
       | Some raw \<Rightarrow>
           and_then (decrypt_certificate E raw) (\<lambda>decrypted.
           and_then (to_x509s E decrypted) (\<lambda>x509s.
           and_then (time_till_renewal_required E x509s) (\<lambda>time_till_renewal.
           and_then (to_certified_key E x509s key) (\<lambda>certified_key. ret (Some (certified_key, time_till_renewal)))))))"

definition fetch_and_decrypt_certificate :: "'s acme_env \<Rightarrow> PKey \<Rightarrow> ('s, CertifiedKey option) acme" where
  "fetch_and_decrypt_certificate E key =
     and_then (raw_from_storage E) (\<lambda>maybe_raw.
       case maybe_raw of
         None \<Rightarrow> ret None
       | Some raw \<Rightarrow>
           and_then (decrypt_certificate E raw) (\<lambda>decrypted.
           and_then (to_x509s E decrypted) (\<lambda>x509s.
           and_then (time_till_renewal_required E x509s) (\<lambda>time_till_renewal.
           and_then (schedule_certificate_renewal time_till_renewal) (\<lambda>_.
           and_then (to_certified_key E x509s key) (\<lambda>certified_key. ret (Some certified_key)))))))"

definition get_order_lock :: "'s acme_env \<Rightarrow> ('s, StorageLock option) acme" where
  "get_order_lock E = read_from_storage E CERTIFICATE_LOCK_NAME"

definition number_of_attempts :: "StorageLock option \<Rightarrow> nat" where
  "number_of_attempts lock_maybe =
     (case lock_maybe of None \<Rightarrow> 0 | Some lock \<Rightarrow> (case sl_attempts lock of None \<Rightarrow> 0 | Some n \<Rightarrow> n))"

definition create_certificate_and_persist_with_lock ::
  "'s acme_env \<Rightarrow> PKey \<Rightarrow> EnclaveContext \<Rightarrow> nat \<Rightarrow> ('s, CertifiedKey option) acme" where
  "create_certificate_and_persist_with_lock E key ctx attempts =
     and_then (new_with_config_client E CERTIFICATE_LOCK_NAME attempts) (\<lambda>certificate_lock.
     and_then (write_and_check_persisted E certificate_lock) (\<lambda>persisted.
       if persisted then
         and_then (order_certificate E (get_trusted_cert_domains ctx) key (if attempts \<le> 2 then LetsEncrypt else ZeroSSL)) (\<lambda>raw.
         and_then (encrypt_certificate E raw) (\<lambda>encrypted.
         and_then (raw_persist E encrypted) (\<lambda>_.
         and_then (lock_delete E certificate_lock) (\<lambda>_.
         and_then (to_x509s E raw) (\<lambda>x509s.
         and_then (to_certified_key E x509s key) (\<lambda>certified_key. ret (Some certified_key)))))))
       else ret None))"

text \<open>The loop of \<open>get_or_create_enclave_certificate\<close>; the number is that of the checks left.\<close>

fun poll_certificate :: "'s acme_env \<Rightarrow> PKey \<Rightarrow> EnclaveContext \<Rightarrow> nat \<Rightarrow> ('s, CertifiedKey) acme" where
  "poll_certificate E key ctx 0 = throw (AcGeneral ''Max retries for getting certificate reached'')"
| "poll_certificate E key ctx (Suc checks) =
     and_then (fetch_and_decrypt_certificate E key) (\<lambda>fetched.
       case fetched of
         Some certificate \<Rightarrow> ret certificate
       | None \<Rightarrow>
           and_then (get_order_lock E) (\<lambda>order_lock_maybe.
           and_then (utc_now E) (\<lambda>now.
             if order_lock_exists_and_is_valid now order_lock_maybe
             then and_then (sleep E 5000) (\<lambda>_. poll_certificate E key ctx checks)
             else
               and_then (create_certificate_and_persist_with_lock E key ctx (number_of_attempts order_lock_maybe + 1)) (\<lambda>created.
               and_then (seconds_with_jitter_to_time E SIXTY_DAYS_IN_SECONDS) (\<lambda>time_till_renewal.
               and_then (schedule_certificate_renewal time_till_renewal) (\<lambda>_.
                 case created of
                   Some certificate \<Rightarrow> ret certificate
                 | None \<Rightarrow> and_then (sleep E 5000) (\<lambda>_. poll_certificate E key ctx checks)))))))"

definition get_or_create_enclave_certificate :: "'s acme_env \<Rightarrow> PKey \<Rightarrow> EnclaveContext \<Rightarrow> ('s, CertifiedKey) acme" where
  "get_or_create_enclave_certificate E key ctx =
     and_then (poll_certificate E key ctx 9) (\<lambda>certificate.
     and_then (write_certificate_to_rwlock certificate) (\<lambda>_. ret certificate))"

section \<open>Renewal\<close>

text \<open>Where the code looks at an error instead of passing it on.\<close>

definition attempt :: "('s, 'a) acme \<Rightarrow> ('s, (AcmeError, 'a) result) acme" where
  "attempt m = (\<lambda>s. case m s of
       (Val v, s') \<Rightarrow> (Val (Inr v), s') | (Err e, s') \<Rightarrow> (Val (Inl e), s') | (Panicked, s') \<Rightarrow> (Panicked, s'))"

text \<open>A call on a clone of the retriever: the account it makes is not kept.\<close>

definition on_clone :: "('s, 'a) acme \<Rightarrow> ('s, 'a) acme" where
  "on_clone m = (\<lambda>s. case m s of (r, s') \<Rightarrow> (r, s'\<lparr>st_account := st_account s\<rparr>))"

definition renew_certificate_and_update_store :: "'s acme_env \<Rightarrow> PKey \<Rightarrow> EnclaveContext \<Rightarrow> ('s, unit) acme" where
  "renew_certificate_and_update_store E key ctx =
     and_then (get_order_lock E) (\<lambda>order_lock_maybe.
     and_then (utc_now E) (\<lambda>now.
       if order_lock_exists_and_is_valid now order_lock_maybe then ret ()
       else
         and_then (attempt (on_clone (create_certificate_and_persist_with_lock E key ctx (number_of_attempts order_lock_maybe + 1)))) (\<lambda>created.
           case created of
             Inr (Some cert) \<Rightarrow> write_certificate_to_rwlock cert
           | _ \<Rightarrow> throw (AcGeneral ''Error renewing certificate''))))"

text \<open>The attempts \<open>for i in 1..retries\<close>, with the delay that is multiplied after each; the last error remains.\<close>

fun renewal_attempts :: "'s acme_env \<Rightarrow> PKey \<Rightarrow> EnclaveContext \<Rightarrow> nat list \<Rightarrow> nat \<Rightarrow> AcmeError option \<Rightarrow> ('s, AcmeError option) acme" where
  "renewal_attempts E key ctx [] delay_in_seconds last_error = ret last_error"
| "renewal_attempts E key ctx (i # is) delay_in_seconds last_error =
     and_then (attempt (renew_certificate_and_update_store E key ctx)) (\<lambda>renewed.
       case renewed of
         Inr _ \<Rightarrow> ret None
       | Inl e \<Rightarrow>
           and_then (sleep E (delay_in_seconds * i * 1000)) (\<lambda>_.
             renewal_attempts E key ctx is (delay_in_seconds * i) (Some e)))"

definition retry_renewal :: "'s acme_env \<Rightarrow> PKey \<Rightarrow> EnclaveContext \<Rightarrow> ('s, unit) acme" where
  "retry_renewal E key ctx =
     and_then (renewal_attempts E key ctx [1..<3] 10 None) (\<lambda>last_error.
     and_then (attempt (seconds_with_jitter_to_time E
         (if last_error = None then SIXTY_DAYS_IN_SECONDS else ONE_DAY_IN_SECONDS))) (\<lambda>time.
       case time of
         Inr time_till_renewal \<Rightarrow> schedule_certificate_renewal time_till_renewal
       | Inl _ \<Rightarrow> ret ()))"

definition renewal_task :: "'s acme_env \<Rightarrow> PKey \<Rightarrow> EnclaveContext \<Rightarrow> nat \<Rightarrow> ('s, unit) acme" where
  "renewal_task E key ctx time_till_renewal =
     and_then (sleep E time_till_renewal) (\<lambda>_.
     and_then (attempt (fetch_certificate_and_renewal_time E key)) (\<lambda>fetched.
       case fetched of
         Inr (Some (cert, time_till_expiry)) \<Rightarrow>
           if time_till_expiry div 1000 > SIXTY_DAYS_IN_SECONDS then write_certificate_to_rwlock cert
           else retry_renewal E key ctx
       | _ \<Rightarrow> retry_renewal E key ctx))"

section \<open>The key pair\<close>

record RawAcmeKeyPair =
  rk_public_key :: string
  rk_private_key :: string

definition raw_key_pair :: "'s acme_env \<Rightarrow> RawAcmeKeyPair \<Rightarrow> ('s, PKey) acme" where
  "raw_key_pair E raw = of_option AcOpenSSLError (ak_private_key_from_pem (en_crypto E) (rk_private_key raw))"

definition from_key_pair :: "'s acme_env \<Rightarrow> PKey \<Rightarrow> ('s, RawAcmeKeyPair) acme" where
  "from_key_pair E key_pair =
     and_then (of_option AcOpenSSLError (ak_public_key_to_pem (en_crypto E) key_pair)) (\<lambda>public_key.
     and_then (of_option AcOpenSSLError (ak_private_key_to_pem (en_crypto E) key_pair)) (\<lambda>private_key.
     and_then (of_option AcFromUtf8Error (from_utf8 public_key)) (\<lambda>public_key_string.
     and_then (of_option AcFromUtf8Error (from_utf8 private_key)) (\<lambda>private_key_string.
       ret \<lparr>rk_public_key = public_key_string, rk_private_key = private_key_string\<rparr>))))"

definition generate_with_new_key_pair :: "'s acme_env \<Rightarrow> ('s, RawAcmeKeyPair) acme" where
  "generate_with_new_key_pair E =
     and_then (service (sv_gen_ec_key (en_services E))) (\<lambda>maybe_key.
     and_then (of_option AcOpenSSLError maybe_key) (from_key_pair E))"

definition key_pair_from_storage :: "'s acme_env \<Rightarrow> ('s, RawAcmeKeyPair option) acme" where
  "key_pair_from_storage E =
     and_then (storage_get E ''public_key.pem'') (\<lambda>public_key.
     and_then (storage_get E ''private_key.pem'') (\<lambda>private_key.
       case (public_key, private_key) of
         (Some pub, Some priv) \<Rightarrow> ret (Some \<lparr>rk_public_key = pub, rk_private_key = priv\<rparr>)
       | _ \<Rightarrow> ret None))"

definition key_pair_persist :: "'s acme_env \<Rightarrow> RawAcmeKeyPair \<Rightarrow> ('s, unit) acme" where
  "key_pair_persist E raw =
     and_then (storage_put E ''public_key.pem'' (rk_public_key raw)) (\<lambda>_.
     and_then (storage_put E ''private_key.pem'' (rk_private_key raw)) (\<lambda>_. ret ()))"

text \<open>\<open>serde_json\<close> on a key pair, and the call of E3 around it.\<close>

definition key_pair_json :: "RawAcmeKeyPair \<Rightarrow> json_object" where
  "key_pair_json raw = [(''public_key'', rk_public_key raw), (''private_key'', rk_private_key raw)]"

definition key_pair_from_json :: "json_object \<Rightarrow> RawAcmeKeyPair option" where
  "key_pair_from_json data =
     (case (map_of data ''public_key'', map_of data ''private_key'') of
        (Some pub, Some priv) \<Rightarrow> Some \<lparr>rk_public_key = pub, rk_private_key = priv\<rparr>
      | _ \<Rightarrow> None)"

definition decrypt_key_pair :: "'s acme_env \<Rightarrow> RawAcmeKeyPair \<Rightarrow> ('s, RawAcmeKeyPair) acme" where
  "decrypt_key_pair E raw =
     and_then (service (sv_decrypt (en_services E) (key_pair_json raw))) (\<lambda>response.
     and_then (of_result AcE3ClientError response) (\<lambda>data. of_option AcSerdeError (key_pair_from_json data)))"

definition encrypt_key_pair :: "'s acme_env \<Rightarrow> RawAcmeKeyPair \<Rightarrow> ('s, RawAcmeKeyPair) acme" where
  "encrypt_key_pair E raw =
     and_then (service (sv_encrypt (en_services E) (key_pair_json raw))) (\<lambda>response.
     and_then (of_result AcE3ClientError response) (\<lambda>data. of_option AcSerdeError (key_pair_from_json data)))"

definition create_key_pair_and_persist_with_lock :: "'s acme_env \<Rightarrow> ('s, PKey option) acme" where
  "create_key_pair_and_persist_with_lock E =
     and_then (new_with_config_client E ''keypair'' 0) (\<lambda>key_pair_lock.
     and_then (write_and_check_persisted E key_pair_lock) (\<lambda>persisted.
       if persisted then
         and_then (generate_with_new_key_pair E) (\<lambda>raw.
         and_then (encrypt_key_pair E raw) (\<lambda>encrypted.
         and_then (key_pair_persist E encrypted) (\<lambda>_.
         and_then (lock_delete E key_pair_lock) (\<lambda>_.
         and_then (raw_key_pair E raw) (\<lambda>key. ret (Some key))))))
       else ret None))"

fun poll_key_pair :: "'s acme_env \<Rightarrow> nat \<Rightarrow> ('s, PKey) acme" where
  "poll_key_pair E 0 = throw (AcGeneral ''Max retries for getting '')"
| "poll_key_pair E (Suc checks) =
     and_then (key_pair_from_storage E) (\<lambda>stored.
     and_then (case stored of
         Some raw \<Rightarrow> and_then (decrypt_key_pair E raw) (\<lambda>decrypted. and_then (raw_key_pair E decrypted) (\<lambda>key. ret (Some key)))
       | None \<Rightarrow>
           and_then (read_from_storage E ''keypair'') (\<lambda>existing_lock.
           and_then (utc_now E) (\<lambda>now.
             case existing_lock of
               Some lock \<Rightarrow> if is_expired now lock then create_key_pair_and_persist_with_lock E else ret None
             | None \<Rightarrow> create_key_pair_and_persist_with_lock E))) (\<lambda>persisted_key_pair.
       case persisted_key_pair of
         Some key \<Rightarrow> ret key
       | None \<Rightarrow> and_then (sleep E 3000) (\<lambda>_. poll_key_pair E checks)))"

definition get_or_create_enclave_key_pair :: "'s acme_env \<Rightarrow> ('s, PKey) acme" where
  "get_or_create_enclave_key_pair E = poll_key_pair E 4"

text \<open>\<open>get_trusted_cert\<close>: failing to get a key pair is a panic.\<close>

definition get_trusted_cert :: "'s acme_env \<Rightarrow> EnclaveContext \<Rightarrow> ('s, bytes \<times> CertifiedKey) acme" where
  "get_trusted_cert E ctx =
     and_then (attempt (get_or_create_enclave_key_pair E)) (\<lambda>r.
       case r of
         Inl _ \<Rightarrow> panic
       | Inr trusted_key_pair \<Rightarrow>
           and_then (get_or_create_enclave_certificate E trusted_key_pair ctx) (\<lambda>cert.
           and_then (of_option AcOpenSSLError (ak_public_key_to_der (en_crypto E) trusted_key_pair)) (\<lambda>pub. ret (pub, cert))))"

section \<open>Renewals that end\<close>

lemma attempt_simps [simp]:
  "m s = (Val v, s') \<Longrightarrow> attempt m s = (Val (Inr v), s')"
  "m s = (Err e, s') \<Longrightarrow> attempt m s = (Val (Inl e), s')"
  "m s = (Panicked, s') \<Longrightarrow> attempt m s = (Panicked, s')"
  by (simp_all add: attempt_def)

lemma attempt_not_Err [simp]: "attempt m s \<noteq> (Err e, s')"
  by (auto simp: attempt_def split: prod.splits outcome.splits)

lemma keeps_attempt [keeps_intros]: "keeps I m \<Longrightarrow> keeps I (attempt m)"
  by (auto simp: keeps_def attempt_def split: prod.splits outcome.splits)

lemma renewal_attempts_not_Err [simp]: "renewal_attempts E key ctx is delay last_error s \<noteq> (Err e, s')"
proof (induction "is" arbitrary: delay last_error s)
  case (Cons i "is")
  then show ?case
    by (auto simp: sleep_def service_def split: sum.splits prod.splits elim!: and_then_cases)
qed simp

text \<open>Drawing a random number takes less than a day.\<close>

definition jitter_is_quick :: "'s acme_env \<Rightarrow> bool" where
  "jitter_is_quick E \<longleftrightarrow> (\<forall>e. sv_now (en_services E) (snd (sv_jitter (en_services E) e))
     \<le> sv_now (en_services E) e + ONE_DAY_IN_SECONDS * 1000)"

lemma seconds_with_jitter:
  assumes "jitter_is_quick E" "seconds \<ge> ONE_DAY_IN_SECONDS"
  obtains t e where "seconds_with_jitter_to_time E seconds s = (Val t, s\<lparr>st_env := e\<rparr>)"
    "t + sv_now (en_services E) e \<ge> sv_now (en_services E) (st_env s) + seconds * 1000"
proof -
  obtain j e where j: "sv_jitter (en_services E) (st_env s) = (j, e)" by fastforce
  have "ONE_DAY_IN_SECONDS * 1000 \<le> seconds * 1000" using assms(2) by simp
  moreover have "sv_now (en_services E) e \<le> sv_now (en_services E) (st_env s) + ONE_DAY_IN_SECONDS * 1000"
    using assms(1) [unfolded jitter_is_quick_def, rule_format, of "st_env s"] j by simp
  ultimately have "sv_now (en_services E) e \<le> sv_now (en_services E) (st_env s) + seconds * 1000" by linarith
  with j show thesis
    by (intro that [of "sv_now (en_services E) (st_env s) + seconds * 1000 + j * 1000 - sv_now (en_services E) e" e])
      (simp_all add: seconds_with_jitter_to_time_def get_jittered_time_def duration_until_def and_then_def service_def)
qed

text \<open>How many renewals have been scheduled. Nothing but scheduling one changes that, whatever the outcome.\<close>

definition renewals_scheduled :: "'s acme_state \<Rightarrow> nat" where
  "renewals_scheduled s = length (filter (\<lambda>ev. case ev of RenewalIn _ \<Rightarrow> True | _ \<Rightarrow> False) (st_trace s))"

abbreviation quiet :: "nat \<Rightarrow> ('s, 'a) acme \<Rightarrow> bool" where
  "quiet n m \<equiv> keeps (\<lambda>s. renewals_scheduled s = n) m"

named_theorems quiet_intros

lemma quiet_basic [quiet_intros]:
  "quiet n (service f)" "quiet n (emit (Sent q))" "quiet n (emit (SignRequest j))" "quiet n (emit (PutObject k v))"
  "quiet n (emit (DeleteObject k))" "quiet n (emit (Slept d))" "quiet n (emit (Installed c))" "quiet n (backoff E)"
  "quiet n take_nonce" "quiet n (set_nonce x)" "quiet n (\<lambda>s. (Val r, s\<lparr>st_account := a\<rparr>))" "quiet n (\<lambda>s. (Val r, s\<lparr>st_trusted := x2\<rparr>))"
proof -
  have slept: "filter (\<lambda>ev. case ev of RenewalIn _ \<Rightarrow> True | _ \<Rightarrow> False) (map Slept ds) = []" for ds
    by (simp add: filter_map filter_empty_conv)
  show "quiet n (backoff E)" by (simp add: keeps_def renewals_scheduled_def slept)
qed (auto simp: keeps_def renewals_scheduled_def service_def take_nonce_def set_nonce_def split: prod.splits)

lemma quiet_calls [quiet_intros]:
  "quiet n (acme_send E q)" "quiet n (config_jws E j)" "quiet n (config_jwk E)" "quiet n (storage_get E k)" "quiet n (storage_put E k v)"
  "quiet n (storage_delete E k)" "quiet n (sleep E d)"
  unfolding acme_send_def config_jws_def config_jwk_def storage_get_def storage_put_def storage_delete_def sleep_def
  by (intro keeps_intros quiet_intros)+

lemma quiet_nonce [quiet_intros]:
  "quiet n (extract_nonce_from_response E resp)" "quiet n (store_nonce E resp)" "quiet n (request_nonce E directory provider)"
  "quiet n (directory_get_nonce E directory provider)"
  unfolding directory_get_nonce_def request_nonce_def store_nonce_def extract_nonce_from_response_def
  by (intro keeps_intros quiet_intros)+

lemma quiet_request [quiet_intros]:
  "quiet n (authenticated_request E directory url meth payload account_id provider)" "quiet n (account_post E ad url x)"
  "quiet n (get_account_and_directory a)" "quiet n (location_str E m resp)"
  unfolding account_post_def authenticated_request_def authenticated_request_raw_def Let_def get_account_and_directory_def location_str_def
  by (intro keeps_intros quiet_intros)+

lemma quiet_poll_while [quiet_intros]: "(\<And>x. quiet n (poll x)) \<Longrightarrow> quiet n (poll_while E waiting poll message d k x)"
  by (induction k arbitrary: x) (simp_all add: keeps_intros quiet_intros)

lemma quiet_account [quiet_intros]:
  "quiet n (order_build E account identifiers provider)" "quiet n (cached_account E provider)"
proof -
  show "quiet n (order_build E account identifiers provider)"
    unfolding order_build_def by (intro keeps_intros quiet_intros)
  have "quiet n (and_then (init_acme_account E provider) (\<lambda>a s. (Val a, s\<lparr>st_account := Some a\<rparr>)))"
    unfolding init_acme_account_def fetch_directory_def account_build_def external_account_binding_def Let_def
    by (intro keeps_intros quiet_intros)
  then show "quiet n (cached_account E provider)"
    by (auto simp: cached_account_def keeps_def split: option.splits)
qed

lemma quiet_order [quiet_intros]:
  "quiet n (order_poll E order)" "quiet n (order_finalize E order key)" "quiet n (order_certificate_chain E order)"
  "quiet n (authorizations E order)" "quiet n (from_x509s E x509s)"
proof -
  show "quiet n (order_poll E order)" "quiet n (order_finalize E order key)" "quiet n (order_certificate_chain E order)"
    unfolding order_poll_def order_finalize_def order_certificate_chain_def order_answer_def gen_csr_def
    by (intro keeps_intros quiet_intros)+
  have "quiet n (fetch_authorizations E ad urls)" for ad urls
    by (induction urls) (simp_all add: keeps_intros quiet_intros)
  then show "quiet n (authorizations E order)" unfolding authorizations_def by (intro keeps_intros quiet_intros)
  have "quiet n (convert_to_pems E x509s)" for x509s
    by (induction x509s) (simp_all add: keeps_intros)
  then show "quiet n (from_x509s E x509s)" unfolding from_x509s_def convert_to_pemfile_def by (intro keeps_intros)
qed

lemma quiet_validate [quiet_intros]: "quiet n (validate_authorization E auth)"
  unfolding validate_authorization_def challenge_validate_def challenge_wait_done_def challenge_poll_def challenge_post_def
    authorization_wait_done_def authorization_poll_def key_authorization_def
  by (intro keeps_intros quiet_intros)

lemma quiet_for_each [quiet_intros]: "(\<And>x. quiet n (f x)) \<Longrightarrow> quiet n (for_each f xs)"
  by (induction xs) (simp_all add: keeps_intros)

lemma quiet_order_certificate [quiet_intros]: "quiet n (order_certificate E domains key provider)"
  unfolding order_certificate_def complete_order_def order_wait_ready_def order_wait_done_def
  by (intro keeps_intros quiet_intros)

lemma quiet_create [quiet_intros]: "quiet n (create_certificate_and_persist_with_lock E key ctx attempts)"
  unfolding create_certificate_and_persist_with_lock_def new_with_config_client_def write_and_check_persisted_def write_lock_def
    is_persisted_def encrypt_certificate_def raw_persist_def lock_delete_def to_x509s_def to_certified_key_def
  by (intro keeps_intros quiet_intros)

lemma quiet_install [quiet_intros]: "quiet n (write_certificate_to_rwlock cert)"
  unfolding write_certificate_to_rwlock_def by (intro keeps_intros quiet_intros)

lemma quiet_on_clone [quiet_intros]: "quiet n m \<Longrightarrow> quiet n (on_clone m)"
  by (auto simp: keeps_def on_clone_def renewals_scheduled_def split: prod.splits)

lemma quiet_renew [quiet_intros]: "quiet n (renew_certificate_and_update_store E key ctx)"
proof -
  have "quiet n (case created of Inr (Some cert) \<Rightarrow> write_certificate_to_rwlock cert
      | _ \<Rightarrow> throw (AcGeneral ''Error renewing certificate''))" for created :: "(AcmeError, CertifiedKey option) result"
    by (auto simp: keeps_intros quiet_intros split: sum.split option.split)
  then show ?thesis
    unfolding renew_certificate_and_update_store_def get_order_lock_def read_from_storage_def by (intro keeps_intros quiet_intros)
qed

lemma quiet_attempts [quiet_intros]: "quiet n (renewal_attempts E key ctx is delay last_error)"
proof (induction "is" arbitrary: delay last_error)
  case (Cons i "is")
  then have "quiet n (case renewed of Inr _ \<Rightarrow> ret None | Inl e \<Rightarrow> and_then (sleep E (delay * i * 1000)) (\<lambda>_.
      renewal_attempts E key ctx is (delay * i) (Some e)))" for renewed :: "(AcmeError, unit) result"
    by (auto simp: keeps_intros quiet_intros split: sum.split)
  then show ?case unfolding renewal_attempts.simps by (intro keeps_intros quiet_intros)
qed (simp add: keeps_intros)

lemma quiet_fetch [quiet_intros]: "quiet n (fetch_certificate_and_renewal_time E key)"
  unfolding fetch_certificate_and_renewal_time_def raw_from_storage_def decrypt_certificate_def to_x509s_def to_certified_key_def
    time_till_renewal_required_def get_jittered_time_def duration_until_def Let_def
  by (intro keeps_intros quiet_intros)

lemma quietD: "(\<And>n. quiet n m) \<Longrightarrow> m s = (r, s') \<Longrightarrow> renewals_scheduled s' = renewals_scheduled s"
  using keepsD [of "\<lambda>s'. renewals_scheduled s' = renewals_scheduled s" m s r s'] by blast

lemma renewals_RenewalIn [simp]: "renewals_scheduled (s\<lparr>st_trace := st_trace s @ [RenewalIn ms]\<rparr>) = Suc (renewals_scheduled s)"
  by (simp add: renewals_scheduled_def)

lemma retry_renewal_schedules:
  assumes "jitter_is_quick E" "retry_renewal E key ctx s = (r, s')"
  shows "renewals_scheduled s' = renewals_scheduled s + (if r = Panicked then 0 else 1)
    \<and> (r \<noteq> Panicked \<longrightarrow> (\<exists>ms. last (st_trace s') = RenewalIn ms))"
  using assms(2) unfolding retry_renewal_def
proof (cases rule: and_then_cases)
  case (Val last_error t)
  let ?secs = "if last_error = None then SIXTY_DAYS_IN_SECONDS else ONE_DAY_IN_SECONDS"
  have "?secs \<ge> ONE_DAY_IN_SECONDS" by (simp add: SIXTY_DAYS_IN_SECONDS_def)
  from seconds_with_jitter [OF assms(1) this, of t] obtain ms e where
    "seconds_with_jitter_to_time E ?secs t = (Val ms, t\<lparr>st_env := e\<rparr>)" by blast
  then have "attempt (seconds_with_jitter_to_time E ?secs) t = (Val (Inr ms), t\<lparr>st_env := e\<rparr>)" by simp
  with Val(2) have "r = Val ()" "s' = t\<lparr>st_env := e, st_trace := st_trace t @ [RenewalIn ms]\<rparr>"
    by (auto simp: schedule_certificate_renewal_def)
  moreover have "renewals_scheduled t = renewals_scheduled s" by (rule quietD [OF quiet_attempts Val(1)])
  ultimately show ?thesis by (simp add: renewals_scheduled_def)
next
  case Panicked
  then show ?thesis using quietD [OF quiet_attempts Panicked(1)] by simp
qed (simp del: upt.simps)

text \<open>The certificate in the storage is so new that another instance has renewed it.\<close>

definition renewed_elsewhere :: "'s acme_env \<Rightarrow> PKey \<Rightarrow> 's acme_state \<Rightarrow> bool" where
  "renewed_elsewhere E key s \<longleftrightarrow>
     (\<exists>cert t s'. fetch_certificate_and_renewal_time E key s = (Val (Some (cert, t)), s') \<and> t div 1000 > SIXTY_DAYS_IN_SECONDS)"

text \<open>
  (C19) A renewal schedules the next one, and only one, in every case but two: when it panics, and when it finds that another instance
  has renewed the certificate. In the latter case it installs that certificate and schedules nothing, so this instance never renews
  again and serves the certificate until after it has expired. All errors of the storage, of E3, of the lock, of the ACME server and
  of the signing, in any number of attempts, lead to another renewal.
\<close>

theorem renewal_ends_iff_renewed_elsewhere:
  assumes "jitter_is_quick E" and "renewal_task E key ctx d s = (r, s')"
  defines "found \<equiv> renewed_elsewhere E key (snd (sleep E d s))"
  shows "renewals_scheduled s' = renewals_scheduled s + (if r = Panicked \<or> found then 0 else 1)
    \<and> (r \<noteq> Panicked \<and> \<not> found \<longrightarrow> (\<exists>ms. last (st_trace s') = RenewalIn ms))
    \<and> (found \<longrightarrow> (\<exists>cert. last (st_trace s') = Installed cert \<and> st_trusted s' = Some cert))"
proof -
  obtain t where t: "sleep E d s = (Val (), t)" by (simp add: sleep_def service_def and_then_def)
  obtain f u where f: "fetch_certificate_and_renewal_time E key t = (f, u)" by fastforce
  have run: "and_then (attempt (fetch_certificate_and_renewal_time E key)) (\<lambda>fetched.
       case fetched of
         Inr (Some (cert, time_till_expiry)) \<Rightarrow>
           if time_till_expiry div 1000 > SIXTY_DAYS_IN_SECONDS then write_certificate_to_rwlock cert
           else retry_renewal E key ctx
       | _ \<Rightarrow> retry_renewal E key ctx) t = (r, s')"
    using assms(2) t by (simp add: renewal_task_def)
  have found: "found \<longleftrightarrow> (\<exists>cert ms. f = Val (Some (cert, ms)) \<and> ms div 1000 > SIXTY_DAYS_IN_SECONDS)"
    using f t by (auto simp: found_def renewed_elsewhere_def)
  have same: "renewals_scheduled u = renewals_scheduled s"
    using quietD [OF quiet_fetch f] quietD [OF quiet_calls(7) t] by simp
  show ?thesis
  proof (cases found)
    case True
    then obtain cert ms where "f = Val (Some (cert, ms))" "ms div 1000 > SIXTY_DAYS_IN_SECONDS" using found by blast
    with run f have w: "write_certificate_to_rwlock cert u = (r, s')" by simp
    then have "st_trusted s' = Some cert" "last (st_trace s') = Installed cert"
      by (auto simp: write_certificate_to_rwlock_def)
    with True quietD [OF quiet_install w] same show ?thesis by simp
  next
    case False
    show ?thesis
    proof (cases "f = Panicked")
      case True
      with run f have "r = Panicked" "s' = u" by auto
      with False same show ?thesis by simp
    next
      case nopanic: False
      then have "retry_renewal E key ctx u = (r, s')"
        using run f False found by (cases f) (auto split: option.splits)
      with retry_renewal_schedules [OF assms(1) this] same False show ?thesis by simp
    qed
  qed
qed

lemma keeps_trusted:
  "keeps (\<lambda>s. st_trusted s = c) (service f)" "keeps (\<lambda>s. st_trusted s = c) (emit ev)"
  "keeps (\<lambda>s. st_trusted s = c) (backoff E)"
  by (auto simp: keeps_def service_def split: prod.splits)

lemma keeps_trusted_calls:
  "keeps (\<lambda>s. st_trusted s = c) (sleep E d)" "keeps (\<lambda>s. st_trusted s = c) (storage_get E k)"
  by (simp_all add: sleep_def storage_get_def keeps_intros keeps_trusted)

lemma keeps_trusted_lock: "keeps (\<lambda>s. st_trusted s = c) (get_order_lock E)"
  unfolding get_order_lock_def read_from_storage_def by (intro keeps_intros keeps_trusted_calls)

lemma keeps_trusted_fetch: "keeps (\<lambda>s. st_trusted s = c) (fetch_certificate_and_renewal_time E key)"
proof -
  have "keeps (\<lambda>s. st_trusted s = c) (time_till_renewal_required E x509s)" for x509s
    unfolding time_till_renewal_required_def get_jittered_time_def duration_until_def Let_def
    by (intro keeps_intros keeps_trusted)
  then show ?thesis
    unfolding fetch_certificate_and_renewal_time_def raw_from_storage_def decrypt_certificate_def to_x509s_def to_certified_key_def
    by (intro keeps_intros keeps_trusted keeps_trusted_calls)
qed

lemma busy_lock_attempt:
  assumes "get_order_lock E u = (Val lock_maybe, v)"
    and "order_lock_exists_and_is_valid (sv_now (en_services E) (st_env v)) lock_maybe"
  shows "renewal_attempts E key ctx (i # is) delay last_error u = (Val None, v)"
proof -
  have "renew_certificate_and_update_store E key ctx u = (Val (), v)"
    using assms by (simp add: renew_certificate_and_update_store_def)
  then show ?thesis by simp
qed

text \<open>
  While another instance holds the lock, a renewal counts as done: the certificate in use stays as it is, and the
  next renewal comes sixty days later, although the certificate is renewed thirty days before it expires.
\<close>

theorem busy_lock_postpones_renewal:
  assumes "jitter_is_quick E" and "sleep E d s = (Val (), t)"
    and "fetch_certificate_and_renewal_time E key t = (f, u)" and "f \<noteq> Panicked" and "\<not> renewed_elsewhere E key t"
    and "get_order_lock E u = (Val lock_maybe, v)"
    and "order_lock_exists_and_is_valid (sv_now (en_services E) (st_env v)) lock_maybe"
  shows "\<exists>s' ms. renewal_task E key ctx d s = (Val (), s') \<and> st_trusted s' = st_trusted s
    \<and> last (st_trace s') = RenewalIn ms
    \<and> ms + sv_now (en_services E) (st_env s') \<ge> sv_now (en_services E) (st_env v) + SIXTY_DAYS_IN_SECONDS * 1000"
proof -
  have retry: "renewal_task E key ctx d s = retry_renewal E key ctx u"
    using assms(2-5) by (cases f) (auto simp: renewal_task_def renewed_elsewhere_def split: option.splits)
  have attempts: "renewal_attempts E key ctx [1..<3] 10 None u = (Val None, v)"
    using busy_lock_attempt [OF assms(6,7), of key ctx 1 "[Suc 1]" 10 None] by (simp add: upt_rec del: renewal_attempts.simps)
  have "SIXTY_DAYS_IN_SECONDS \<ge> ONE_DAY_IN_SECONDS" by (simp add: SIXTY_DAYS_IN_SECONDS_def)
  from seconds_with_jitter [OF assms(1) this, of v] obtain ms e where
    j: "seconds_with_jitter_to_time E SIXTY_DAYS_IN_SECONDS v = (Val ms, v\<lparr>st_env := e\<rparr>)"
      "ms + sv_now (en_services E) e \<ge> sv_now (en_services E) (st_env v) + SIXTY_DAYS_IN_SECONDS * 1000" by blast
  have "st_trusted v = st_trusted s"
    using keepsD [OF keeps_trusted_calls(1) _ assms(2)] keepsD [OF keeps_trusted_fetch _ assms(3)]
      keepsD [OF keeps_trusted_lock _ assms(6)] by simp
  with j attempts show ?thesis
    by (auto simp: retry retry_renewal_def schedule_certificate_renewal_def simp del: upt.simps)
qed

section \<open>Certificates of other instances\<close>

text \<open>The storage is a map, and E3 decrypts what it encrypted, field by field.\<close>

locale acme_storage =
  fixes E :: "'s acme_env" and contents :: "'s \<Rightarrow> string \<rightharpoonup> string"
  assumes get_ok: "sv_get (en_services E) k e = (Inr w, e') \<Longrightarrow> w = contents e k"
    and put_ok: "sv_put (en_services E) k v e = (Inr u, e') \<Longrightarrow> contents e' = (contents e)(k \<mapsto> v)"
    and delete_other: "k' \<noteq> k \<Longrightarrow> contents (snd (sv_delete (en_services E) k e)) k' = contents e k'"
    and encrypt_fields: "sv_encrypt (en_services E) x e = (Inr y, e') \<Longrightarrow> map fst y = map fst x"
    and decrypt_encrypt: "sv_encrypt (en_services E) x e = (Inr y, e') \<Longrightarrow> sv_decrypt (en_services E) y e1 = (Inr z, e1') \<Longrightarrow> z = x"
begin

lemma encrypt_Val:
  assumes "encrypt_certificate E raw s = (Val encrypted, s')"
  obtains e e' where "sv_encrypt (en_services E) [(''certificate'', rc_certificate raw)] e
    = (Inr [(''certificate'', rc_certificate encrypted)], e')"
proof -
  obtain r e' where enc: "sv_encrypt (en_services E) [(''certificate'', rc_certificate raw)] (st_env s) = (r, e')" by fastforce
  with assms obtain data where r: "r = Inr data" and c: "map_of data ''certificate'' = Some (rc_certificate encrypted)"
    by (cases r) (auto simp: encrypt_certificate_def elim!: and_then_Val split: option.splits simp: of_option_def)
  with encrypt_fields enc have "map fst data = [''certificate'']" by fastforce
  with c have "data = [(''certificate'', rc_certificate encrypted)]" by (cases data) (auto split: if_splits)
  with enc r that show ?thesis by blast
qed

lemma decrypt_Val:
  fixes raw encrypted :: RawAcmeCertificate
  assumes "sv_encrypt (en_services E) [(''certificate'', rc_certificate raw)] e = (Inr [(''certificate'', rc_certificate encrypted)], e')"
    and "decrypt_certificate E encrypted s = (Val decrypted, s')"
  shows "decrypted = raw"
proof -
  obtain r e1 where dec: "sv_decrypt (en_services E) [(''certificate'', rc_certificate encrypted)] (st_env s) = (r, e1)" by fastforce
  with assms(2) obtain data where r: "r = Inr data" and c: "map_of data ''certificate'' = Some (rc_certificate decrypted)"
    by (cases r) (auto simp: decrypt_certificate_def elim!: and_then_Val split: option.splits simp: of_option_def)
  have "data = [(''certificate'', rc_certificate raw)]" using decrypt_encrypt [OF assms(1)] dec r by blast
  with c show ?thesis by simp
qed

lemma persist_Val: "raw_persist E raw s = (Val u, s') \<Longrightarrow> contents (st_env s') CERTIFICATE_OBJECT_KEY = Some (rc_certificate raw)"
  by (cases "sv_put (en_services E) CERTIFICATE_OBJECT_KEY (rc_certificate raw) (st_env s)"; cases "fst (sv_put (en_services E) CERTIFICATE_OBJECT_KEY (rc_certificate raw) (st_env s))")
    (auto simp: raw_persist_def storage_put_def and_then_def service_def dest: put_ok)

lemma delete_Val:
  assumes "lock_delete E l s = (Val u, s')" "lock_key_name l \<noteq> CERTIFICATE_OBJECT_KEY"
  shows "contents (st_env s') CERTIFICATE_OBJECT_KEY = contents (st_env s) CERTIFICATE_OBJECT_KEY"
  using assms delete_other [OF assms(2) [symmetric], of "st_env s"]
  by (cases "sv_delete (en_services E) (lock_key_name l) (st_env s)"; cases "fst (sv_delete (en_services E) (lock_key_name l) (st_env s))")
    (auto simp: lock_delete_def storage_delete_def and_then_def service_def)

end

lemma and_then_Val_iff: "and_then m f s = (Val v, s') \<longleftrightarrow> (\<exists>w t. m s = (Val w, t) \<and> f w t = (Val v, s'))"
  by (auto elim: and_then_Val)

lemma pure_calls_state:
  "to_x509s E raw s = (Val v, s') \<Longrightarrow> s' = s" "to_certified_key E x509s key s = (Val w, s') \<Longrightarrow> s' = s"
  by (auto simp: to_x509s_def to_certified_key_def of_option_def ret_def throw_def and_then_def
      split: option.splits if_splits prod.splits outcome.splits)

text \<open>What is computed from the text of a certificate does not depend on the state.\<close>

lemma pure_calls_value:
  "to_x509s E raw s = (Val v, s') \<Longrightarrow> to_x509s E raw t = (Val v', t') \<Longrightarrow> v' = v"
  "to_certified_key E x509s key s = (Val w, s') \<Longrightarrow> to_certified_key E x509s key t = (Val w', t') \<Longrightarrow> w' = w"
  by (auto simp: to_x509s_def to_certified_key_def of_option_def ret_def throw_def and_then_def
      split: option.splits if_splits prod.splits outcome.splits)

context acme_storage
begin

lemma create_persists:
  assumes "create_certificate_and_persist_with_lock E key ctx n s = (Val (Some ck), s')"
  obtains raw :: RawAcmeCertificate and encrypted :: RawAcmeCertificate and x509s e e' where
    "sv_encrypt (en_services E) [(''certificate'', rc_certificate raw)] e = (Inr [(''certificate'', rc_certificate encrypted)], e')"
    "contents (st_env s') CERTIFICATE_OBJECT_KEY = Some (rc_certificate encrypted)"
    "to_x509s E raw s' = (Val x509s, s')" "to_certified_key E x509s key s' = (Val ck, s')"
proof -
  from assms obtain l raw encrypted x509s t1 t2 t3 t4 t5 u u' where
    enc: "encrypt_certificate E raw t1 = (Val encrypted, t2)" and
    per: "raw_persist E encrypted t2 = (Val u, t3)" and
    del: "lock_delete E l t3 = (Val u', t4)" and
    x: "to_x509s E raw t4 = (Val x509s, t5)" and
    ck: "to_certified_key E x509s key t5 = (Val ck, s')" and
    name: "sl_name l = CERTIFICATE_LOCK_NAME"
    unfolding create_certificate_and_persist_with_lock_def new_with_config_client_def
    by (auto simp: and_then_Val_iff lock_new_def split: if_splits)
  have states: "t5 = t4" "s' = t4" using x ck by (auto dest: pure_calls_state)
  obtain e e' where "sv_encrypt (en_services E) [(''certificate'', rc_certificate raw)] e
      = (Inr [(''certificate'', rc_certificate encrypted)], e')" by (rule encrypt_Val [OF enc])
  moreover have "contents (st_env s') CERTIFICATE_OBJECT_KEY = Some (rc_certificate encrypted)"
    using persist_Val [OF per] delete_Val [OF del] name by (simp add: states lock_key_name_def)
  ultimately show thesis using that [of raw e encrypted e' x509s] x ck unfolding states by blast
qed

lemma fetch_finds:
  assumes "fetch_and_decrypt_certificate E key q = (Val m, q')" "contents (st_env q) CERTIFICATE_OBJECT_KEY = Some c"
  obtains decrypted x509s ck t1 t2 t3 t4 t5 where "m = Some ck" "decrypt_certificate E \<lparr>rc_certificate = c\<rparr> t1 = (Val decrypted, t2)"
    "to_x509s E decrypted t2 = (Val x509s, t3)" "to_certified_key E x509s key t4 = (Val ck, t5)"
proof -
  obtain x t where get: "storage_get E CERTIFICATE_OBJECT_KEY q = (Val x, t)"
    and rest: "(case map_option (\<lambda>body. \<lparr>rc_certificate = body\<rparr>) x of None \<Rightarrow> ret None | Some raw \<Rightarrow>
           and_then (decrypt_certificate E raw) (\<lambda>decrypted.
           and_then (to_x509s E decrypted) (\<lambda>x509s.
           and_then (time_till_renewal_required E x509s) (\<lambda>time_till_renewal.
           and_then (schedule_certificate_renewal time_till_renewal) (\<lambda>_.
           and_then (to_certified_key E x509s key) (\<lambda>certified_key. ret (Some certified_key))))))) t = (Val m, q')"
    using assms(1) by (auto simp: fetch_and_decrypt_certificate_def raw_from_storage_def and_then_Val_iff)
  have "x = Some c"
    using get assms(2) get_ok
    by (cases "sv_get (en_services E) CERTIFICATE_OBJECT_KEY (st_env q)"; cases "fst (sv_get (en_services E) CERTIFICATE_OBJECT_KEY (st_env q))")
      (auto simp: storage_get_def and_then_def service_def)
  with rest that show thesis by (auto simp: and_then_Val_iff)
qed

lemma created_is_fetched:
  assumes "create_certificate_and_persist_with_lock E key ctx n s = (Val (Some ck), s')"
    and "contents (st_env q) CERTIFICATE_OBJECT_KEY = contents (st_env s') CERTIFICATE_OBJECT_KEY"
    and "fetch_and_decrypt_certificate E key q = (Val m, q')"
  shows "m = Some ck"
proof -
  obtain raw :: RawAcmeCertificate and encrypted :: RawAcmeCertificate and x509s e e' where
    enc: "sv_encrypt (en_services E) [(''certificate'', rc_certificate raw)] e = (Inr [(''certificate'', rc_certificate encrypted)], e')" and
    stored: "contents (st_env s') CERTIFICATE_OBJECT_KEY = Some (rc_certificate encrypted)" and
    x: "to_x509s E raw s' = (Val x509s, s')" and ck: "to_certified_key E x509s key s' = (Val ck, s')"
    by (rule create_persists [OF assms(1)])
  obtain decrypted x509s' ck' t1 t2 t3 t4 t5 where "m = Some ck'" and
    dec: "decrypt_certificate E \<lparr>rc_certificate = rc_certificate encrypted\<rparr> t1 = (Val decrypted, t2)" and
    x': "to_x509s E decrypted t2 = (Val x509s', t3)" and ck': "to_certified_key E x509s' key t4 = (Val ck', t5)"
    by (rule fetch_finds [OF assms(3) assms(2) [unfolded stored]])
  moreover have "decrypted = raw" using decrypt_Val [of raw e "\<lparr>rc_certificate = rc_certificate encrypted\<rparr>"] enc dec by simp
  ultimately show ?thesis using x ck pure_calls_value by blast
qed

end

section \<open>Concrete renewals\<close>

definition sample_renewal_state :: "(string \<times> string) list \<Rightarrow> sample_acme acme_state" where
  "sample_renewal_state objects =
     sample_acme_state\<lparr>st_env := \<lparr>sm_count = 0, sm_now = 0, sm_objects = objects\<rparr>\<rparr>"

lemmas renewal_run_defs = sample_renewal_state_def sample_acme_defs sample_x509_def fetch_certificate_and_renewal_time_def
  raw_from_storage_def storage_get_def decrypt_certificate_def to_x509s_def time_till_renewal_required_def to_certified_key_def
  get_jittered_time_def duration_until_def earliest_expiry_def asn1_time_to_system_time_def sleep_def service_def
  and_then_def Let_def THIRTY_DAYS_IN_SECONDS_def SIXTY_DAYS_IN_SECONDS_def ONE_DAY_IN_SECONDS_def

lemma sample_jitter_is_quick: "jitter_is_quick (sample_acme_env delay)"
  by (simp add: jitter_is_quick_def sample_acme_env_def sample_acme_services_def)

lemma sample_renewed_elsewhere:
  "renewed_elsewhere (sample_acme_env 0) sample_key
     (snd (sleep (sample_acme_env 0) 0 (sample_renewal_state [(CERTIFICATE_OBJECT_KEY, ''pem'')])))"
  by (simp add: renewed_elsewhere_def renewal_run_defs)

lemma sample_renewal_returns:
  "\<exists>s'. renewal_task (sample_acme_env 0) sample_key sample_enclave 0 (sample_renewal_state [(CERTIFICATE_OBJECT_KEY, ''pem'')])
     = (Val (), s')"
  by (simp add: renewal_task_def attempt_def write_certificate_to_rwlock_def renewal_run_defs)

theorem renewal_ends_iff_renewed_elsewhere_witness:
  "\<exists>s'. renewal_task (sample_acme_env 0) sample_key sample_enclave 0 (sample_renewal_state [(CERTIFICATE_OBJECT_KEY, ''pem'')])
     = (Val (), s') \<and> renewals_scheduled s' = 0"
proof -
  obtain s' where run: "renewal_task (sample_acme_env 0) sample_key sample_enclave 0
      (sample_renewal_state [(CERTIFICATE_OBJECT_KEY, ''pem'')]) = (Val (), s')" using sample_renewal_returns by blast
  from renewal_ends_iff_renewed_elsewhere [OF sample_jitter_is_quick run] run sample_renewed_elsewhere show ?thesis
    by (simp add: renewals_scheduled_def sample_renewal_state_def sample_acme_state_def)
qed

theorem busy_lock_postpones_renewal_witness:
  "\<exists>s' ms. renewal_task (sample_acme_env 0) sample_key sample_enclave 0 (sample_renewal_state [(''certificate-v1.lock'', ''u'')])
       = (Val (), s')
     \<and> st_trusted s' = None \<and> last (st_trace s') = RenewalIn ms"
proof -
  let ?E = "sample_acme_env 0" and ?s = "sample_renewal_state [(''certificate-v1.lock'', ''u'')]"
  obtain t where t: "sleep ?E 0 ?s = (Val (), t)" "st_env t = st_env ?s" "st_trusted t = None" "st_nonce t = None" "st_account t = None"
    by (simp add: renewal_run_defs)
  have f: "fetch_certificate_and_renewal_time ?E sample_key t = (Val None, t)"
    using t(2) by (cases t) (simp add: renewal_run_defs)
  have "get_order_lock ?E t = (Val (Some \<lparr>sl_name = ''certificate-v1'', sl_uuid = ''u'', sl_expiry_time = 0, sl_attempts = Some 1\<rparr>), t)"
    using t(2) by (cases t) (simp add: get_order_lock_def read_from_storage_def renewal_run_defs)
  moreover have "\<not> renewed_elsewhere ?E sample_key t" using f by (simp add: renewed_elsewhere_def)
  ultimately have "\<exists>s' ms. renewal_task ?E sample_key sample_enclave 0 ?s = (Val (), s') \<and> st_trusted s' = st_trusted ?s
      \<and> last (st_trace s') = RenewalIn ms
      \<and> ms + sv_now (en_services ?E) (st_env s') \<ge> sv_now (en_services ?E) (st_env t) + SIXTY_DAYS_IN_SECONDS * 1000"
    using t(2)
    by (intro busy_lock_postpones_renewal [OF sample_jitter_is_quick t(1) f])
      (auto simp: order_lock_exists_and_is_valid_def is_expired_def sample_renewal_state_def sample_acme_env_def sample_acme_services_def)
  then show ?thesis by (auto simp: sample_renewal_state_def sample_acme_state_def)
qed

end
