(* ===== verification/Acme_World.thy ===== *)
theory Acme_World
  imports Acme_Cert
begin

text \<open>
  The ACME client of the data plane together with the configuration server of the control plane: signatures, keys
  and objects go through the client of \<open>Config_Client\<close>, over connections that may fail, to the handlers of
  \<open>Config_Server\<close>; the ACME server, E3, the clock and random numbers remain parameters. The laws that the
  theorems on certificates and nonces assume of the services hold for this composition.
\<close>

section \<open>Services over the configuration server\<close>

text \<open>
  The state: the configuration server's, the fates of the connections still to come (\<open>Delivered\<close> when there are no
  more) and that of the other services.
\<close>

record ('s, 'r) acme_world =
  aw_cfg :: "'s cfg_state"
  aw_links :: "(link \<times> link list) list"
  aw_rest :: 'r

fun take_links :: "(link \<times> link list) list \<Rightarrow> (link \<times> link list) \<times> (link \<times> link list) list" where
  "take_links [] = ((Delivered, []), [])"
| "take_links (l # ls) = (l, ls)"

definition on_config ::
  "(link \<times> link list \<Rightarrow> 's cfg_state \<Rightarrow> 'x \<times> 's cfg_state) \<Rightarrow> ('s, 'r) acme_world \<Rightarrow> 'x \<times> ('s, 'r) acme_world" where
  "on_config f w =
     (case take_links (aw_links w) of (l, ls) \<Rightarrow>
      case f l (aw_cfg w) of (r, cfg) \<Rightarrow> (r, w\<lparr>aw_cfg := cfg, aw_links := ls\<rparr>))"

definition on_rest :: "('r \<Rightarrow> 'x \<times> 'r) \<Rightarrow> ('s, 'r) acme_world \<Rightarrow> 'x \<times> ('s, 'r) acme_world" where
  "on_rest f w = (case f (aw_rest w) of (r, x) \<Rightarrow> (r, w\<lparr>aw_rest := x\<rparr>))"

definition enclave_services :: "'s config_env \<Rightarrow> 'r acme_services \<Rightarrow> ('s, 'r) acme_world acme_services" where
  "enclave_services C R =
     \<lparr>sv_send = (\<lambda>q. on_rest (sv_send R q)),
      sv_jws = (\<lambda>q. on_config (\<lambda>l. client_jws C q (fst l))),
      sv_jwk = on_config (\<lambda>l. client_jwk C (fst l)),
      sv_get = (\<lambda>k. on_config (get_object C k)),
      sv_put = (\<lambda>k v. on_config (put_object C k v)),
      sv_delete = (\<lambda>k. on_config (delete_object C k)),
      sv_encrypt = (\<lambda>x. on_rest (sv_encrypt R x)),
      sv_decrypt = (\<lambda>x. on_rest (sv_decrypt R x)),
      sv_gen_ec_key = on_rest (sv_gen_ec_key R),
      sv_uuid = on_rest (sv_uuid R),
      sv_jitter = on_rest (sv_jitter R),
      sv_backoff = (\<lambda>w. sv_backoff R (aw_rest w)),
      sv_sleep = (\<lambda>ms w. w\<lparr>aw_rest := sv_sleep R ms (aw_rest w)\<rparr>),
      sv_now = (\<lambda>w. sv_now R (aw_rest w))\<rparr>"

definition enclave_env :: "'s config_env \<Rightarrow> 'r acme_env \<Rightarrow> ('s, 'r) acme_world acme_env" where
  "enclave_env C F = \<lparr>en_json = en_json F, en_crypto = en_crypto F, en_services = enclave_services C (en_services F)\<rparr>"

locale e3_service =
  fixes R :: "'r acme_services"
  assumes encrypt_fields: "sv_encrypt R x e = (Inr y, e') \<Longrightarrow> map fst y = map fst x"
    and decrypt_encrypt: "sv_encrypt R x e = (Inr y, e') \<Longrightarrow> sv_decrypt R y e1 = (Inr z, e1') \<Longrightarrow> z = x"

locale enclave_storage = config_storage C contents + e3_service "en_services F"
  for C :: "'s config_env" and contents :: "'s \<Rightarrow> string \<rightharpoonup> string" and F :: "'r acme_env"
begin

lemma get_object_view: "get_object C k l st = (Inr x, st') \<Longrightarrow> x = view contents C st k"
  using client_op_served [of "GetOp k" st l] by (auto simp: served_def store_step_def as_answer_def)

lemma put_object_view: "put_object C k v l st = (Inr u, st') \<Longrightarrow> view contents C st' = (view contents C st)(k \<mapsto> v)"
  using client_op_served [of "PutOp k v" st l] by (auto simp: served_def store_step_def as_answer_def)

lemma delete_object_view: "k' \<noteq> k \<Longrightarrow> view contents C (snd (delete_object C k l st)) k' = view contents C st k'"
  using client_op_served [of "DeleteOp k" st l] by (auto simp: served_def store_step_def as_answer_def)

end

sublocale enclave_storage \<subseteq> storage: acme_storage "enclave_env C F" "\<lambda>w. view contents C (aw_cfg w)"
proof (unfold_locales, goal_cases)
  case (1 k e w e')
  then show ?case
    by (auto simp: enclave_env_def enclave_services_def on_config_def split: prod.splits dest: get_object_view)
next
  case (2 k v e u e')
  then show ?case
    by (auto simp: enclave_env_def enclave_services_def on_config_def split: prod.splits dest: put_object_view)
next
  case (3 k' k e)
  then show ?case
    using delete_object_view [OF 3, of "fst (take_links (aw_links e))" "aw_cfg e"]
    by (auto simp: enclave_env_def enclave_services_def on_config_def split: prod.splits)
next
  case (4 x e y e')
  then show ?case
    by (auto simp: enclave_env_def enclave_services_def on_rest_def split: prod.splits dest: encrypt_fields)
next
  case (5 x e y e' e1 z e1')
  then show ?case
    by (auto simp: enclave_env_def enclave_services_def on_rest_def split: prod.splits dest: decrypt_encrypt)
qed

text \<open>A service that is passed on keeps what it keeps alone; the configuration server has no nonces.\<close>

lemma on_config_issued: "issued (aw_rest w) \<subseteq> issued (aw_rest (snd (on_config f w)))"
  by (auto simp: on_config_def split: prod.splits)

lemma on_rest_issued:
  assumes "\<And>e. issued e \<subseteq> issued (snd (f e))"
  shows "issued (aw_rest w) \<subseteq> issued (aw_rest (snd (on_rest f w)))"
  using assms [of "aw_rest w"] by (cases "f (aw_rest w)") (simp add: on_rest_def)

lemma acme_server_world:
  assumes "acme_server F issued"
  shows "acme_server (enclave_env C F) (\<lambda>w. issued (aw_rest w))"
proof -
  note others = acme_server.others_issued [OF assms]
  have send: "issued e \<subseteq> issued (snd (sv_send (en_services F) q e))" for q e
    by (rule acme_server.send_issued [OF assms, of q e "fst (sv_send (en_services F) q e)"]) simp
  show ?thesis
  proof (unfold_locales, goal_cases)
    case (1 q e r e')
    then show ?case using on_rest_issued [of issued "sv_send (en_services F) q" e] send
      by (simp add: enclave_env_def enclave_services_def)
  next
    case (2 q e resp e' b n)
    then show ?case
      by (auto simp: enclave_env_def enclave_services_def on_rest_def split: prod.splits
          dest: acme_server.fresh_nonce [OF assms])
  qed (simp_all add: enclave_env_def enclave_services_def on_config_issued on_rest_issued others)
qed

section \<open>Certificates across instances\<close>

context enclave_storage
begin

lemma created_is_found:
  assumes "create_certificate_and_persist_with_lock (enclave_env C F) key ctx n s = (Val (Some ck), s')"
    and "view contents C (aw_cfg (st_env q)) CERTIFICATE_OBJECT_KEY = view contents C (aw_cfg (st_env s')) CERTIFICATE_OBJECT_KEY"
    and "fetch_and_decrypt_certificate (enclave_env C F) key q = (Val m, q')"
  shows "m = Some ck"
  using storage.created_is_fetched [OF assms] .

end

text \<open>
  (C11) Instances share one certificate: what an instance creates under its lock, through the configuration server and its
  storage and over connections that may fail, is what every instance finds in the storage later, also another one
  with a fresh state, as long as the object has not been replaced: encrypted by E3, persisted, fetched, decrypted
  and parsed again, the chain and the key are the same.
\<close>

theorem created_certificate_is_shared:
  assumes "config_messages (cf_json C)" and "object_store (cf_storage C) contents" and "e3_service (en_services F)"
    and "create_certificate_and_persist_with_lock (enclave_env C F) key ctx n s = (Val (Some ck), s')"
    and "view contents C (aw_cfg (st_env q)) CERTIFICATE_OBJECT_KEY = view contents C (aw_cfg (st_env s')) CERTIFICATE_OBJECT_KEY"
    and "fetch_and_decrypt_certificate (enclave_env C F) key q = (Val m, q')"
  shows "m = Some ck"
proof -
  have "enclave_storage C contents F"
    by (intro enclave_storage.intro config_storage.intro assms(1-3))
  from enclave_storage.created_is_found [OF this assms(4-6)] show ?thesis .
qed

section \<open>A concrete world\<close>

lemmas sample_call_defs = then_parse_def client_send_def handle_incoming_request_def parse_request_def ok_or_def Let_def
  build_success_response_def build_bad_request_response_def parse_response_def sample_config_def alist_storage_def
  ref_cfg.get_object ref_cfg.object ref_cfg.put_object ref_cfg.delete_object ref_cfg.jws_request ref_cfg.jws_response

lemma sample_get:
  "0 < n \<Longrightarrow> get_object sample_config k (Delivered, []) \<lparr>cs_store = (n, m), cs_logs = l\<rparr>
     = (Inr (map_of m (namespace_key k sample_cp_context)), \<lparr>cs_store = (n - 1, m), cs_logs = l\<rparr>)"
  by (cases "map_of m (namespace_key k sample_cp_context)")
    (simp_all add: get_object_def base_get_object_def sample_call_defs handle_acme_storage_get_request_def)

lemma sample_put:
  "0 < n \<Longrightarrow> put_object sample_config k v (Delivered, []) \<lparr>cs_store = (n, m), cs_logs = l\<rparr>
     = (Inr (), \<lparr>cs_store = (n - 1, (namespace_key k sample_cp_context, v) # m), cs_logs = l\<rparr>)"
  by (simp add: put_object_def base_put_object_def sample_call_defs handle_acme_storage_put_request_def)

lemma sample_delete:
  "0 < n \<Longrightarrow> delete_object sample_config k (Delivered, []) \<lparr>cs_store = (n, m), cs_logs = l\<rparr>
     = (Inr (), \<lparr>cs_store = (n - 1, filter (\<lambda>(k', _). k' \<noteq> namespace_key k sample_cp_context) m), cs_logs = l\<rparr>)"
  by (simp add: delete_object_def base_delete_object_def sample_call_defs handle_acme_storage_delete_request_def)


definition sample_signature :: string where
  "sample_signature = replicate 31 CHR 0x00 @ ''A'' @ replicate 31 CHR 0x00 @ ''B''"

lemma sample_der: "der_sig_to_jws_sig sample_openssl ''AB'' = Some (Inr sample_signature)"
  by code_simp

lemma sample_header: "\<exists>h. jws_header sample_openssl u x (Some \<lparr>pk_id = EC, pk_material = ''AB''\<rparr>) a = Inr h \<and> jh_url h = u"
  by (cases a) (simp_all add: jws_header_def jwk_new_def extract_ec_coordinates_def sample_openssl_def Let_def)

lemma sample_jws: "jws sample_openssl u x p (Some \<lparr>pk_id = EC, pk_material = ''AB''\<rparr>) a
    = Some (Inr \<lparr>jr_protected = u, jr_payload = p, jr_signature = sample_signature\<rparr>)"
proof -
  obtain h where "jws_header sample_openssl u x (Some \<lparr>pk_id = EC, pk_material = ''AB''\<rparr>) a = Inr h" "jh_url h = u"
    using sample_header by blast
  then show ?thesis
    using sample_der by (simp add: jws_def Let_def) (simp add: sample_openssl_def jws_alg_def)
qed

lemma sample_sign:
  "\<not> sublist ''/newOrder'' u \<Longrightarrow> \<not> sublist ''/new-order'' u \<Longrightarrow>
   client_jws sample_config \<lparr>jq_signature_type = SignECDSA, jq_url = u, jq_nonce = x, jq_payload = p, jq_account_id = a\<rparr> Delivered st
    = (Inr \<lparr>jr_protected = u, jr_payload = p, jr_signature = sample_signature\<rparr>, st)"
  by (simp add: client_jws_def sample_call_defs handle_acme_signing_request_def sign_acme_payload_def signing_key_def sample_jws)

lemma ref_jwk: "cj_jwk ref_json (cj_to_vec ref_json (JwkResponsePayload jwk)) = Some jwk"
  using dec_enc_strs [of "payload_fields (JwkResponsePayload jwk)"] by (simp add: ref_json_def)

definition sample_client_jwk :: Jwk where
  "sample_client_jwk = \<lparr>jwk_alg = ''ES256'', jwk_crv = ''P-256'', jwk_kty = ''EC'', jwk_use = ''sig'', jwk_x = be_bytes 1, jwk_y = be_bytes 2\<rparr>"

lemma sample_jwk: "client_jwk sample_config Delivered st = (Inr sample_client_jwk, st)"
proof -
  have "jwk_new sample_openssl \<lparr>pk_id = EC, pk_material = ''AB''\<rparr> = Inr sample_client_jwk"
    by (simp add: jwk_new_def extract_ec_coordinates_def sample_openssl_def sample_client_jwk_def)
  then show ?thesis
    by (simp add: client_jwk_def sample_call_defs handle_acme_jwk_request_def get_acme_jwk_def ref_jwk)
qed

definition sample_world :: "(alist_store, sample_acme) acme_world acme_state" where
  "sample_world = \<lparr>st_env = \<lparr>aw_cfg = \<lparr>cs_store = (20, []), cs_logs = []\<rparr>, aw_links = [], aw_rest = \<lparr>sm_count = 0, sm_now = 0, sm_objects = []\<rparr>\<rparr>,
     st_nonce = None, st_account = None, st_trusted = None, st_trace = []\<rparr>"

lemmas sample_world_defs = sample_world_def enclave_env_def enclave_services_def on_config_def on_rest_def
  sample_get sample_put sample_delete sample_sign sample_jwk
lemmas cert_run_defs = create_certificate_and_persist_with_lock_def new_with_config_client_def lock_new_def
  write_and_check_persisted_def write_lock_def is_persisted_def storage_get_def storage_delete_def lock_key_name_def has_uuid_def
  encrypt_certificate_def raw_persist_def lock_delete_def to_x509s_def to_certified_key_def

lemma short_url: "\<not> sublist ''/newOrder'' [c]" "\<not> sublist ''/new-order'' [c]"
  by (auto dest: sublist_length_le)

definition sample_stored :: "(alist_store, sample_acme) acme_world" where
  "sample_stored =
     \<lparr>aw_cfg = \<lparr>cs_store = (15, [(namespace_key CERTIFICATE_OBJECT_KEY sample_cp_context, ''pem''),
        (namespace_key ''acme-challenges/t'' sample_cp_context, ''t.'' @ be_bytes 1)]), cs_logs = []\<rparr>, aw_links = [],
      aw_rest = \<lparr>sm_count = 10, sm_now = 7000, sm_objects = []\<rparr>\<rparr>"

lemma sample_created:
  "\<exists>s'. create_certificate_and_persist_with_lock (enclave_env sample_config (sample_acme_env 0)) sample_key sample_enclave 1 sample_world
     = (Val (Some \<lparr>ck_chain = [sample_x509], ck_key = ''k''\<rparr>), s') \<and> st_env s' = sample_stored"
  by (simp add: cert_run_defs order_run_defs sample_acme_defs sample_world_defs short_url)
    (simp add: join_with_def thumb_of_def sample_client_jwk_def sample_stored_def)

lemma sample_fetched:
  assumes "st_env s = sample_stored"
  shows "\<exists>m s'. fetch_and_decrypt_certificate (enclave_env sample_config (sample_acme_env 0)) sample_key s = (Val m, s')"
  using assms
  by (simp add: fetch_and_decrypt_certificate_def raw_from_storage_def storage_get_def decrypt_certificate_def
      to_x509s_def time_till_renewal_required_def schedule_certificate_renewal_def to_certified_key_def sample_stored_def
      and_then_def service_def enclave_env_def enclave_services_def on_config_def on_rest_def sample_get sample_acme_defs
      earliest_expiry_def get_jittered_time_def duration_until_def sample_x509_def THIRTY_DAYS_IN_SECONDS_def
      ONE_DAY_IN_SECONDS_def asn1_time_to_system_time_def Let_def)

interpretation sample_e3: e3_service "sample_acme_services delay"
  by unfold_locales (auto simp: sample_acme_services_def)

interpretation sample_world_storage: enclave_storage sample_config alist_contents "sample_acme_env delay"
  by (intro enclave_storage.intro)
    (simp_all add: sample_cfg.config_storage_axioms sample_acme_env_def sample_e3.e3_service_axioms)

theorem created_certificate_is_shared_witness:
  "\<exists>s' q'. create_certificate_and_persist_with_lock (enclave_env sample_config (sample_acme_env 0)) sample_key sample_enclave 1 sample_world
       = (Val (Some \<lparr>ck_chain = [sample_x509], ck_key = ''k''\<rparr>), s')
     \<and> fetch_and_decrypt_certificate (enclave_env sample_config (sample_acme_env 0)) sample_key s'
       = (Val (Some \<lparr>ck_chain = [sample_x509], ck_key = ''k''\<rparr>), q')"
proof -
  obtain s' where created: "create_certificate_and_persist_with_lock (enclave_env sample_config (sample_acme_env 0)) sample_key sample_enclave 1 sample_world
      = (Val (Some \<lparr>ck_chain = [sample_x509], ck_key = ''k''\<rparr>), s')" and "st_env s' = sample_stored"
    using sample_created by blast
  then obtain m q' where fetched: "fetch_and_decrypt_certificate (enclave_env sample_config (sample_acme_env 0)) sample_key s' = (Val m, q')"
    using sample_fetched by blast
  have "config_messages (cf_json sample_config)" "object_store (cf_storage sample_config) alist_contents"
      "e3_service (en_services (sample_acme_env 0))"
    by (simp_all add: sample_config_def ref_cfg.config_messages_axioms alist_st.object_store_axioms sample_acme_env_def
        sample_e3.e3_service_axioms)
  from created_certificate_is_shared [OF this created refl fetched] created fetched show ?thesis by blast
qed

text \<open>
  An order may outlive its lock: an instance can get its certificate although its lock expired long before, while it
  was waiting for the challenge; the lock lasts thirty seconds, one challenge may be polled for seventy. So the
  premise under which orders exclude each other is not kept by the code.
\<close>

theorem order_may_outlive_lock:
  "\<exists>l ck s'. fst (new_with_config_client (enclave_env sample_config (sample_acme_env 10)) CERTIFICATE_LOCK_NAME 1 sample_world) = Val l
     \<and> create_certificate_and_persist_with_lock (enclave_env sample_config (sample_acme_env 10)) sample_key sample_enclave 1 sample_world
       = (Val (Some ck), s')
     \<and> is_expired (sv_now (en_services (enclave_env sample_config (sample_acme_env 10))) (st_env s')) l"
  by (simp add: cert_run_defs order_run_defs sample_acme_defs sample_world_defs short_url is_expired_def)

end
