(* ===== verification/Clock_Sync.thy ===== *)
theory Clock_Sync
  imports Config_Client
begin

text \<open>
  The clock of the enclave, \<open>data-plane/src/time/mod.rs\<close>: every tick asks the configuration server of the host for
  its time and sets the clock of the enclave to it. Times are nanoseconds since 1970. The clock readings before and
  after the request and the outcome of the system call are arguments.
\<close>

datatype ClockSyncError = ClockError DpError | ClockSyncFailed | ClockSystemTime

text \<open>
  One synchronisation: its result, the seconds and nanoseconds the clock was set to, and the state of the server.
  \<open>SystemTime::elapsed\<close> fails when the clock went backwards.
\<close>

definition sync_time_from_host ::
  "'s config_env \<Rightarrow> link \<times> link list \<Rightarrow> int \<Rightarrow> int \<Rightarrow> bool \<Rightarrow> 's cfg_state
   \<Rightarrow> (ClockSyncError, unit) result \<times> (int \<times> int) option \<times> 's cfg_state" where
  "sync_time_from_host C ls request_timer answered settime_ok st =
     (case get_time_from_host C ls st of
        (Inl e, st') \<Rightarrow> (Inl (ClockError e), None, st')
      | (Inr (seconds, milliseconds), st') \<Rightarrow>
         (if answered < request_timer then (Inl ClockSystemTime, None, st')
          else (let elapsed_ns = answered - request_timer in
            if elapsed_ns div 1000000 > 500 then (Inr (), None, st')
            else if settime_ok then (Inr (), Some (seconds, milliseconds), st')
            else (Inl ClockSyncFailed, None, st'))))"

text \<open>
  \<open>run\<close>: one synchronisation per tick, errors are logged. A tick has the links of its request, how long the request
  took and whether the clock could be set; the clock of the enclave runs on between the ticks.
\<close>

record clock_tick =
  ck_links :: "link \<times> link list"
  ck_pause :: nat
  ck_request :: int
  ck_settime :: bool

definition clock_after :: "(int \<times> int) option \<Rightarrow> int \<Rightarrow> int" where
  "clock_after setting now = (case setting of None \<Rightarrow> now | Some (secs, nanos) \<Rightarrow> secs * 1000000000 + nanos)"

fun clock_run :: "(nat \<Rightarrow> 's config_env) \<Rightarrow> nat \<Rightarrow> clock_tick list \<Rightarrow> int \<Rightarrow> 's cfg_state \<Rightarrow> int list" where
  "clock_run C i [] clock st = []"
| "clock_run C i (k # ks) clock st =
     (let before = clock + int (ck_pause k); after = before + ck_request k;
          (_, setting, st') = sync_time_from_host (C i) (ck_links k) before after (ck_settime k) st;
          clock' = clock_after setting after
      in clock' # clock_run C (Suc i) ks clock' st')"

section \<open>The host's time\<close>

text \<open>What the host answers when its clock shows \<open>h\<close>, and that the message survives JSON.\<close>

definition host_reading :: "nat \<Rightarrow> int \<times> int" where
  "host_reading h = (int (h div 1000000000), int (h mod 1000000000 div 1000000))"

definition clock_message :: "config_json \<Rightarrow> bool" where
  "clock_message J \<longleftrightarrow> (\<forall>s ms. cj_clock_sync J (cj_to_vec J (ClockSyncPayload s ms)) = Some (s, ms))"

lemma base_time_from_host:
  assumes "clock_message (cf_json C)" and "cf_clock C = Some (s, ms)"
  shows "base_get_time_from_host C Delivered st = (Inr (s, ms), st)"
  using assms
  by (simp add: base_get_time_from_host_def then_parse_def client_send_def handle_incoming_request_def handle_time_sync_request_def
      build_success_response_def parse_response_def clock_message_def)

lemma base_time_lost:
  assumes "cf_clock C = Some (s, ms)" and "l \<noteq> Delivered"
  shows "\<exists>e. base_get_time_from_host C l st = (Inl e, st)"
  using assms by (cases l)
    (auto simp: base_get_time_from_host_def then_parse_def client_send_def handle_incoming_request_def handle_time_sync_request_def)

text \<open>A call succeeds as soon as one of its attempts is delivered.\<close>

lemma time_from_host:
  assumes "clock_message (cf_json C)" and "cf_clock C = Some (s, ms)" and "Delivered \<in> set (l # ls)"
  shows "get_time_from_host C (l, ls) st = (Inr (s, ms), st)"
proof -
  have "retry_spawn (base_get_time_from_host C) l ls st = (Inr (s, ms), st)"
    using assms(3)
  proof (induction ls arbitrary: l)
    case Nil
    then show ?case using base_time_from_host [OF assms(1,2)] by simp
  next
    case (Cons l' ls)
    then show ?case
      using base_time_from_host [OF assms(1,2)] base_time_lost [OF assms(2), of l st] by (cases "l = Delivered") auto
  qed
  then show ?thesis by (simp add: get_time_from_host_def)
qed

lemma clock_after_reading:
  "clock_after (Some (host_reading h)) t \<le> int h"
  "int h - clock_after (Some (host_reading h)) t < 1000000000"
  "int (h mod 1000000000 div 1000000) * 999999 \<le> int h - clock_after (Some (host_reading h)) t"
proof -
  have c: "clock_after (Some (host_reading h)) t = int (h div 1000000000 * 1000000000 + h mod 1000000000 div 1000000)"
    by (simp add: clock_after_def host_reading_def)
  have h: "h = h div 1000000000 * 1000000000 + h mod 1000000000" by simp
  have m: "h mod 1000000000 = h mod 1000000000 div 1000000 * 1000000 + h mod 1000000000 mod 1000000" by simp
  have "h mod 1000000000 < 1000000000" by simp
  with h m have "h div 1000000000 * 1000000000 + h mod 1000000000 div 1000000 \<le> h"
    "h < h div 1000000000 * 1000000000 + h mod 1000000000 div 1000000 + 1000000000"
    "h mod 1000000000 div 1000000 * 999999 + (h div 1000000000 * 1000000000 + h mod 1000000000 div 1000000) \<le> h" by linarith+
  then show "clock_after (Some (host_reading h)) t \<le> int h"
    "int h - clock_after (Some (host_reading h)) t < 1000000000"
    "int (h mod 1000000000 div 1000000) * 999999 \<le> int h - clock_after (Some (host_reading h)) t"
    unfolding c by linarith+
qed

lemma sync_delivered:
  assumes "clock_message (cf_json C)" and "cf_clock C = Some (host_reading h)" and "Delivered \<in> set (l # ls)" and "t \<le> t'"
  shows "sync_time_from_host C (l, ls) t t' True st = (Inr (), if t' - t < 501000000 then Some (host_reading h) else None, st)"
proof -
  have "500 < (t' - t) div 1000000 \<longleftrightarrow> \<not> t' - t < 501000000" by linarith
  then show ?thesis
    using time_from_host [OF assms(1) _ assms(3), of "fst (host_reading h)" "snd (host_reading h)"] assms(2,4)
    by (simp add: sync_time_from_host_def Let_def host_reading_def)
qed

text \<open>However the earlier ticks ended, a tick whose request is answered in time brings the clock back to the host's.\<close>

lemma clock_run_follows_host:
  assumes "clock_message (cf_json (C (i + n)))" and "cf_clock (C (i + n)) = Some (host_reading h)" and "n < length ks"
    and "Delivered \<in> set (fst (ck_links (ks ! n)) # snd (ck_links (ks ! n)))" and "ck_settime (ks ! n)"
    and "0 \<le> ck_request (ks ! n)" and "ck_request (ks ! n) < 501000000"
  shows "clock_run C i ks clock st ! n \<in> {int h - 999999999 .. int h}"
  using assms
proof (induction C i ks clock st arbitrary: n rule: clock_run.induct)
  case (2 C i k ks clock st)
  obtain l ls where k: "ck_links k = (l, ls)" by (cases "ck_links k")
  show ?case
  proof (cases n)
    case 0
    with 2 k sync_delivered [of "C i" h l ls "clock + int (ck_pause k)" "clock + int (ck_pause k) + ck_request k" st]
      clock_after_reading [of h "clock + int (ck_pause k) + ck_request k"]
    show ?thesis by (simp add: Let_def)
  next
    case (Suc m)
    with 2 show ?thesis by (auto simp: Let_def split: prod.split)
  qed
qed simp

text \<open>
  (C29) A synchronisation that reaches the host within half a second sets the clock of the enclave to a time that is
  never ahead of the reading of the host and less than a second behind it. The part of the reading below a second
  is lost: the milliseconds of the host become nanoseconds, so that a host at 900 milliseconds past a second leaves
  the enclave about 900 milliseconds behind. A synchronisation that takes longer leaves the clock alone.
\<close>

theorem clock_behind_host:
  assumes "clock_message (cf_json C)" and "cf_clock C = Some (host_reading h)" and "Delivered \<in> set (l # ls)"
    and "t \<le> t'"
  shows "if t' - t < 501000000 then \<exists>setting. sync_time_from_host C (l, ls) t t' True st = (Inr (), Some setting, st)
    \<and> clock_after (Some setting) t' \<le> int h \<and> int h - clock_after (Some setting) t' < 1000000000
    \<and> int (h mod 1000000000 div 1000000) * 999999 \<le> int h - clock_after (Some setting) t'
    else sync_time_from_host C (l, ls) t t' True st = (Inr (), None, st)"
proof -
  note s = sync_delivered [OF assms, of st]
  note c = clock_after_reading [of h t']
  show ?thesis
  proof (cases "t' - t < 501000000")
    case True
    with s c show ?thesis by (simp add: Let_def)
  next
    case False
    with s show ?thesis by simp
  qed
qed

section \<open>An example\<close>

text \<open>Integers in unary behind their sign.\<close>

definition enc_int :: "int \<Rightarrow> string" where
  "enc_int i = (if i < 0 then CHR ''-'' else CHR ''+'') # replicate (nat \<bar>i\<bar>) CHR ''1''"

definition dec_int :: "string \<Rightarrow> int" where
  "dec_int s = (case s of [] \<Rightarrow> 0 | c # r \<Rightarrow> if c = CHR ''-'' then - int (length r) else int (length r))"

lemma dec_enc_int [simp]: "dec_int (enc_int i) = i"
  by (simp add: enc_int_def dec_int_def)

definition clock_json :: config_json where
  "clock_json = ref_json
     \<lparr>cj_to_vec := (\<lambda>p. case p of ClockSyncPayload s ms \<Rightarrow> concat (map enc_str [enc_int s, enc_int ms]) | _ \<Rightarrow> []),
      cj_clock_sync := (\<lambda>b. map_option (map_prod dec_int dec_int) (two_fields b))\<rparr>"

lemma clock_json_message: "clock_message clock_json"
  using dec_enc_strs [of "[enc_int s, enc_int ms]" for s ms] by (simp add: clock_message_def clock_json_def two_fields_def)

definition sample_clock_config :: "alist_store config_env" where
  "sample_clock_config = sample_config\<lparr>cf_json := clock_json, cf_clock := Some (host_reading 2900000000)\<rparr>"

theorem clock_behind_host_witness:
  "\<exists>setting. sync_time_from_host sample_clock_config (ResponseLost, [Delivered]) 0 1000 True \<lparr>cs_store = (0, []), cs_logs = []\<rparr>
      = (Inr (), Some setting, \<lparr>cs_store = (0, []), cs_logs = []\<rparr>)
    \<and> clock_after (Some setting) 1000 \<le> 2900000000 \<and> 899999100 \<le> 2900000000 - clock_after (Some setting) 1000"
proof -
  have "clock_message (cf_json sample_clock_config)" "cf_clock sample_clock_config = Some (host_reading 2900000000)"
    "Delivered \<in> set (ResponseLost # [Delivered])"
    using clock_json_message by (simp_all add: sample_clock_config_def)
  from clock_behind_host [OF this, of 0 1000 "\<lparr>cs_store = (0, []), cs_logs = []\<rparr>"] show ?thesis by auto
qed

end
