(* ===== verification/Vsock_Proxy.thy ===== *)
theory Vsock_Proxy
  imports Ip_Address
begin

text \<open>
  The command line tool that joins a TCP and a vsock address, \<open>crates/vsock-proxy/src/main.rs\<close> and \<open>net.rs\<close>: the
  options and their conflicts, which \<open>clap\<close> enforces, the syntax of an address, the sockets of either kind, and the
  loop over the connections. The parser of TCP socket addresses and the sockets of the system are arguments;
  \<open>str::trim\<close> and the parser of numbers are those of the standard library.
\<close>

section \<open>Addresses\<close>

datatype VsockParseError = InvalidAddress nat | TokenParseError

datatype ProxyError = TcpParseError | VsockParse VsockParseError

datatype 'a Address = Vsock nat nat | Tcp 'a

definition new_tcp_address :: "(string \<Rightarrow> 'a option) \<Rightarrow> string \<Rightarrow> (ProxyError, 'a Address) result" where
  "new_tcp_address parse addr = try_bind (ok_or TcpParseError (parse addr)) (\<lambda>socket_addr. Inr (Tcp socket_addr))"

definition new_vsock_address :: "string \<Rightarrow> (ProxyError, 'a Address) result" where
  "new_vsock_address addr =
     (let addr_parts = split_on CHR '':'' addr in
      if length addr_parts \<noteq> 2 then Inl (VsockParse (InvalidAddress (length addr_parts)))
      else (case parse_unsigned 32 (str_trim (addr_parts ! 0)) of
              None \<Rightarrow> Inl (VsockParse TokenParseError)
            | Some cid \<Rightarrow>
               (case parse_unsigned 32 (str_trim (addr_parts ! 1)) of
                  None \<Rightarrow> Inl (VsockParse TokenParseError)
                | Some port \<Rightarrow> Inr (Vsock cid port))))"

section \<open>Arguments\<close>

record proxy_args =
  pa_tcp_source :: "string option"
  pa_tcp_destination :: "string option"
  pa_vsock_source :: "string option"
  pa_vsock_destination :: "string option"

datatype args_error = ArgsConflict | NoSource | NoDestination | BadSource ProxyError | BadDestination ProxyError

definition args_conflict :: "proxy_args \<Rightarrow> bool" where
  "args_conflict a \<longleftrightarrow>
     (pa_tcp_source a \<noteq> None \<and> pa_vsock_source a \<noteq> None)
     \<or> (pa_tcp_destination a \<noteq> None \<and> (pa_vsock_destination a \<noteq> None \<or> pa_tcp_source a \<noteq> None))
     \<or> (pa_vsock_destination a \<noteq> None \<and> pa_vsock_source a \<noteq> None)"

definition parse_either :: "(string \<Rightarrow> 'a option) \<Rightarrow> string option \<Rightarrow> string option \<Rightarrow> (ProxyError, 'a Address) result option" where
  "parse_either parse tcp vsock =
     (case tcp of Some t \<Rightarrow> Some (new_tcp_address parse t) | None \<Rightarrow> map_option new_vsock_address vsock)"

definition proxy_addresses :: "(string \<Rightarrow> 'a option) \<Rightarrow> proxy_args \<Rightarrow> (args_error, 'a Address \<times> 'a Address) result" where
  "proxy_addresses parse a =
     (if args_conflict a then Inl ArgsConflict
      else (case parse_either parse (pa_tcp_source a) (pa_vsock_source a) of
              None \<Rightarrow> Inl NoSource
            | Some src \<Rightarrow>
               (case parse_either parse (pa_tcp_destination a) (pa_vsock_destination a) of
                  None \<Rightarrow> Inl NoDestination
                | Some dst \<Rightarrow>
                   try_bind (map_err BadSource src) (\<lambda>source_address.
                   try_bind (map_err BadDestination dst) (\<lambda>destination_address.
                     Inr (source_address, destination_address))))))"

section \<open>Sockets\<close>

text \<open>What the system does: binding and connecting either kind of socket, and reading and writing a stream of either kind.\<close>

record ('a, 't, 'v) socket_lib =
  so_bind_tcp :: "'a \<Rightarrow> bool"
  so_bind_vsock :: "nat \<Rightarrow> nat \<Rightarrow> bool"
  so_connect_tcp :: "'a \<Rightarrow> 't option"
  so_connect_vsock :: "nat \<Rightarrow> nat \<Rightarrow> 'v option"

record 's async_io =
  io_read :: "nat \<Rightarrow> 's \<Rightarrow> bytes option \<times> 's"
  io_write :: "bytes \<Rightarrow> 's \<Rightarrow> nat option \<times> 's"
  io_flush :: "'s \<Rightarrow> bool \<times> 's"
  io_shutdown :: "'s \<Rightarrow> bool \<times> 's"

datatype SourceConnection = TcpListener | VsockListener

datatype ('t, 'v) Connection = TcpStream 't | VsockStream 'v

definition into_listener :: "('a, 't, 'v) socket_lib \<Rightarrow> 'a Address \<Rightarrow> (unit, SourceConnection) result" where
  "into_listener S addr =
     (case addr of
        Tcp tcp_addr \<Rightarrow> if so_bind_tcp S tcp_addr then Inr TcpListener else Inl ()
      | Vsock cid port \<Rightarrow> if so_bind_vsock S cid port then Inr VsockListener else Inl ())"

definition get_destination_connection :: "('a, 't, 'v) socket_lib \<Rightarrow> 'a Address \<Rightarrow> (unit, ('t, 'v) Connection) result" where
  "get_destination_connection S addr =
     (case addr of
        Tcp tcp_addr \<Rightarrow> map_sum id TcpStream (ok_or () (so_connect_tcp S tcp_addr))
      | Vsock cid port \<Rightarrow> map_sum id VsockStream (ok_or () (so_connect_vsock S cid port)))"

text \<open>The next connection of a listener: the stream its socket accepts, of the kind of the listener.\<close>

definition listener_accept :: "SourceConnection \<Rightarrow> 't option \<Rightarrow> 'v option \<Rightarrow> (unit, ('t, 'v) Connection) result" where
  "listener_accept l tcp vsock =
     (case l of
        TcpListener \<Rightarrow> map_sum id TcpStream (ok_or () tcp)
      | VsockListener \<Rightarrow> map_sum id VsockStream (ok_or () vsock))"

definition connection_poll_read ::
  "'t async_io \<Rightarrow> 'v async_io \<Rightarrow> nat \<Rightarrow> ('t, 'v) Connection \<Rightarrow> bytes option \<times> ('t, 'v) Connection" where
  "connection_poll_read T V n c =
     (case c of TcpStream conn \<Rightarrow> apsnd TcpStream (io_read T n conn) | VsockStream conn \<Rightarrow> apsnd VsockStream (io_read V n conn))"

definition connection_poll_write ::
  "'t async_io \<Rightarrow> 'v async_io \<Rightarrow> bytes \<Rightarrow> ('t, 'v) Connection \<Rightarrow> nat option \<times> ('t, 'v) Connection" where
  "connection_poll_write T V buf c =
     (case c of TcpStream conn \<Rightarrow> apsnd TcpStream (io_write T buf conn) | VsockStream conn \<Rightarrow> apsnd VsockStream (io_write V buf conn))"

definition connection_poll_flush :: "'t async_io \<Rightarrow> 'v async_io \<Rightarrow> ('t, 'v) Connection \<Rightarrow> bool \<times> ('t, 'v) Connection" where
  "connection_poll_flush T V c =
     (case c of TcpStream conn \<Rightarrow> apsnd TcpStream (io_flush T conn) | VsockStream conn \<Rightarrow> apsnd VsockStream (io_flush V conn))"

definition connection_poll_shutdown :: "'t async_io \<Rightarrow> 'v async_io \<Rightarrow> ('t, 'v) Connection \<Rightarrow> bool \<times> ('t, 'v) Connection" where
  "connection_poll_shutdown T V c =
     (case c of TcpStream conn \<Rightarrow> apsnd TcpStream (io_shutdown T conn) | VsockStream conn \<Rightarrow> apsnd VsockStream (io_shutdown V conn))"

section \<open>The loop\<close>

text \<open>
  What happens to the connections in the order in which they come: what their listener accepts (\<open>None\<close> of the kind of
  the listener: the accept fails), the sockets at that time, and whether the copy ends. The copy is awaited in the
  loop itself.
\<close>

record ('a, 't, 'v) proxied_conn =
  px_tcp :: "'t option"
  px_vsock :: "'v option"
  px_sockets :: "('a, 't, 'v) socket_lib"
  px_copy_ends :: bool

fun proxy_loop ::
  "SourceConnection \<Rightarrow> 'a Address \<Rightarrow> ('a, 't, 'v) proxied_conn list \<Rightarrow> (('t, 'v) Connection \<times> ('t, 'v) Connection) list" where
  "proxy_loop source destination [] = []"
| "proxy_loop source destination (c # cs) =
     (case listener_accept source (px_tcp c) (px_vsock c) of
        Inl _ \<Rightarrow> proxy_loop source destination cs
      | Inr accepted_conn \<Rightarrow>
         (case get_destination_connection (px_sockets c) destination of
            Inl _ \<Rightarrow> proxy_loop source destination cs
          | Inr dest_conn \<Rightarrow>
             (accepted_conn, dest_conn) # (if px_copy_ends c then proxy_loop source destination cs else [])))"

text \<open>\<open>main\<close>: the pairs of connections that are copied into each other; an error before the loop is printed.\<close>

definition proxy_main ::
  "(string \<Rightarrow> 'a option) \<Rightarrow> ('a, 't, 'v) socket_lib \<Rightarrow> proxy_args \<Rightarrow> ('a, 't, 'v) proxied_conn list
   \<Rightarrow> (args_error + unit, (('t, 'v) Connection \<times> ('t, 'v) Connection) list) result" where
  "proxy_main parse S a cs =
     try_bind (map_err Inl (proxy_addresses parse a)) (\<lambda>(source_address, destination_address).
     try_bind (map_err Inr (into_listener S source_address)) (\<lambda>source.
       Inr (proxy_loop source destination_address cs)))"

section \<open>Numbers round trip\<close>

lemma is_white_no_digit: "is_white t \<Longrightarrow> \<exists>c \<in> set t. (of_char c :: nat) < 48 \<or> 57 < (of_char c :: nat)"
  by (auto simp: is_white_def Let_def map_eq_Cons_conv)

lemma trim_digits:
  assumes "\<forall>c \<in> set s. 48 \<le> (of_char c :: nat) \<and> (of_char c :: nat) \<le> 57"
  shows "str_trim s = s"
proof -
  have white: "\<not> is_white t" if "set t \<subseteq> set s" for t using is_white_no_digit [of t] that assms by fastforce
  have "white_prefix s = 0" "white_suffix s = 0"
    using white [OF set_take_subset] white [OF set_drop_subset] by (simp_all add: white_prefix_def white_suffix_def Let_def)
  then have "trim_start fuel s = s" "trim_end fuel s = s" for fuel by (cases fuel; simp)+
  then show ?thesis by (simp add: str_trim_def)
qed

text \<open>
  The syntax of vsock addresses: two numbers of 32 bits separated by a colon are read back as the address they
  print, and everything else than two fields is refused with the number of the fields.
\<close>

theorem vsock_address_roundtrip:
  assumes "cid < 2 ^ 32" and "port < 2 ^ 32"
  shows "new_vsock_address (show_nat cid @ '':'' @ show_nat port) = Inr (Vsock cid port)"
    and "length (split_on CHR '':'' addr) \<noteq> 2 \<Longrightarrow>
      new_vsock_address addr = Inl (VsockParse (InvalidAddress (length (split_on CHR '':'' addr))))"
proof -
  have "CHR '':'' \<notin> set (show_nat n)" for n using show_nat_digit [of "CHR '':''" n] by auto
  then have "split_on CHR '':'' (show_nat cid @ '':'' @ show_nat port) = [show_nat cid, show_nat port]"
    by (simp add: split_on_append_sep split_on_no_sep)
  moreover have "str_trim (show_nat n) = show_nat n" for n using trim_digits show_nat_digit by blast
  ultimately show "new_vsock_address (show_nat cid @ '':'' @ show_nat port) = Inr (Vsock cid port)"
    using assms by (simp add: new_vsock_address_def parse_show_nat)
  show "length (split_on CHR '':'' addr) \<noteq> 2 \<Longrightarrow>
      new_vsock_address addr = Inl (VsockParse (InvalidAddress (length (split_on CHR '':'' addr))))"
    by (simp add: new_vsock_address_def)
qed

text \<open>The options only allow to join a TCP and a vsock address, in one direction or the other.\<close>

lemma parse_either_kind:
  assumes "parse_either parse tcp vsock = Some (Inr x)"
  shows "case x of Tcp _ \<Rightarrow> tcp \<noteq> None | Vsock _ _ \<Rightarrow> tcp = None \<and> vsock \<noteq> None"
  using assms
  by (cases tcp) (auto simp: parse_either_def new_tcp_address_def new_vsock_address_def Let_def ok_or_def
    split: option.splits if_splits Address.splits)

theorem proxy_joins_tcp_and_vsock:
  assumes "proxy_addresses parse a = Inr (src, dst)"
  shows "(\<exists>t c p. src = Tcp t \<and> dst = Vsock c p) \<or> (\<exists>t c p. src = Vsock c p \<and> dst = Tcp t)"
proof -
  have "\<not> args_conflict a" "parse_either parse (pa_tcp_source a) (pa_vsock_source a) = Some (Inr src)"
    "parse_either parse (pa_tcp_destination a) (pa_vsock_destination a) = Some (Inr dst)"
    using assms by (auto simp: proxy_addresses_def result_simps split: if_splits option.splits)
  with parse_either_kind [OF this(2)] parse_either_kind [OF this(3)] show ?thesis
    by (cases src; cases dst) (auto simp: args_conflict_def)
qed

text \<open>Whatever connections come, the forwarder only ever copies between a TCP and a vsock stream.\<close>

lemma proxy_loop_kinds:
  assumes "(c, d) \<in> set (proxy_loop source dst cs)"
  shows "(source = TcpListener \<longrightarrow> (\<exists>t. c = TcpStream t)) \<and> (source = VsockListener \<longrightarrow> (\<exists>v. c = VsockStream v))
    \<and> (\<forall>a. dst = Tcp a \<longrightarrow> (\<exists>t. d = TcpStream t)) \<and> (\<forall>cid p. dst = Vsock cid p \<longrightarrow> (\<exists>v. d = VsockStream v))"
  using assms
proof (induction cs)
  case (Cons x cs)
  show ?case
  proof (cases "(c, d) \<in> set (proxy_loop source dst cs)")
    case False
    with Cons.prems have "listener_accept source (px_tcp x) (px_vsock x) = Inr c" "get_destination_connection (px_sockets x) dst = Inr d"
      by (auto split: sum.splits if_splits)
    then show ?thesis
      by (auto simp: listener_accept_def get_destination_connection_def ok_or_def
          split: SourceConnection.splits Address.splits option.splits)
  qed (rule Cons.IH)
qed simp

theorem proxy_copies_between_kinds:
  assumes "proxy_main parse S a cs = Inr pairs" and "(c, d) \<in> set pairs"
  shows "(\<exists>t v. c = TcpStream t \<and> d = VsockStream v) \<or> (\<exists>t v. c = VsockStream v \<and> d = TcpStream t)"
proof -
  from assms(1) obtain src dst source where p: "proxy_addresses parse a = Inr (src, dst)" "into_listener S src = Inr source"
    and pairs: "pairs = proxy_loop source dst cs"
    by (auto simp: proxy_main_def result_simps)
  from proxy_joins_tcp_and_vsock [OF p(1)] p(2) proxy_loop_kinds [of c d source dst cs] assms(2) pairs show ?thesis
    by (auto simp: into_listener_def split: if_splits)
qed

text \<open>One connection that stays open keeps every later one waiting.\<close>

theorem open_connection_blocks_proxy:
  assumes "\<not> px_copy_ends c" and "listener_accept source (px_tcp c) (px_vsock c) = Inr s"
    and "get_destination_connection (px_sockets c) dst = Inr d"
  shows "proxy_loop source dst (cs @ c # ds) = proxy_loop source dst (cs @ [c])"
  using assms by (induction cs) (auto split: sum.split)

end
