(* ===== verification/Config_Listen.thy ===== *)
theory Config_Listen
  imports Config_Client
begin

text \<open>
  The accept loop of the configuration server (\<open>listen\<close> of \<open>control-plane/src/config_server.rs\<close>) with the tasks it spawns, as
  a step relation. The connections share the storage; each serves its requests one after the other, as HTTP/1 does, and their
  steps interleave in any order. A request is received, handled by \<open>handle_incoming_request\<close> (which touches the
  storage at most once) and answered. A handler that panics ends the task of its connection and nothing else, and so does
  an error of the connection; an error of \<open>accept\<close> is logged. The lemmas show that the storage the connections share behaves
  as one map on which each call acts at one moment between its arrival and its answer.
\<close>

section \<open>Connections and their steps\<close>

datatype conn_phase = Idle | Waiting cfg_request | Answering cfg_response

datatype listen_event =
    Accepted nat
  | AcceptError
  | Received nat cfg_request
  | Handled nat cfg_request "cfg_response option"
  | Answered nat cfg_response
  | Closed nat

record 's config_listener =
  cl_state :: "'s cfg_state"
  cl_conns :: "nat \<rightharpoonup> conn_phase"
  cl_next :: nat

definition config_listener_new :: "'s cfg_state \<Rightarrow> 's config_listener" where
  "config_listener_new st = \<lparr>cl_state = st, cl_conns = Map.empty, cl_next = 0\<rparr>"

inductive listen_step :: "'s config_env \<Rightarrow> 's config_listener \<Rightarrow> listen_event \<Rightarrow> 's config_listener \<Rightarrow> bool" for C where
  accepted: "listen_step C s (Accepted (cl_next s)) (s\<lparr>cl_conns := (cl_conns s)(cl_next s \<mapsto> Idle), cl_next := Suc (cl_next s)\<rparr>)"
| accept_error: "listen_step C s AcceptError s"
| received: "cl_conns s c = Some Idle \<Longrightarrow> listen_step C s (Received c req) (s\<lparr>cl_conns := (cl_conns s)(c \<mapsto> Waiting req)\<rparr>)"
| handled: "cl_conns s c = Some (Waiting req) \<Longrightarrow> handle_incoming_request C req (cl_state s) = (Some resp, st) \<Longrightarrow>
    listen_step C s (Handled c req (Some resp)) (s\<lparr>cl_state := st, cl_conns := (cl_conns s)(c \<mapsto> Answering resp)\<rparr>)"
| panicked: "cl_conns s c = Some (Waiting req) \<Longrightarrow> handle_incoming_request C req (cl_state s) = (None, st) \<Longrightarrow>
    listen_step C s (Handled c req None) (s\<lparr>cl_state := st, cl_conns := (cl_conns s)(c := None)\<rparr>)"
| answered: "cl_conns s c = Some (Answering resp) \<Longrightarrow>
    listen_step C s (Answered c resp) (s\<lparr>cl_conns := (cl_conns s)(c \<mapsto> Idle)\<rparr>)"
| closed: "cl_conns s c = Some p \<Longrightarrow> listen_step C s (Closed c) (s\<lparr>cl_conns := (cl_conns s)(c := None)\<rparr>)"

inductive listen :: "'s config_env \<Rightarrow> 's cfg_state \<Rightarrow> listen_event list \<Rightarrow> 's config_listener \<Rightarrow> bool" for C st where
  start: "listen C st [] (config_listener_new st)"
| step: "listen C st evs s \<Longrightarrow> listen_step C s e s' \<Longrightarrow> listen C st (evs @ [e]) s'"

text \<open>The step of an event as a function: the state after it, if the event is possible.\<close>

fun listen_next :: "'s config_env \<Rightarrow> 's config_listener \<Rightarrow> listen_event \<Rightarrow> 's config_listener option" where
  "listen_next C s (Accepted c) =
     (if c = cl_next s then Some (s\<lparr>cl_conns := (cl_conns s)(c \<mapsto> Idle), cl_next := Suc c\<rparr>) else None)"
| "listen_next C s AcceptError = Some s"
| "listen_next C s (Received c req) =
     (if cl_conns s c = Some Idle then Some (s\<lparr>cl_conns := (cl_conns s)(c \<mapsto> Waiting req)\<rparr>) else None)"
| "listen_next C s (Handled c req r) =
     (case handle_incoming_request C req (cl_state s) of (r', st) \<Rightarrow>
        if cl_conns s c = Some (Waiting req) \<and> r = r'
        then Some (s\<lparr>cl_state := st, cl_conns := (cl_conns s)(c := map_option Answering r)\<rparr>) else None)"
| "listen_next C s (Answered c resp) =
     (if cl_conns s c = Some (Answering resp) then Some (s\<lparr>cl_conns := (cl_conns s)(c \<mapsto> Idle)\<rparr>) else None)"
| "listen_next C s (Closed c) =
     (if cl_conns s c = None then None else Some (s\<lparr>cl_conns := (cl_conns s)(c := None)\<rparr>))"

lemma listen_next_step: "listen_next C s e = Some s' \<Longrightarrow> listen_step C s e s'"
proof (cases e)
  case (Handled c req r)
  assume "listen_next C s e = Some s'"
  with Handled show ?thesis by (cases r) (auto split: if_splits prod.splits intro: listen_step.intros)
qed (auto split: if_splits intro: listen_step.intros)

fun listen_exec :: "'s config_env \<Rightarrow> listen_event list \<Rightarrow> 's config_listener \<Rightarrow> 's config_listener option" where
  "listen_exec C [] s = Some s"
| "listen_exec C (e # evs) s = Option.bind (listen_next C s e) (listen_exec C evs)"

lemma listen_exec_listen: "listen_exec C evs s = Some s' \<Longrightarrow> listen C st pre s \<Longrightarrow> listen C st (pre @ evs) s'"
proof (induction evs arbitrary: s pre)
  case (Cons e evs)
  then obtain s1 where "listen_next C s e = Some s1" "listen_exec C evs s1 = Some s'" by (auto simp: bind_eq_Some_conv)
  with Cons.IH [of s1 "pre @ [e]"] listen.step [OF Cons.prems(2) listen_next_step] show ?case by simp
qed simp

inductive_cases Answered_stepE: "listen_step C s (Answered c resp) s'"

section \<open>Calls of the storage\<close>

text \<open>The call a request makes, if it reaches the storage, and what its response says.\<close>

definition request_op :: "'s config_env \<Rightarrow> cfg_request \<Rightarrow> store_op option" where
  "request_op C req =
     (if path_from_str (cq_path req) \<noteq> Some Storage then None
      else if cq_method req = ''GET'' then map_option GetOp (res_ok (parse_request (cj_get_object (cf_json C)) req))
      else if cq_method req = ''PUT'' then map_option (\<lambda>(k, v). PutOp k v) (res_ok (parse_request (cj_put_object (cf_json C)) req))
      else if cq_method req = ''DELETE'' then map_option DeleteOp (res_ok (parse_request (cj_delete_object (cf_json C)) req))
      else None)"

fun op_answer :: "'s config_env \<Rightarrow> store_op \<Rightarrow> cfg_response option \<Rightarrow> store_answer" where
  "op_answer C op None = Failed"
| "op_answer C (GetOp k) (Some resp) =
     (if cr_status resp = 200 then (case cj_object (cf_json C) (cr_body resp) of Some v \<Rightarrow> Object (Some v) | None \<Rightarrow> Failed)
      else if cr_status resp = 404 then Object None else Failed)"
| "op_answer C op (Some resp) = (if cr_status resp = 200 then Done else Failed)"

definition handled_ops :: "'s config_env \<Rightarrow> listen_event list \<Rightarrow> (store_op \<times> store_answer) list" where
  "handled_ops C evs =
     concat (map (\<lambda>e. case e of
         Handled _ req r \<Rightarrow> (case request_op C req of Some op \<Rightarrow> [(op, op_answer C op r)] | None \<Rightarrow> [])
       | _ \<Rightarrow> []) evs)"

lemma store_run_append:
  "store_run (xs @ ys) m as m' \<longleftrightarrow> (\<exists>bs cs m1. as = bs @ cs \<and> store_run xs m bs m1 \<and> store_run ys m1 cs m')"
proof (induction xs arbitrary: m as)
  case (Cons op xs)
  then show ?case by (auto; metis append_Cons)
qed simp

lemma map_prod_Some_eq: "map_prod Some id p = (r, s) \<longleftrightarrow> (\<exists>a. p = (a, s) \<and> r = Some a)"
  by (cases p) auto

lemma res_ok_Some: "res_ok x = Some y \<longleftrightarrow> x = Inr y"
  by (cases x) (simp_all add: res_ok_def)

context config_storage
begin

lemma handle_get:
  assumes "parse_request (cj_get_object (cf_json C)) req = Inr k"
    and "handle_acme_storage_get_request C req st = (resp, st')"
  shows "served contents C (GetOp k) st (op_answer C (GetOp k) (Some resp), st')"
proof -
  obtain r s where g: "sg_get (cf_storage C) (namespace_key k (cf_context C)) (cs_store st) = (r, s)" by fastforce
  note defs = served_def store_step_def view_def handle_acme_storage_get_request_def build_success_response_def
    build_bad_request_response_def build_error_response_def object
  show ?thesis
  proof (cases r)
    case (Inr v)
    with get_ok g have "contents (cs_store st) (namespace_key k (cf_context C)) = v" by metis
    with assms g Inr get_same [OF g] show ?thesis by (cases v) (auto simp: defs)
  qed (use assms g get_same [OF g] in \<open>auto simp: defs\<close>)
qed

lemma handle_put:
  assumes "parse_request (cj_put_object (cf_json C)) req = Inr (k, v)"
    and "handle_acme_storage_put_request C req st = (resp, st')"
  shows "served contents C (PutOp k v) st (op_answer C (PutOp k v) (Some resp), st')"
proof -
  obtain r s where g: "sg_put (cf_storage C) (namespace_key k (cf_context C)) v (cs_store st) = (r, s)" by fastforce
  note defs = served_def store_step_def view_def handle_acme_storage_put_request_def build_success_response_def build_error_response_def
  show ?thesis
  proof (cases r)
    case (Inr u)
    with g put_ok have "contents s = (contents (cs_store st))(namespace_key k (cf_context C) \<mapsto> v)" by blast
    with assms g Inr show ?thesis by (auto simp: defs simp del: fun_upd_apply)
  next
    case (Inl e)
    with g put_failed have "contents s = contents (cs_store st)
        \<or> contents s = (contents (cs_store st))(namespace_key k (cf_context C) \<mapsto> v)" by blast
    with assms g Inl show ?thesis by (elim disjE) (auto simp: defs simp del: fun_upd_apply)
  qed
qed

lemma handle_delete:
  assumes "parse_request (cj_delete_object (cf_json C)) req = Inr k"
    and "handle_acme_storage_delete_request C req st = (resp, st')"
  shows "served contents C (DeleteOp k) st (op_answer C (DeleteOp k) (Some resp), st')"
proof -
  obtain r s where g: "sg_delete (cf_storage C) (namespace_key k (cf_context C)) (cs_store st) = (r, s)" by fastforce
  note defs = served_def store_step_def view_def handle_acme_storage_delete_request_def build_success_response_def build_error_response_def
  show ?thesis
  proof (cases r)
    case (Inr u)
    with g delete_ok have "contents s = (contents (cs_store st))(namespace_key k (cf_context C) := None)" by blast
    with assms g Inr show ?thesis by (auto simp: defs simp del: fun_upd_apply)
  next
    case (Inl e)
    with g delete_failed have "contents s = contents (cs_store st)
        \<or> contents s = (contents (cs_store st))(namespace_key k (cf_context C) := None)" by blast
    with assms g Inl show ?thesis by (elim disjE) (auto simp: defs simp del: fun_upd_apply)
  qed
qed

lemma handle_serves:
  assumes "handle_incoming_request C req st = (r, st')" and "request_op C req = Some op"
  shows "served contents C op st (op_answer C op r, st')"
proof -
  have "path_from_str (cq_path req) = Some Storage" using assms(2) by (simp add: request_op_def split: if_splits)
  with assms show ?thesis
    by (auto simp: request_op_def handle_incoming_request_def map_prod_Some_eq res_ok_Some split: if_splits prod.splits
        intro: handle_get handle_put handle_delete)
qed

lemma handle_leaves_storage:
  assumes "handle_incoming_request C req st = (r, st')" and "request_op C req = None"
  shows "cs_store st' = cs_store st"
  using assms
  by (auto simp: handle_incoming_request_def request_op_def handle_post_trx_logs_request_def handle_acme_storage_get_request_def
      handle_acme_storage_put_request_def handle_acme_storage_delete_request_def split: option.splits ConfigServerPath.splits if_splits sum.splits)

text \<open>The calls that have been handled are a run of the abstract store; everything else leaves the storage alone.\<close>

lemma step_serves:
  assumes "listen_step C s e s'"
  shows "store_run (map fst (handled_ops C [e])) (view contents C (cl_state s)) (map snd (handled_ops C [e])) (view contents C (cl_state s'))
    \<and> outside_unchanged (cf_context C) (contents (cs_store (cl_state s))) (contents (cs_store (cl_state s')))"
  using assms
proof cases
  case (handled c req resp st)
  then show ?thesis
    using handle_serves [OF handled(4)] handle_leaves_storage [OF handled(4)]
    by (cases "request_op C req") (auto simp: handled_ops_def served_def view_def)
next
  case (panicked c req st)
  then show ?thesis
    using handle_serves [OF panicked(4)] handle_leaves_storage [OF panicked(4)]
    by (cases "request_op C req") (auto simp: handled_ops_def served_def view_def)
qed (auto simp: handled_ops_def view_def)

lemma listen_serves:
  assumes "listen C st evs s"
  shows "store_run (map fst (handled_ops C evs)) (view contents C st) (map snd (handled_ops C evs)) (view contents C (cl_state s))
    \<and> outside_unchanged (cf_context C) (contents (cs_store st)) (contents (cs_store (cl_state s)))"
  using assms
proof induction
  case (step evs s e s')
  have "handled_ops C (evs @ [e]) = handled_ops C evs @ handled_ops C [e]" by (simp add: handled_ops_def)
  with step.IH step_serves [OF step.hyps(2)] show ?case
    by (auto simp: store_run_append intro: outside_unchanged_trans)
qed (simp add: handled_ops_def config_listener_new_def)

end

section \<open>When a call acts\<close>

fun event_conn :: "listen_event \<Rightarrow> nat option" where
  "event_conn (Accepted c) = Some c"
| "event_conn AcceptError = None"
| "event_conn (Received c _) = Some c"
| "event_conn (Handled c _ _) = Some c"
| "event_conn (Answered c _) = Some c"
| "event_conn (Closed c) = Some c"

definition quiet :: "nat \<Rightarrow> listen_event list \<Rightarrow> bool" where
  "quiet c evs \<longleftrightarrow> list_all (\<lambda>e. event_conn e \<noteq> Some c) evs"

text \<open>The events up to now end with the exchange that the phase of a connection stands for.\<close>

fun phase_history :: "nat \<Rightarrow> conn_phase \<Rightarrow> listen_event list \<Rightarrow> bool" where
  "phase_history c Idle evs = True"
| "phase_history c (Waiting req) evs = (\<exists>a b. evs = a @ Received c req # b \<and> quiet c b)"
| "phase_history c (Answering resp) evs =
     (\<exists>a b d req. evs = a @ Received c req # b @ Handled c req (Some resp) # d \<and> quiet c b \<and> quiet c d)"

lemma quiet_simps [simp]: "quiet c []" "quiet c (e # evs) \<longleftrightarrow> event_conn e \<noteq> Some c \<and> quiet c evs"
  "quiet c (xs @ ys) \<longleftrightarrow> quiet c xs \<and> quiet c ys"
  by (auto simp: quiet_def)

lemma phase_history_other:
  assumes "phase_history c p evs" and "event_conn e \<noteq> Some c"
  shows "phase_history c p (evs @ [e])"
proof (cases p)
  case (Waiting req)
  with assms obtain a b where "evs @ [e] = a @ Received c req # b @ [e]" "quiet c (b @ [e])" by auto
  then show ?thesis unfolding Waiting phase_history.simps by blast
next
  case (Answering resp)
  with assms obtain a b d req where "evs @ [e] = a @ Received c req # b @ Handled c req (Some resp) # d @ [e]"
    "quiet c b" "quiet c (d @ [e])" by auto
  then show ?thesis unfolding Answering phase_history.simps by blast
qed simp

lemma listen_phases: "listen C st evs s \<Longrightarrow> cl_conns s c = Some p \<Longrightarrow> phase_history c p evs"
proof (induction arbitrary: p rule: listen.induct)
  case (step evs s e s')
  show ?case
  proof (cases "event_conn e = Some c")
    case False
    with step.hyps(2) step.prems have "cl_conns s c = Some p" by cases (auto split: if_splits)
    with step.IH False show ?thesis by (simp add: phase_history_other)
  next
    case True
    from step.hyps(2) show ?thesis
    proof cases
      case (received c' req)
      have "phase_history c (Waiting req) (evs @ [Received c req])"
        unfolding phase_history.simps by (intro exI [of _ evs] exI [of _ "[]"]) simp
      with received True step.prems show ?thesis by auto
    next
      case (handled c' req resp st')
      with True step.IH have "phase_history c (Waiting req) evs" by simp
      then obtain a b where "evs = a @ Received c req # b" "quiet c b" by auto
      then have "phase_history c (Answering resp) (evs @ [Handled c req (Some resp)])"
        unfolding phase_history.simps by (intro exI [of _ a] exI [of _ b] exI [of _ "[]"] exI [of _ req]) simp
      with handled True step.prems show ?thesis by auto
    qed (use True step.prems in auto)
  qed
qed (simp add: config_listener_new_def)

lemma answered_after_handled:
  "listen C st evs s \<Longrightarrow> evs = pre @ Answered c resp # post \<Longrightarrow>
   \<exists>a b d req. pre = a @ Received c req # b @ Handled c req (Some resp) # d \<and> quiet c b \<and> quiet c d"
proof (induction arbitrary: post rule: listen.induct)
  case (step evs s e s')
  show ?case
  proof (cases post rule: rev_cases)
    case Nil
    with step.prems have e: "e = Answered c resp" "evs = pre" by simp_all
    with step.hyps(2) have "cl_conns s c = Some (Answering resp)" by (auto elim: Answered_stepE)
    from listen_phases [OF step.hyps(1) this] e show ?thesis by simp
  next
    case (snoc post' e')
    with step.prems step.IH show ?thesis by simp
  qed
qed simp

section \<open>Properties\<close>

text \<open>
  (C6) The configuration server is linearizable: whatever number of connections it serves, however their requests interleave,
  whichever handlers panic and connections break, the storage requests are a run of one map on the enclave's own keys, in the
  order in which they are handled; every answer a connection gets is the answer of the handler for the request it sent last,
  which ran between the arrival of that request and the answer; and no key of another namespace changes.
\<close>

theorem config_server_linearizable:
  assumes "config_messages (cf_json C)" and "object_store (cf_storage C) contents" and "listen C st evs s"
  shows "store_run (map fst (handled_ops C evs)) (view contents C st) (map snd (handled_ops C evs)) (view contents C (cl_state s))
    \<and> (\<forall>pre c resp post. evs = pre @ Answered c resp # post \<longrightarrow>
         (\<exists>a b d req. pre = a @ Received c req # b @ Handled c req (Some resp) # d \<and> quiet c b \<and> quiet c d))
    \<and> outside_unchanged (cf_context C) (contents (cs_store st)) (contents (cs_store (cl_state s)))"
  using config_storage.listen_serves [OF config_storage.intro [OF assms(2,1)] assms(3)] answered_after_handled [OF assms(3)]
  by blast

definition sample_storage_request :: "string \<Rightarrow> ConfigServerPayload \<Rightarrow> cfg_request" where
  "sample_storage_request meth p = \<lparr>cq_method = meth, cq_path = path_to_str Storage, cq_body = Some (cj_to_vec ref_json p)\<rparr>"

definition sample_events :: "listen_event list" where
  "sample_events =
     (let put = sample_storage_request ''PUT'' (PutObjectRequest ''a'' ''1''); get = sample_storage_request ''GET'' (GetObjectRequest ''a'');
          found = build_success_response (Some (cj_to_vec ref_json (GetObjectResponse ''1''))) in
      [Accepted 0, Accepted 1, Received 0 get, Received 1 put, AcceptError, Handled 1 put (Some (build_success_response None)),
       Handled 0 get (Some found), Answered 0 found, Closed 1])"

lemma sample_events_possible:
  "listen_exec sample_config sample_events (config_listener_new \<lparr>cs_store = (9, []), cs_logs = []\<rparr>) \<noteq> None"
  by code_simp

lemma sample_events_ops:
  "handled_ops sample_config sample_events = [(PutOp ''a'' ''1'', Done), (GetOp ''a'', Object (Some ''1''))]"
  by code_simp

theorem config_server_linearizable_witness:
  "\<exists>s. listen sample_config \<lparr>cs_store = (9, []), cs_logs = []\<rparr> sample_events s \<and>
     store_run [PutOp ''a'' ''1'', GetOp ''a''] Map.empty [Done, Object (Some ''1'')] (view alist_contents sample_config (cl_state s))"
proof -
  let ?st = "\<lparr>cs_store = (9, []), cs_logs = []\<rparr>"
  obtain s where s: "listen sample_config ?st sample_events s"
    using sample_events_possible listen_exec_listen [OF _ listen.start] by fastforce
  have v: "view alist_contents sample_config ?st = Map.empty" by (simp add: view_def alist_contents_def)
  have "config_messages (cf_json sample_config)" "object_store (cf_storage sample_config) alist_contents"
    by (simp_all add: sample_config_def ref_cfg.config_messages_axioms alist_st.object_store_axioms)
  from config_server_linearizable [OF this s] s show ?thesis by (auto simp: v sample_events_ops)
qed

end
