(* ===== verification/Base64_Interface.thy ===== *)
theory Base64_Interface
  imports Ciphertext_Parser
begin

text \<open>
  The crate \<open>base64\<close> as far as the mock of E3 relies on it: the locale \<open>base64_codec\<close> states that decoding inverts
  encoding, which characters an encoding has, and how long it is. The instance is the standard alphabet with padding.
\<close>

locale base64_codec =
  fixes encode :: "bytes \<Rightarrow> string" and decode :: "string \<Rightarrow> bytes option"
  assumes decode_encode: "decode (encode b) = Some b"
    and encode_alphabet: "list_all is_base64 (encode b)"
    and encode_length: "length (encode b) = 4 * ((length b + 2) div 3)"
begin

lemma encode_no_colon: "CHR '':'' \<notin> set (encode b)"
  using encode_alphabet [of b] by (auto simp: list_all_iff)

lemma encode_multiple: "length b = 3 * n \<Longrightarrow> length (encode b) = 4 * n"
  using encode_length [of b] by simp

end

section \<open>The standard alphabet\<close>

abbreviation octet :: "char \<Rightarrow> nat" where
  "octet c \<equiv> of_char c"

definition b64_char :: "nat \<Rightarrow> char" where
  "b64_char n =
     (if n < 26 then char_of (65 + n) else if n < 52 then char_of (71 + n) else if n < 62 then char_of (n - 4)
      else if n = 62 then CHR ''+'' else CHR ''/'')"

definition b64_value :: "char \<Rightarrow> nat option" where
  "b64_value c =
     (if 65 \<le> octet c \<and> octet c \<le> 90 then Some (octet c - 65)
      else if 97 \<le> octet c \<and> octet c \<le> 122 then Some (octet c - 71)
      else if 48 \<le> octet c \<and> octet c \<le> 57 then Some (octet c + 4)
      else if c = CHR ''+'' then Some 62 else if c = CHR ''/'' then Some 63 else None)"

fun b64_encode :: "bytes \<Rightarrow> string" where
  "b64_encode [] = []"
| "b64_encode [a] = [b64_char (octet a div 4), b64_char (octet a mod 4 * 16), CHR ''='', CHR ''='']"
| "b64_encode [a, b] =
     [b64_char (octet a div 4), b64_char (octet a mod 4 * 16 + octet b div 16), b64_char (octet b mod 16 * 4), CHR ''='']"
| "b64_encode (a # b # c # r) =
     b64_char (octet a div 4) # b64_char (octet a mod 4 * 16 + octet b div 16)
     # b64_char (octet b mod 16 * 4 + octet c div 64) # b64_char (octet c mod 64) # b64_encode r"

text \<open>The bits that padding leaves over are zero.\<close>

fun b64_decode :: "string \<Rightarrow> bytes option" where
  "b64_decode [] = Some []"
| "b64_decode (p # q # r # s # t) =
     (case (b64_value p, b64_value q) of
        (Some w, Some x) \<Rightarrow>
          if s = CHR ''='' then
            (if t \<noteq> [] then None
             else if r = CHR ''='' then (if x mod 16 = 0 then Some [char_of (w * 4 + x div 16)] else None)
             else (case b64_value r of
                     None \<Rightarrow> None
                   | Some y \<Rightarrow> if y mod 4 = 0 then Some [char_of (w * 4 + x div 16), char_of (x mod 16 * 16 + y div 4)] else None))
          else (case (b64_value r, b64_value s, b64_decode t) of
                  (Some y, Some z, Some bs) \<Rightarrow>
                    Some (char_of (w * 4 + x div 16) # char_of (x mod 16 * 16 + y div 4) # char_of (y mod 4 * 64 + z) # bs)
                | _ \<Rightarrow> None)
      | _ \<Rightarrow> None)"
| "b64_decode _ = None"

lemma code_less: "octet c < 256"
  using nat_of_char_less_256 by simp

lemma b64_value_char: "n < 64 \<Longrightarrow> b64_value (b64_char n) = Some n"
  by (auto simp: b64_value_def b64_char_def of_char_of)

lemma b64_char_alphabet: "n < 64 \<Longrightarrow> is_base64 (b64_char n)"
  by (auto simp: b64_char_def is_base64_def is_ascii_alphanumeric_def byte_in_def of_char_of Let_def)

lemma b64_char_not_pad: "n < 64 \<Longrightarrow> b64_char n \<noteq> CHR ''=''"
  using b64_value_char [of n] by (auto simp: b64_value_def)

lemma sextets:
  "octet a div 4 < 64" "octet a mod 4 * 16 + octet b div 16 < 64" "octet b mod 16 * 4 + octet c div 64 < 64"
  "octet a mod 4 * 16 < 64" "octet b mod 16 * 4 < 64" "octet c mod 64 < 64"
proof -
  have "octet a < 256" "octet b < 256" "octet c < 256" by (rule code_less)+
  then have "octet a div 4 < 64" "octet b div 16 < 16" "octet c div 64 < 4" by (simp_all add: div_less_iff_less_mult)
  moreover have "octet a mod 4 < 4" "octet b mod 16 < 16" by simp_all
  ultimately show "octet a div 4 < 64" "octet a mod 4 * 16 + octet b div 16 < 64" "octet b mod 16 * 4 + octet c div 64 < 64"
    "octet a mod 4 * 16 < 64" "octet b mod 16 * 4 < 64" "octet c mod 64 < 64" by simp_all
qed

text \<open>Putting the bits together again.\<close>

lemma joined:
  "octet a div 4 * 4 + (octet a mod 4 * 16 + octet b div 16) div 16 = octet a"
  "(octet a mod 4 * 16 + octet b div 16) mod 16 * 16 + (octet b mod 16 * 4 + octet c div 64) div 4 = octet b"
  "(octet b mod 16 * 4 + octet c div 64) mod 4 * 64 + octet c mod 64 = octet c"
  "octet a div 4 * 4 + octet a mod 4 * 16 div 16 = octet a"
  "(octet a mod 4 * 16 + octet b div 16) mod 16 * 16 + octet b mod 16 * 4 div 4 = octet b"
proof -
  have "octet b div 16 < 16" "octet c div 64 < 4" using code_less [of b] code_less [of c] by (simp_all add: div_less_iff_less_mult)
  then show "octet a div 4 * 4 + (octet a mod 4 * 16 + octet b div 16) div 16 = octet a"
    "(octet a mod 4 * 16 + octet b div 16) mod 16 * 16 + (octet b mod 16 * 4 + octet c div 64) div 4 = octet b"
    "(octet b mod 16 * 4 + octet c div 64) mod 4 * 64 + octet c mod 64 = octet c"
    "octet a div 4 * 4 + octet a mod 4 * 16 div 16 = octet a"
    "(octet a mod 4 * 16 + octet b div 16) mod 16 * 16 + octet b mod 16 * 4 div 4 = octet b"
    by (simp_all add: mult.commute [of _ 16] mult.commute [of _ 4] mult.commute [of _ 64])
qed

interpretation b64: base64_codec b64_encode b64_decode
proof (unfold_locales, goal_cases)
  case (1 b)
  show ?case
  proof (induction b rule: b64_encode.induct)
    case (2 a)
    then show ?case using joined(4) [of a] by (simp add: b64_value_char sextets)
  next
    case (3 a b)
    then show ?case using joined(1) [of a b] joined(5) [of a b] by (simp add: b64_value_char sextets b64_char_not_pad)
  next
    case (4 a b c r)
    then show ?case using joined(1) [of a b] joined(2) [of a b c] joined(3) [of b c] by (simp add: b64_value_char sextets b64_char_not_pad)
  qed simp
next
  case (2 b)
  have "is_base64 (CHR ''='')" by (simp add: is_base64_def)
  then show ?case by (induction b rule: b64_encode.induct) (simp_all add: b64_char_alphabet sextets)
next
  case (3 b)
  show ?case by (induction b rule: b64_encode.induct) (simp_all, presburger)
qed

end
