(* ===== verification/Mock_Crypto.thy ===== *)
theory Mock_Crypto
  imports Base64_Interface Http_Types
begin

text \<open>
  The mock of E3 that the end-to-end tests run beside the enclave (\<open>e2e-tests/mock-crypto/src\<close>): the ciphertexts
  of \<open>encrypt_mock.rs\<close> and the routes of \<open>main.rs\<close> that encrypt and decrypt every leaf of a JSON value. JSON text
  (\<open>serde_json\<close>), base64, the random generator and the extraction of a JSON body (\<open>axum\<close>) are parameters; the
  locale \<open>mock_crypto\<close> extends the interface of base64 with what the mock relies on. The generator is a state
  that each call of \<open>fill_bytes\<close> advances, so the leaves draw from it in the order of the code. A panic
  (\<open>unimplemented!\<close>, \<open>unwrap\<close>, \<open>expect\<close>) is \<open>None\<close>. The lemmas show that the enclave's own parser reads every ciphertext
  the mock makes and finds the type of the leaf in it, and what comes back from a decryption.
\<close>

section \<open>JSON values\<close>

text \<open>\<open>serde_json::Value\<close>; the numbers are an abstract type, an object lists its members.\<close>

datatype 'n json =
    JNull
  | JBool bool
  | JNumber 'n
  | JString string
  | JArray "'n json list"
  | JObject "(string \<times> 'n json) list"

record ('n, 'g) mock_lib =
  ml_encode :: "bytes \<Rightarrow> string"
  ml_decode :: "string \<Rightarrow> bytes option"
  ml_to_string :: "'n json \<Rightarrow> string"
  ml_from_str :: "string \<Rightarrow> 'n json option"
  ml_fill_bytes :: "nat \<Rightarrow> 'g \<Rightarrow> bytes \<times> 'g"

section \<open>Ciphertexts\<close>

datatype MockCryptoError = McSerdeError | InvalidCipher

definition convert_value_to_string :: "('n, 'g) mock_lib \<Rightarrow> 'n json \<Rightarrow> string" where
  "convert_value_to_string L v = (case v of JString s \<Rightarrow> s | _ \<Rightarrow> ml_to_string L v)"

text \<open>The outer \<open>option\<close> is the \<open>unimplemented!\<close>.\<close>

definition get_string_repr_for_serde_value :: "'n json \<Rightarrow> string option option" where
  "get_string_repr_for_serde_value val =
     (case val of
        JString _ \<Rightarrow> Some None
      | JNumber _ \<Rightarrow> Some (Some ''number'')
      | JBool _ \<Rightarrow> Some (Some ''boolean'')
      | _ \<Rightarrow> None)"

definition mock_iv :: "('n, 'g) mock_lib \<Rightarrow> 'g \<Rightarrow> string \<times> 'g" where
  "mock_iv L g = map_prod (ml_encode L) id (ml_fill_bytes L 12 g)"

definition mock_pub_key :: "('n, 'g) mock_lib \<Rightarrow> 'g \<Rightarrow> string \<times> 'g" where
  "mock_pub_key L g = map_prod (ml_encode L) id (ml_fill_bytes L 33 g)"

definition encrypted_value_fmt :: "('n, 'g) mock_lib \<Rightarrow> 'n json \<Rightarrow> 'g \<Rightarrow> (string \<times> 'g) option" where
  "encrypted_value_fmt L v g =
     (let val_str = convert_value_to_string L v;
          encoded_val = ml_encode L val_str in
      case get_string_repr_for_serde_value v of
        None \<Rightarrow> None
      | Some repr \<Rightarrow>
         (case mock_iv L g of (iv, g1) \<Rightarrow>
          case mock_pub_key L g1 of (pub_key, g2) \<Rightarrow>
            (case repr of
               Some val \<Rightarrow> Some (''ev:'' @ val @ '':'' @ iv @ '':'' @ pub_key @ '':'' @ encoded_val @ '':$'', g2)
             | None \<Rightarrow> Some (''ev:'' @ iv @ '':'' @ pub_key @ '':'' @ encoded_val @ '':$'', g2))))"

text \<open>\<open>TryFrom<String>\<close>; the outer \<open>option\<close> is the \<open>unwrap\<close> of the second last token.\<close>

definition encrypted_value_try_from :: "('n, 'g) mock_lib \<Rightarrow> string \<Rightarrow> (MockCryptoError, 'n json) result option" where
  "encrypted_value_try_from L val =
     (if \<not> prefix ''ev:'' val \<or> \<not> suffix '':$'' val then Some (Inl InvalidCipher)
      else (case rev (split_on CHR '':'' val) of
              _ # token # _ \<Rightarrow>
                Some (try_bind (ok_or InvalidCipher (ml_decode L token)) (\<lambda>decoded_val.
                      try_bind (ok_or InvalidCipher (from_utf8 decoded_val)) (\<lambda>decoded_str.
                        Inr (case ml_from_str L decoded_str of Some parsed_val \<Rightarrow> parsed_val | None \<Rightarrow> JString decoded_str))))
            | _ \<Rightarrow> None))"

definition mock_encrypt :: "('n, 'g) mock_lib \<Rightarrow> 'n json \<Rightarrow> 'g \<Rightarrow> ('n json \<times> 'g) option" where
  "mock_encrypt L v g = map_option (map_prod JString id) (encrypted_value_fmt L v g)"

definition mock_decrypt :: "('n, 'g) mock_lib \<Rightarrow> string \<Rightarrow> (MockCryptoError, 'n json) result option" where
  "mock_decrypt L v = encrypted_value_try_from L v"

section \<open>Every leaf of a value\<close>

function encrypt_value :: "('n, 'g) mock_lib \<Rightarrow> 'n json \<Rightarrow> 'g \<Rightarrow> ('n json \<times> 'g) option"
  and encrypt_elements :: "('n, 'g) mock_lib \<Rightarrow> 'n json list \<Rightarrow> 'g \<Rightarrow> ('n json list \<times> 'g) option"
  and encrypt_members :: "('n, 'g) mock_lib \<Rightarrow> (string \<times> 'n json) list \<Rightarrow> 'g \<Rightarrow> ((string \<times> 'n json) list \<times> 'g) option" where
  "encrypt_value L v g =
     (case v of
        JObject ms \<Rightarrow> map_option (map_prod JObject id) (encrypt_members L ms g)
      | JArray vs \<Rightarrow> map_option (map_prod JArray id) (encrypt_elements L vs g)
      | _ \<Rightarrow> mock_encrypt L v g)"
| "encrypt_elements L [] g = Some ([], g)"
| "encrypt_elements L (v # vs) g =
     Option.bind (encrypt_value L v g) (\<lambda>(e, g1). map_option (map_prod (Cons e) id) (encrypt_elements L vs g1))"
| "encrypt_members L [] g = Some ([], g)"
| "encrypt_members L ((k, v) # ms) g =
     Option.bind (encrypt_value L v g) (\<lambda>(e, g1). map_option (map_prod (Cons (k, e)) id) (encrypt_members L ms g1))"
  by pat_completeness auto
termination
  by (relation "measure (\<lambda>x. case x of
        Inl (_, v, _) \<Rightarrow> 2 * size v + 1
      | Inr (Inl (_, vs, _)) \<Rightarrow> 2 * size_list size vs
      | Inr (Inr (_, ms, _)) \<Rightarrow> 2 * size_list (size_prod (\<lambda>_. 0) size) ms)") auto

function decrypt_value :: "('n, 'g) mock_lib \<Rightarrow> 'n json \<Rightarrow> 'n json option"
  and decrypt_elements :: "('n, 'g) mock_lib \<Rightarrow> 'n json list \<Rightarrow> 'n json list option"
  and decrypt_members :: "('n, 'g) mock_lib \<Rightarrow> (string \<times> 'n json) list \<Rightarrow> (string \<times> 'n json) list option" where
  "decrypt_value L v =
     (case v of
        JObject ms \<Rightarrow> map_option JObject (decrypt_members L ms)
      | JArray vs \<Rightarrow> map_option JArray (decrypt_elements L vs)
      | JString _ \<Rightarrow>
          map_option (\<lambda>r. case r of Inr decrypted \<Rightarrow> decrypted | Inl e \<Rightarrow> v) (mock_decrypt L (convert_value_to_string L v))
      | _ \<Rightarrow> Some v)"
| "decrypt_elements L [] = Some []"
| "decrypt_elements L (v # vs) =
     Option.bind (decrypt_value L v) (\<lambda>d. map_option (Cons d) (decrypt_elements L vs))"
| "decrypt_members L [] = Some []"
| "decrypt_members L ((k, v) # ms) =
     Option.bind (decrypt_value L v) (\<lambda>d. map_option (Cons (k, d)) (decrypt_members L ms))"
  by pat_completeness auto
termination
  by (relation "measure (\<lambda>x. case x of
        Inl (_, v) \<Rightarrow> 2 * size v + 1
      | Inr (Inl (_, vs)) \<Rightarrow> 2 * size_list size vs
      | Inr (Inr (_, ms)) \<Rightarrow> 2 * size_list (size_prod (\<lambda>_. 0) size) ms)") auto

declare encrypt_value.simps [simp del] decrypt_value.simps [simp del]

lemma encrypt_value_simps [simp]:
  "encrypt_value L (JObject ms) g = map_option (map_prod JObject id) (encrypt_members L ms g)"
  "encrypt_value L (JArray vs) g = map_option (map_prod JArray id) (encrypt_elements L vs g)"
  "encrypt_value L JNull g = mock_encrypt L JNull g" "encrypt_value L (JBool b) g = mock_encrypt L (JBool b) g"
  "encrypt_value L (JNumber n) g = mock_encrypt L (JNumber n) g" "encrypt_value L (JString s) g = mock_encrypt L (JString s) g"
  by (simp_all add: encrypt_value.simps)

lemma decrypt_value_simps [simp]:
  "decrypt_value L (JObject ms) = map_option JObject (decrypt_members L ms)"
  "decrypt_value L (JArray vs) = map_option JArray (decrypt_elements L vs)"
  "decrypt_value L (JString s) = map_option (\<lambda>r. case r of Inr decrypted \<Rightarrow> decrypted | Inl e \<Rightarrow> JString s) (mock_decrypt L s)"
  by (simp_all add: decrypt_value.simps convert_value_to_string_def)

section \<open>Routes\<close>

text \<open>
  What \<open>axum\<close> makes of a body before a handler runs is a parameter: the JSON value, the \<open>data\<close> of a \<open>RequestPayload\<close>,
  or the response that rejects the request. A response is its status and body.
\<close>

record ('h, 'n, 'g) mock_server =
  ms_lib :: "('n, 'g) mock_lib"
  ms_headers :: "'h headers_api"
  ms_json :: "('h, unit) http_request \<Rightarrow> (nat \<times> bytes, 'n json) result"
  ms_payload :: "('h, unit) http_request \<Rightarrow> (nat \<times> bytes, 'n json) result"

definition encryption_handler :: "('h, 'n, 'g) mock_server \<Rightarrow> ('h, unit) http_request \<Rightarrow> 'g \<Rightarrow> ((nat \<times> bytes) \<times> 'g) option" where
  "encryption_handler S req g =
     (case ms_payload S req of
        Inl rejection \<Rightarrow> Some (rejection, g)
      | Inr data \<Rightarrow>
          map_option (map_prod (\<lambda>e. (200, ml_to_string (ms_lib S) (JObject [(''data'', e)]))) id) (encrypt_value (ms_lib S) data g))"

definition decryption_handler :: "('h, 'n, 'g) mock_server \<Rightarrow> ('h, unit) http_request \<Rightarrow> (nat \<times> bytes) option" where
  "decryption_handler S req =
     (case ms_json S req of
        Inl rejection \<Rightarrow> Some rejection
      | Inr payload \<Rightarrow> map_option (\<lambda>d. (200, ml_to_string (ms_lib S) d)) (decrypt_value (ms_lib S) payload))"

definition MOCK_API_KEY :: string where
  "MOCK_API_KEY = ''e0hrSRE7NYXmyoG7aAlRbu/Vgly7ak/4dkqCnB044+VH+xuJkMwiIGt2C4xBQ82um7AwsOX/rvytn4Hlb6izsw==''"

definition authentication_handler :: "'h headers_api \<Rightarrow> 'h \<Rightarrow> nat option" where
  "authentication_handler H headers =
     (case hm_get H headers ''api-key'' of
        Some key \<Rightarrow> map_option (\<lambda>k. if k = MOCK_API_KEY then 200 else 401) (header_to_str H key)
      | None \<Rightarrow> Some 401)"

definition get_router :: "('h, 'n, 'g) mock_server \<Rightarrow> ('h, unit) http_request \<Rightarrow> 'g \<Rightarrow> ((nat \<times> bytes) \<times> 'g) option" where
  "get_router S req g =
     (if rq_path req \<notin> {''/encrypt'', ''/decrypt'', ''/authenticate''} then Some ((404, []), g)
      else if rq_method req \<noteq> ''POST'' then Some ((405, []), g)
      else if rq_path req = ''/encrypt'' then encryption_handler S req g
      else if rq_path req = ''/decrypt'' then map_option (\<lambda>r. (r, g)) (decryption_handler S req)
      else map_option (\<lambda>status. ((status, []), g)) (authentication_handler (ms_headers S) (rq_headers req)))"

text \<open>
  The two servers: what they bind, or a panic. The variables, the PEM parser, the check of the key against the chain and
  the sockets are arguments; \<open>join!\<close> starts the HTTPS server first, in the same task.
\<close>

record mock_env =
  me_var :: "string \<Rightarrow> string option"
  me_certs :: "bytes \<Rightarrow> bytes list option"
  me_pkcs8_private_keys :: "bytes \<Rightarrow> bytes list option"
  me_single_cert :: "bytes list \<Rightarrow> bytes \<Rightarrow> bool"
  me_bind :: "nat \<Rightarrow> bool"

datatype mock_listener = Https nat "bytes list" bytes | Http nat

definition run_https_server :: "mock_env \<Rightarrow> nat \<Rightarrow> mock_listener option" where
  "run_https_server E port =
     Option.bind (me_var E ''MOCK_CRYPTO_KEY'') (\<lambda>tls_key.
     Option.bind (me_var E ''MOCK_CRYPTO_CERT'') (\<lambda>tls_cert.
     Option.bind (me_certs E tls_cert) (\<lambda>cert_chain.
     Option.bind (me_pkcs8_private_keys E tls_key) (\<lambda>keys.
       case keys of
         [] \<Rightarrow> None
       | key # _ \<Rightarrow>
           if me_single_cert E cert_chain key \<and> me_bind E port then Some (Https port cert_chain key) else None))))"

definition run_http_server :: "mock_env \<Rightarrow> nat \<Rightarrow> mock_listener option" where
  "run_http_server E port = (if me_bind E port then Some (Http port) else None)"

definition mock_main :: "mock_env \<Rightarrow> mock_listener list option" where
  "mock_main E =
     Option.bind (run_https_server E 7676) (\<lambda>https. map_option (\<lambda>http. [https, http]) (run_http_server E 7677))"

section \<open>What a value is and what comes back\<close>

fun json_leaves :: "'n json \<Rightarrow> 'n json list" where
  "json_leaves (JArray vs) = concat (map json_leaves vs)"
| "json_leaves (JObject ms) = concat (map (\<lambda>(k, v). json_leaves v) ms)"
| "json_leaves v = [v]"

fun json_map :: "('n json \<Rightarrow> 'n json) \<Rightarrow> 'n json \<Rightarrow> 'n json" where
  "json_map f (JArray vs) = JArray (map (json_map f) vs)"
| "json_map f (JObject ms) = JObject (map (\<lambda>(k, v). (k, json_map f v)) ms)"
| "json_map f v = f v"

fun leaf_type :: "'n json \<Rightarrow> Datatype option" where
  "leaf_type (JNumber _) = Some Number"
| "leaf_type (JBool _) = Some Boolean"
| "leaf_type _ = None"

text \<open>A string is read as JSON on its way back.\<close>

definition read_back :: "('n, 'g) mock_lib \<Rightarrow> 'n json \<Rightarrow> 'n json" where
  "read_back L v = (case v of JString s \<Rightarrow> (case ml_from_str L s of Some p \<Rightarrow> p | None \<Rightarrow> v) | _ \<Rightarrow> v)"

fun leaf_ok :: "('n \<Rightarrow> bool) \<Rightarrow> 'n json \<Rightarrow> bool" where
  "leaf_ok exact (JString s) = utf8_valid s"
| "leaf_ok exact (JNumber n) = exact n"
| "leaf_ok exact _ = True"

definition mock_ciphertext :: "('n, 'g) mock_lib \<Rightarrow> 'n json \<Rightarrow> 'g \<Rightarrow> Ciphertext" where
  "mock_ciphertext L v g =
     \<lparr>ct_debug = False, ct_version = None, ct_datatype = leaf_type v, ct_iv = fst (mock_iv L g),
      ct_public_key = fst (mock_pub_key L (snd (mock_iv L g))), ct_encrypted_value = ml_encode L (convert_value_to_string L v),
      ct_has_leading_quote = False, ct_has_trailing_quote = False\<rparr>"

text \<open>A ciphertext of the mock for a leaf: in the format of the enclave, with the type and the text of the leaf.\<close>

definition encrypts :: "('n, 'g) mock_lib \<Rightarrow> 'n json \<Rightarrow> 'n json \<Rightarrow> bool" where
  "encrypts L v e \<longleftrightarrow>
     (\<exists>c. e = JString (ct_encode c) \<and> wf_ciphertext c \<and> \<not> ct_has_leading_quote c \<and> \<not> ct_has_trailing_quote c
        \<and> ct_datatype c = leaf_type v \<and> ct_encrypted_value c = ml_encode L (convert_value_to_string L v))"

lemma split_on_middle: "split_on c (x @ c # y) = split_on c x @ split_on c y"
proof (induction x)
  case (Cons a x)
  then show ?case by (cases "split_on c x") (simp_all add: split_on_not_Nil)
qed simp

lemma second_last_token:
  "CHR '':'' \<notin> set y \<Longrightarrow> rev (split_on CHR '':'' (x @ '':'' @ y @ '':$'')) = ''$'' # y # rev (split_on CHR '':'' x)"
  using split_on_middle [of "CHR '':''" x "y @ '':$''"] split_on_append_sep [of "CHR '':''" y "''$''"] by simp

text \<open>The token exists whenever the text has the prefix, so nothing panics on the way back.\<close>

lemma try_from_total: "encrypted_value_try_from L val \<noteq> None"
proof (cases "prefix ''ev:'' val")
  case True
  then obtain r where "val = ''ev'' @ CHR '':'' # r" by (auto simp: prefix_def)
  then have "rev (split_on CHR '':'' val) = rev (split_on CHR '':'' r) @ [''ev'']"
    by (simp add: split_on_append_sep del: append.simps)
  moreover obtain a as where "rev (split_on CHR '':'' r) = a # as" by (cases "rev (split_on CHR '':'' r)") auto
  ultimately show ?thesis by (cases as) (simp_all add: encrypted_value_try_from_def)
qed (simp add: encrypted_value_try_from_def)

locale mock_crypto = base64_codec "ml_encode L" "ml_decode L" for L :: "('n, 'g) mock_lib" +
  fixes exact :: "'n \<Rightarrow> bool"
  assumes fill_length: "length (fst (ml_fill_bytes L k g)) = k"
    and print_utf8: "leaf_type v \<noteq> None \<Longrightarrow> utf8_valid (ml_to_string L v)"
    and read_bool: "ml_from_str L (ml_to_string L (JBool b)) = Some (JBool b)"
    and read_number: "exact n \<Longrightarrow> ml_from_str L (ml_to_string L (JNumber n)) = Some (JNumber n)"
begin

abbreviation encrypts_all :: "'n json list \<Rightarrow> 'n json list \<Rightarrow> bool" where
  "encrypts_all vs es \<equiv> list_all2 (encrypts L) (concat (map json_leaves vs)) (concat (map json_leaves es))"

lemma mock_ciphertext_wf: "wf_ciphertext (mock_ciphertext L v g)"
  by (simp add: wf_ciphertext_def mock_ciphertext_def mock_iv_def mock_pub_key_def encode_alphabet encode_length fill_length)

lemma fmt_is_format:
  assumes "get_string_repr_for_serde_value v \<noteq> None"
  shows "encrypted_value_fmt L v g = Some (ct_encode (mock_ciphertext L v g), snd (mock_pub_key L (snd (mock_iv L g))))"
  using assms
  by (auto simp: encrypted_value_fmt_def get_string_repr_for_serde_value_def ct_encode_def mock_ciphertext_def enc_debug_def
      enc_version_def enc_datatype_def Let_def split: json.splits prod.splits)

lemma try_from_format:
  assumes "CHR '':'' \<notin> set (ct_encrypted_value c)"
  shows "rev (split_on CHR '':'' (ct_encode c)) = ''$'' # ct_encrypted_value c # rev (split_on CHR '':''
      (''ev:'' @ enc_debug (ct_debug c) @ enc_version (ct_version c) @ enc_datatype (ct_datatype c) @ ct_iv c @ '':'' @ ct_public_key c))"
  using second_last_token [OF assms, of "''ev:'' @ enc_debug (ct_debug c) @ enc_version (ct_version c)
      @ enc_datatype (ct_datatype c) @ ct_iv c @ '':'' @ ct_public_key c"] by (simp add: ct_encode_def)

lemma encrypts_decrypt:
  assumes "encrypts L v e" and "leaf_ok exact v" and "get_string_repr_for_serde_value v \<noteq> None"
  shows "decrypt_value L e = Some (read_back L v)"
proof -
  from assms(1) obtain c where c: "e = JString (ct_encode c)" "ct_encrypted_value c = ml_encode L (convert_value_to_string L v)"
    by (auto simp: encrypts_def)
  have "utf8_valid (convert_value_to_string L v)"
    using assms(2,3) by (cases v) (simp_all add: convert_value_to_string_def print_utf8 get_string_repr_for_serde_value_def)
  moreover have "prefix ''ev:'' (ct_encode c)" "suffix '':$'' (ct_encode c)"
    by (simp_all add: ct_encode_def suffix_def)
  ultimately have "mock_decrypt L (ct_encode c) =
      Some (Inr (case ml_from_str L (convert_value_to_string L v) of Some p \<Rightarrow> p | None \<Rightarrow> JString (convert_value_to_string L v)))"
    by (simp add: mock_decrypt_def encrypted_value_try_from_def try_from_format c encode_no_colon decode_encode from_utf8_def)
  then show ?thesis
    using assms(2,3) read_bool read_number
    by (cases v) (simp_all add: c(1) convert_value_to_string_def read_back_def
        get_string_repr_for_serde_value_def split: option.splits)
qed

text \<open>A leaf that is not null is encrypted to a ciphertext of its type, null panics.\<close>

lemma mock_encrypt_leaf:
  assumes "get_string_repr_for_serde_value v \<noteq> None"
  obtains e g' where "mock_encrypt L v g = Some (e, g')" "encrypts L v e" "json_leaves e = [e]"
proof -
  have "encrypts L v (JString (ct_encode (mock_ciphertext L v g)))"
    using mock_ciphertext_wf [of v g] by (auto simp: encrypts_def mock_ciphertext_def)
  with that show ?thesis by (simp add: mock_encrypt_def fmt_is_format [OF assms])
qed

lemma mock_encrypt_cases:
  "get_string_repr_for_serde_value v = None \<Longrightarrow> mock_encrypt L v g = None"
  by (simp add: mock_encrypt_def encrypted_value_fmt_def Let_def)

end

text \<open>The three traversals at once: the result has the shape of the value, null is the only panic.\<close>

definition member_leaves :: "(string \<times> 'n json) list \<Rightarrow> 'n json list" where
  "member_leaves ms = concat (map (\<lambda>(k, v). json_leaves v) ms)"

lemma member_leaves_simps [simp]: "member_leaves [] = []" "member_leaves ((k, v) # ms) = json_leaves v @ member_leaves ms"
  by (simp_all add: member_leaves_def)

definition back_again :: "('n, 'g) mock_lib \<Rightarrow> ('n \<Rightarrow> bool) \<Rightarrow> 'n json list \<Rightarrow> 'n json list \<Rightarrow> bool \<Rightarrow> bool" where
  "back_again L exact vs es ok \<longleftrightarrow>
     JNull \<notin> set vs \<and> list_all2 (encrypts L) vs es \<and> (list_all (leaf_ok exact) vs \<longrightarrow> ok)"

lemma back_again_append:
  "back_again L exact vs es ok \<Longrightarrow> back_again L exact vs' es' ok' \<Longrightarrow> back_again L exact (vs @ vs') (es @ es') (ok \<and> ok')"
  by (auto simp: back_again_def list_all2_appendI)

lemma encrypt_decrypt_tree:
  "mock_crypto L exact \<Longrightarrow>
   (case encrypt_value L v g of
      None \<Rightarrow> JNull \<in> set (json_leaves v)
    | Some (e, _) \<Rightarrow>
        back_again L exact (json_leaves v) (json_leaves e) (decrypt_value L e = Some (json_map (read_back L) v)))"
  "mock_crypto L exact \<Longrightarrow>
   (case encrypt_elements L vs g of
      None \<Rightarrow> JNull \<in> set (concat (map json_leaves vs))
    | Some (es, _) \<Rightarrow>
        back_again L exact (concat (map json_leaves vs)) (concat (map json_leaves es))
          (decrypt_elements L es = Some (map (json_map (read_back L)) vs)))"
  "mock_crypto L exact \<Longrightarrow>
   (case encrypt_members L ms g of
      None \<Rightarrow> JNull \<in> set (member_leaves ms)
    | Some (es, _) \<Rightarrow>
        back_again L exact (member_leaves ms) (member_leaves es)
          (decrypt_members L es = Some (map (\<lambda>(k, v). (k, json_map (read_back L) v)) ms)))"
proof (induction L v g and L vs g and L ms g rule: encrypt_value_encrypt_elements_encrypt_members.induct)
  case (1 L v g)
  show ?case
  proof (cases "get_string_repr_for_serde_value v")
    case None
    with 1 show ?thesis
      by (cases v) (auto simp: get_string_repr_for_serde_value_def back_again_def
          member_leaves_def mock_crypto.mock_encrypt_cases [OF 1(3)] split: option.splits)
  next
    case (Some r)
    then obtain e g' where e: "mock_encrypt L v g = Some (e, g')" "encrypts L v e" "json_leaves e = [e]"
      using mock_crypto.mock_encrypt_leaf [OF 1(3)] by blast
    have "encrypt_value L v g = Some (e, g')" "json_leaves v = [v]" "json_map (read_back L) v = read_back L v" "v \<noteq> JNull"
      using Some e(1) by (cases v; simp add: get_string_repr_for_serde_value_def)+
    with e Some mock_crypto.encrypts_decrypt [OF 1(3) e(2)] show ?thesis by (auto simp: back_again_def)
  qed
next
  case (3 L v vs g)
  show ?case
  proof (cases "encrypt_value L v g")
    case (Some p)
    then show ?thesis
      using 3(1) [OF 3(3)] 3(2) [OF Some prod.collapse 3(3)]
      by (auto simp: bind_eq_Some_conv split: option.splits prod.splits dest: back_again_append)
  qed (use 3(1) [OF 3(3)] in simp)
next
  case (5 L k v ms g)
  show ?case
  proof (cases "encrypt_value L v g")
    case (Some p)
    then show ?thesis
      using 5(1) [OF 5(3)] 5(2) [OF Some prod.collapse 5(3)]
      by (auto simp: bind_eq_Some_conv split: option.splits prod.splits dest: back_again_append)
  qed (use 5(1) [OF 5(3)] in simp)
qed (simp_all add: back_again_def)

section \<open>A concrete library\<close>

text \<open>The standard base64, numbers in decimal, literals read back as JSON, and a generator that counts.\<close>

fun json_print :: "nat json \<Rightarrow> string" where
  "json_print JNull = ''null''"
| "json_print (JBool b) = (if b then ''true'' else ''false'')"
| "json_print (JNumber n) = show_nat n"
| "json_print (JString s) = [CHR 0x22] @ s @ [CHR 0x22]"
| "json_print (JArray vs) = ''['' @ join_with '','' (map json_print vs) @ '']''"
| "json_print (JObject ms) = ''{'' @ join_with '','' (map (\<lambda>(k, v). [CHR 0x22] @ k @ [CHR 0x22] @ '':'' @ json_print v) ms) @ ''}''"

definition json_read :: "string \<Rightarrow> nat json option" where
  "json_read s =
     (if s = ''null'' then Some JNull else if s = ''true'' then Some (JBool True) else if s = ''false'' then Some (JBool False)
      else map_option JNumber (parse_u64 s))"

definition counting_lib :: "(nat, nat) mock_lib" where
  "counting_lib =
     \<lparr>ml_encode = b64_encode, ml_decode = b64_decode, ml_to_string = json_print, ml_from_str = json_read,
      ml_fill_bytes = (\<lambda>k g. (replicate k (char_of g), Suc g))\<rparr>"

lemma show_nat_utf8: "utf8_valid (show_nat n)"
proof -
  have "byte_in 0 127 c" if "is_ascii_digit c" for c using that by (simp add: is_ascii_digit_def byte_in_def)
  then show ?thesis using digits_show_nat [of n] by (auto simp: list_all_iff intro!: utf8_valid_ascii)
qed

lemma show_nat_no_literal: "show_nat n \<notin> {''null'', ''true'', ''false''}"
  using show_nat_digit [of _ n] by fastforce

lemma bool_print_utf8: "utf8_valid (json_print (JBool b))"
  by (cases b) (simp_all add: utf8_valid_ascii byte_in_def)

interpretation counting: mock_crypto counting_lib "\<lambda>n. n < 2 ^ 64"
proof (unfold_locales, goal_cases)
  case (5 v)
  then show ?case by (cases v) (simp_all add: counting_lib_def show_nat_utf8 bool_print_utf8 del: json_print.simps(2))
next
  case (6 b)
  then show ?case by (cases b) (simp_all add: counting_lib_def json_read_def)
next
  case (7 n)
  then show ?case using show_nat_no_literal [of n] by (simp add: counting_lib_def json_read_def parse_show_nat)
qed (simp_all add: counting_lib_def b64.decode_encode b64.encode_alphabet b64.encode_length)

section \<open>Properties\<close>

text \<open>
  (C26) The ciphertexts of the mock are well typed for the enclave: the encryption of a JSON value replaces its leaves, in order,
  by strings, and the enclave's parser reads each of them completely, whatever follows it, with the data type of the leaf it
  stands for (none for a string, number, boolean) and the base64 of the text of that leaf as the encrypted value.
\<close>

theorem mock_ciphertexts_are_typed:
  assumes "mock_crypto L exact" and "nom_streaming N" and "encrypt_value L v g = Some (e, g')"
  shows "list_all2 (\<lambda>leaf t. \<exists>s c. t = JString s \<and> (\<forall>r. ciphertext N (s @ r) = Inr (r, c)) \<and> ct_datatype c = leaf_type leaf
      \<and> ct_encrypted_value c = ml_encode L (convert_value_to_string L leaf)) (json_leaves v) (json_leaves e)"
proof -
  have "list_all2 (encrypts L) (json_leaves v) (json_leaves e)"
    using encrypt_decrypt_tree(1) [OF assms(1), of v g] assms(3) by (simp add: back_again_def)
  then show ?thesis
  proof (rule list_all2_mono)
    fix leaf t
    assume "encrypts L leaf t"
    then obtain c where c: "t = JString (ct_encode c)" "wf_ciphertext c" "\<not> ct_has_leading_quote c" "\<not> ct_has_trailing_quote c"
      "ct_datatype c = leaf_type leaf" "ct_encrypted_value c = ml_encode L (convert_value_to_string L leaf)"
      by (auto simp: encrypts_def)
    then have "\<forall>r. ciphertext N (ct_encode c @ r) = Inr (r, c)"
      using nom_streaming.ciphertext_complete [OF assms(2) c(2)] by simp
    with c show "\<exists>s c. t = JString s \<and> (\<forall>r. ciphertext N (s @ r) = Inr (r, c)) \<and> ct_datatype c = leaf_type leaf
        \<and> ct_encrypted_value c = ml_encode L (convert_value_to_string L leaf)" by blast
  qed
qed

definition sample_json :: "nat json" where
  "sample_json = JObject [(''name'', JString ''Ada''), (''zip'', JString ''01970''), (''flags'', JArray [JBool True, JNumber 7])]"

lemma sample_json_encrypts: "\<exists>e g'. encrypt_value counting_lib sample_json 0 = Some (e, g')"
  using encrypt_decrypt_tree(1) [OF counting.mock_crypto_axioms, of sample_json 0]
  by (auto simp: sample_json_def split: option.splits)

theorem mock_ciphertexts_are_typed_witness:
  "\<exists>e g'. encrypt_value counting_lib sample_json 0 = Some (e, g') \<and>
     map leaf_type (json_leaves sample_json) = [None, None, Some Boolean, Some Number] \<and>
     list_all2 (\<lambda>leaf t. \<exists>s c. t = JString s \<and> (\<forall>r. ciphertext nom_ref (s @ r) = Inr (r, c)) \<and> ct_datatype c = leaf_type leaf
       \<and> ct_encrypted_value c = ml_encode counting_lib (convert_value_to_string counting_lib leaf))
       (json_leaves sample_json) (json_leaves e)"
proof -
  obtain e g' where e: "encrypt_value counting_lib sample_json 0 = Some (e, g')" using sample_json_encrypts by blast
  have "map leaf_type (json_leaves sample_json) = [None, None, Some Boolean, Some Number]" by (simp add: sample_json_def)
  with e mock_ciphertexts_are_typed [OF counting.mock_crypto_axioms nom_impl.nom_streaming_axioms e] show ?thesis
    by (intro exI [of _ e] exI [of _ g'] conjI)
qed

text \<open>
  A value that goes through \<open>/encrypt\<close> and then through \<open>/decrypt\<close> of the mock comes back with the status 200, leaf by leaf,
  except that a string which happens to be JSON text comes back as the JSON value it spells; and the request to encrypt panics
  exactly when the value has a null in it.
\<close>

theorem mock_encrypt_then_decrypt:
  assumes "mock_crypto (ms_lib S) exact" and "list_all (leaf_ok exact) (json_leaves v)"
    and "rq_method req = ''POST''" and "rq_path req = ''/encrypt''" and "ms_payload S req = Inr v"
  shows "case get_router S req g of
      None \<Rightarrow> JNull \<in> set (json_leaves v)
    | Some (resp, g') \<Rightarrow> JNull \<notin> set (json_leaves v) \<and>
        (\<exists>e. encrypt_value (ms_lib S) v g = Some (e, g') \<and> resp = (200, ml_to_string (ms_lib S) (JObject [(''data'', e)])) \<and>
          (\<forall>req'. rq_method req' = ''POST'' \<longrightarrow> rq_path req' = ''/decrypt'' \<longrightarrow> ms_json S req' = Inr (JObject [(''data'', e)]) \<longrightarrow>
            get_router S req' g' = Some ((200, ml_to_string (ms_lib S) (JObject [(''data'', json_map (read_back (ms_lib S)) v)])), g')))"
  using assms encrypt_decrypt_tree(1) [OF assms(1), of v g]
  by (auto simp: get_router_def encryption_handler_def decryption_handler_def back_again_def split: option.splits)

definition sample_mock_server :: "((string \<times> bytes) list, nat, nat) mock_server" where
  "sample_mock_server =
     \<lparr>ms_lib = counting_lib, ms_headers = ref_headers,
      ms_json = (\<lambda>_. Inr (JObject [(''data'', fst (the (encrypt_value counting_lib sample_json 0)))])),
      ms_payload = (\<lambda>_. Inr sample_json)\<rparr>"

definition sample_mock_request :: "string \<Rightarrow> ((string \<times> bytes) list, unit) http_request" where
  "sample_mock_request path =
     \<lparr>rq_method = ''POST'', rq_path = path, rq_query = None, rq_headers = [], rq_body = None, rq_context = None, rq_remote_ip = None\<rparr>"

lemma sample_json_back:
  "json_map (read_back counting_lib) sample_json =
     JObject [(''name'', JString ''Ada''), (''zip'', JNumber 1970), (''flags'', JArray [JBool True, JNumber 7])]"
  by (simp add: sample_json_def read_back_def counting_lib_def json_read_def parse_unsigned_def is_ascii_digit_def)

theorem mock_encrypt_then_decrypt_witness:
  "\<exists>e g'. get_router sample_mock_server (sample_mock_request ''/encrypt'') 0 = Some ((200, json_print (JObject [(''data'', e)])), g') \<and>
     get_router sample_mock_server (sample_mock_request ''/decrypt'') g' = Some ((200, json_print (JObject [(''data'',
       JObject [(''name'', JString ''Ada''), (''zip'', JNumber 1970), (''flags'', JArray [JBool True, JNumber 7])])])), g')"
proof -
  obtain e g' where e: "encrypt_value counting_lib sample_json 0 = Some (e, g')" using sample_json_encrypts by blast
  have S: "ms_lib sample_mock_server = counting_lib" "ml_to_string counting_lib = json_print"
    by (simp_all add: sample_mock_server_def counting_lib_def)
  have ok: "list_all (leaf_ok (\<lambda>n. n < 2 ^ 64)) (json_leaves sample_json)"
    by (simp add: sample_json_def utf8_valid_ascii byte_in_def)
  have r: "get_router sample_mock_server (sample_mock_request ''/encrypt'') 0 = Some ((200, json_print (JObject [(''data'', e)])), g')"
    using e S by (simp add: get_router_def sample_mock_request_def encryption_handler_def sample_mock_server_def)
  have "get_router sample_mock_server (sample_mock_request ''/decrypt'') g' =
      Some ((200, json_print (JObject [(''data'', json_map (read_back counting_lib) sample_json)])), g')"
    using mock_encrypt_then_decrypt [of sample_mock_server "\<lambda>n. n < 2 ^ 64" sample_json "sample_mock_request ''/encrypt''" 0]
      counting.mock_crypto_axioms ok e r S by (simp add: sample_mock_request_def sample_mock_server_def)
  with r show ?thesis unfolding sample_json_back by blast
qed

end
