(* ===== verification/Base_Client.thy ===== *)
theory Base_Client
  imports Service_Layers Config_Server
begin

text \<open>
  The HTTPS client of the data plane, \<open>data-plane/src/base_tls_client\<close>: a connection over a vsock port of the host
  with TLS on top, the headers every request carries, and the two ways to authenticate. The socket, TLS and the
  HTTP connection of \<open>hyper\<close> are parameters that pass a state of the network; header maps are those of
  \<open>Http_Types\<close>. A panic is \<open>None\<close>. The verifiers that decide about the certificate of the peer are here too.
\<close>

section \<open>Constants\<close>

definition ENCLAVE_CERT_PORT :: nat where "ENCLAVE_CERT_PORT = 7775"
definition ENCLAVE_CRYPTO_PORT :: nat where "ENCLAVE_CRYPTO_PORT = 7778"

definition get_e3_host :: string where "get_e3_host = ''e3.cages-e3.internal''"
definition get_cert_provisioner_host :: string where "get_cert_provisioner_host = ''provisioner.cages.internal''"

text \<open>The version of the package when it was built, if it was known.\<close>

definition CLIENT_VERSION :: "string option \<Rightarrow> string" where
  "CLIENT_VERSION pkg = (case pkg of Some v \<Rightarrow> v | None \<Rightarrow> ''unknown'')"

definition CLIENT_MAJOR_VERSION :: "string option \<Rightarrow> string" where
  "CLIENT_MAJOR_VERSION pkg = (case pkg of Some v \<Rightarrow> hd (split_on CHR ''.'' v) | None \<Rightarrow> ''unknown'')"

section \<open>Peers\<close>

text \<open>
  The verifiers get the certificate of the peer with its chain, the name that was asked for and the response of
  the revocation service; the first looks at nothing, the second at the name only.
\<close>

record peer_certificate =
  pc_end_entity :: bytes
  pc_intermediates :: "bytes list"
  pc_server_name :: string
  pc_ocsp_response :: bytes

definition verify_open :: "peer_certificate \<Rightarrow> (unit, unit) result" where
  "verify_open p = Inr ()"

definition verify_cert_provisioner :: "peer_certificate \<Rightarrow> (unit, unit) result" where
  "verify_cert_provisioner p = (if get_cert_provisioner_host = pc_server_name p then Inr () else Inl ())"

section \<open>Requests\<close>

record AttestationAuth =
  aa_token :: bytes
  aa_doc :: bytes

datatype AuthType = ApiKey bytes | AttestationDoc AttestationAuth

record 'h client_request =
  cl_method :: string
  cl_uri :: string
  cl_headers :: 'h
  cl_body :: bytes

record client_response =
  cp_status :: nat
  cp_body :: "bytes option"

text \<open>
  The network: a socket to a port of the host, the TLS handshake for a server name with the verdict of the
  verifier on what the peer presents (\<open>None\<close> when the handshake fails before), the HTTP handshake, and a request
  with its response (\<open>None\<close> is an error of the connection).
\<close>

record ('h, 'w) tls_transport =
  tt_headers :: "'h headers_api"
  tt_valid_uri :: "string \<Rightarrow> bool"
  tt_valid_method :: "string \<Rightarrow> bool"
  tt_version :: "string option"
  tt_socket :: "nat \<Rightarrow> 'w \<Rightarrow> bool \<times> 'w"
  tt_peer :: "string \<Rightarrow> 'w \<Rightarrow> peer_certificate option \<times> 'w"
  tt_handshake :: "'w \<Rightarrow> bool \<times> 'w"
  tt_exchange :: "'h client_request \<Rightarrow> 'w \<Rightarrow> client_response option \<times> 'w"

record BaseClient =
  bc_verifier :: "peer_certificate \<Rightarrow> (unit, unit) result"
  bc_server_name :: string
  bc_port :: nat

definition get_conn :: "('h, 'w) tls_transport \<Rightarrow> BaseClient \<Rightarrow> 'w \<Rightarrow> (ClientError, unit) result \<times> 'w" where
  "get_conn N B w =
     (case tt_socket N (bc_port B) w of (sock, w1) \<Rightarrow>
       if \<not> sock then (Inl ClientIoError, w1)
       else (case tt_peer N (bc_server_name B) w1 of
               (None, w2) \<Rightarrow> (Inl ClientIoError, w2)
             | (Some p, w2) \<Rightarrow>
                 (case bc_verifier B p of
                    Inl _ \<Rightarrow> (Inl ClientIoError, w2)
                  | Inr _ \<Rightarrow>
                      (case tt_handshake N w2 of (ok, w3) \<Rightarrow> (if ok then Inr () else Inl HyperError, w3)))))"

text \<open>
  The request: the given headers, then the headers every request has, which are appended; the builder panics
  on a bad URI, method or value.
\<close>

definition std_headers :: "('h, 'w) tls_transport \<Rightarrow> (string \<times> bytes) list" where
  "std_headers N =
     [(''Content-Type'', ''application/json''),
      (''User-Agent'', ''Cage-Data-Plane/'' @ CLIENT_VERSION (tt_version N)),
      (''Accept'', ''application/json;version='' @ CLIENT_MAJOR_VERSION (tt_version N))]"

definition build_client_request ::
  "('h, 'w) tls_transport \<Rightarrow> string \<Rightarrow> string \<Rightarrow> bytes \<Rightarrow> 'h option \<Rightarrow> 'h client_request option" where
  "build_client_request N meth url payload headers =
     (let H = tt_headers N; seed = (case headers of None \<Rightarrow> hm_empty H | Some h \<Rightarrow> h) in
      if tt_valid_uri N url \<and> tt_valid_method N meth \<and> list_all (\<lambda>(k, v). header_value H v \<noteq> None) (std_headers N)
      then Some \<lparr>cl_method = meth, cl_uri = url,
                 cl_headers = fold (\<lambda>(k, v). hm_append H k v) (std_headers N) seed, cl_body = payload\<rparr>
      else None)"

definition add_auth :: "'h headers_api \<Rightarrow> AuthType option \<Rightarrow> 'h client_request \<Rightarrow> 'h client_request" where
  "add_auth H auth_type request =
     (case auth_type of
        None \<Rightarrow> request
      | Some (ApiKey key) \<Rightarrow> request\<lparr>cl_headers := hm_insert H ''api-key'' key (cl_headers request)\<rparr>
      | Some (AttestationDoc auth) \<Rightarrow>
          request\<lparr>cl_headers := hm_insert H ''auth-token'' (aa_token auth)
                     (hm_insert H ''attestation-token'' (aa_doc auth) (cl_headers request))\<rparr>)"

text \<open>The requests that were written to a connection are recorded next to the state of the network.\<close>

definition base_send ::
  "('h, 'w) tls_transport \<Rightarrow> BaseClient \<Rightarrow> AuthType option \<Rightarrow> string \<Rightarrow> string \<Rightarrow> bytes \<Rightarrow> 'h option \<Rightarrow> 'w
   \<Rightarrow> (ClientError, client_response) result option \<times> 'h client_request option \<times> 'w" where
  "base_send N B auth_type meth url payload headers w =
     (case build_client_request N meth url payload headers of
        None \<Rightarrow> (None, None, w)
      | Some req \<Rightarrow>
         (let request = add_auth (tt_headers N) auth_type req in
          case get_conn N B w of
            (Inl e, w1) \<Rightarrow> (Some (Inl e), None, w1)
          | (Inr _, w1) \<Rightarrow>
             (case tt_exchange N request w1 of
                (None, w2) \<Rightarrow> (Some (Inl HyperError), Some request, w2)
              | (Some response, w2) \<Rightarrow>
                 (Some (if is_success (cp_status response) then Inr response else Inl (FailedRequest (cp_status response))),
                  Some request, w2))))"

definition base_parse_response :: "(bytes \<Rightarrow> 'a option) \<Rightarrow> client_response \<Rightarrow> (ClientError, 'a) result" where
  "base_parse_response parse res =
     (case cp_body res of
        None \<Rightarrow> Inl HyperError
      | Some response_body \<Rightarrow> ok_or SerdeError (parse response_body))"

section \<open>What is sent\<close>

lemma base_send_sent:
  assumes "base_send N B a meth url payload headers w = (r, Some request, w')"
  shows "\<exists>req. build_client_request N meth url payload headers = Some req \<and> request = add_auth (tt_headers N) a req
    \<and> fst (get_conn N B w) = Inr ()"
  using assms by (auto simp: base_send_def Let_def split: option.splits sum.splits prod.splits)

lemma base_send_ok:
  assumes "base_send N B a meth url payload headers w = (Some (Inr response), s, w')"
  shows "is_success (cp_status response) \<and> s \<noteq> None"
  using assms by (auto simp: base_send_def Let_def split: option.splits sum.splits prod.splits if_splits)

lemma build_client_request_fields:
  assumes "build_client_request N meth url payload headers = Some req"
  shows "cl_method req = meth" "cl_uri req = url" "cl_body req = payload"
  using assms by (auto simp: build_client_request_def Let_def split: if_splits)

lemma add_auth_fields [simp]:
  "cl_method (add_auth H a req) = cl_method req" "cl_uri (add_auth H a req) = cl_uri req"
  "cl_body (add_auth H a req) = cl_body req"
  by (auto simp: add_auth_def split: option.splits AuthType.splits)

context header_map
begin

lemma lower_names_neq:
  assumes "k \<noteq> k'" "k \<noteq> []" "k' \<noteq> []" "list_all (\<lambda>c. byte_in 97 122 c \<or> c = CHR ''-'') k"
    "list_all (\<lambda>c. byte_in 97 122 c \<or> c = CHR ''-'') k'"
  shows "header_name H k \<noteq> header_name H k'"
  using assms name_lower by simp

lemma attestation_headers:
  "hm_get H (cl_headers (add_auth H (Some (AttestationDoc auth)) req)) ''auth-token'' = Some (aa_token auth)"
  "hm_get H (cl_headers (add_auth H (Some (AttestationDoc auth)) req)) ''attestation-token'' = Some (aa_doc auth)"
proof -
  have "header_name H ''auth-token'' \<noteq> header_name H ''attestation-token''"
    by (intro lower_names_neq) (simp_all add: byte_in_def)
  then show "hm_get H (cl_headers (add_auth H (Some (AttestationDoc auth)) req)) ''auth-token'' = Some (aa_token auth)"
    "hm_get H (cl_headers (add_auth H (Some (AttestationDoc auth)) req)) ''attestation-token'' = Some (aa_doc auth)"
    by (simp_all add: add_auth_def get_insert_same get_insert_other)
qed

lemma api_key_header: "hm_get H (cl_headers (add_auth H (Some (ApiKey key)) req)) ''api-key'' = Some key"
  by (simp add: add_auth_def get_insert_same)

text \<open>A header the caller passes is not replaced: the first value of a header is the caller's.\<close>

lemma get_fold_append:
  assumes "hm_get H h k = Some v" and "\<forall>(k', v') \<in> set hs. k' = k \<or> header_name H k' \<noteq> header_name H k"
  shows "hm_get H (fold (\<lambda>(k, v). hm_append H k v) hs h) k = Some v"
  using assms
proof (induction hs arbitrary: h)
  case (Cons x hs)
  obtain k' v' where x: "x = (k', v')" by (cases x)
  have "hm_get H (hm_append H k' v' h) k = Some v"
    using Cons.prems by (auto simp: x get_append_some get_append_other)
  with Cons show ?case by (simp add: x)
qed simp

end

end
