(* ===== verification/Statistics.thy ===== *)
theory Statistics
  imports Config_Server Service_Layers
begin

text \<open>
  Metrics: the statsd clients of the two planes (\<open>data-plane/src/stats_client.rs\<close>,
  \<open>control-plane/src/stats_client.rs\<close>, the macros of \<open>shared/src/stats.rs\<close>) and the way of a datagram out of
  the enclave, from the UDP socket of the data plane (\<open>data-plane/src/stats.rs\<close>) over a vsock connection to the
  agents on the host (\<open>control-plane/src/stats_proxy.rs\<close>). The statsd client is the crate \<open>cadence\<close>: a metric is
  the label, the value and the tags it is given; its macros panic when no global client was set. System figures
  and sockets are parameters.
\<close>

section \<open>Metrics\<close>

datatype StatsError = SysInfoError | MetricError | StatsIOError

datatype 'f metric_value = CountOf nat | GaugeOf 'f

record 'f metric =
  mt_label :: string
  mt_value :: "'f metric_value"
  mt_tags :: "(string \<times> string) list"

definition publish_gauge :: "string \<Rightarrow> 'f \<Rightarrow> string \<Rightarrow> string \<Rightarrow> 'f metric" where
  "publish_gauge label val uuid app = \<lparr>mt_label = label, mt_value = GaugeOf val, mt_tags = [(''enclave_uuid'', uuid), (''app_uuid'', app)]\<rparr>"

definition publish_count :: "string \<Rightarrow> nat \<Rightarrow> string \<Rightarrow> string \<Rightarrow> 'f metric" where
  "publish_count label val uuid app = \<lparr>mt_label = label, mt_value = CountOf val, mt_tags = [(''enclave_uuid'', uuid), (''app_uuid'', app)]\<rparr>"

text \<open>
  The global client is set when the socket and the sink were created; a macro without it panics (\<open>None\<close>).
\<close>

definition initialize_sink :: "bool \<Rightarrow> bool \<Rightarrow> (StatsError, unit) result" where
  "initialize_sink bind_ok sink_ok =
     (if \<not> bind_ok then Inl StatsIOError else if \<not> sink_ok then Inl MetricError else Inr ())"

definition stats_init :: "bool \<Rightarrow> bool \<Rightarrow> bool" where
  "stats_init bind_ok sink_ok = (case initialize_sink bind_ok sink_ok of Inl _ \<Rightarrow> False | Inr _ \<Rightarrow> True)"

definition publish :: "bool \<Rightarrow> 'f metric list \<Rightarrow> 'f metric list option" where
  "publish client ms = (if client \<or> ms = [] then Some ms else None)"

definition record_decrypt :: "bool \<Rightarrow> EnclaveContext option \<Rightarrow> 'f metric list option" where
  "record_decrypt client ctx =
     publish client (case ctx of None \<Rightarrow> [] | Some c \<Rightarrow> [publish_count ''evervault.enclaves.decrypt.count'' 1 (ec_uuid c) (ec_app_uuid c)])"

definition record_encrypt :: "bool \<Rightarrow> EnclaveContext option \<Rightarrow> 'f metric list option" where
  "record_encrypt client ctx =
     publish client (case ctx of None \<Rightarrow> [] | Some c \<Rightarrow> [publish_count ''evervault.enclaves.encrypt.count'' 1 (ec_uuid c) (ec_app_uuid c)])"

definition record_cert_order :: "bool \<Rightarrow> EnclaveContext option \<Rightarrow> string \<Rightarrow> bool \<Rightarrow> 'f metric list option" where
  "record_cert_order client ctx provider success =
     publish client (case ctx of None \<Rightarrow> []
       | Some c \<Rightarrow>
          (let success_key = (if success then ''success'' else ''failure'');
               key = provider @ ''.'' @ success_key @ ''.count''
           in [publish_count key 1 (ec_uuid c) (ec_app_uuid c)]))"

record 'f system_info =
  si_mem :: "(nat \<times> nat) option"
  si_loadavg :: "'f option"
  si_cpu_num :: "nat option"
  si_f64 :: "nat \<Rightarrow> 'f"

definition try_record_system_metrics ::
  "bool \<Rightarrow> EnclaveContext option \<Rightarrow> 'f system_info \<Rightarrow> (StatsError, 'f metric list) result option" where
  "try_record_system_metrics client ctx S =
     (case si_mem S of None \<Rightarrow> Some (Inl SysInfoError)
      | Some (mem_total, mem_avail) \<Rightarrow>
         (case si_loadavg S of None \<Rightarrow> Some (Inl SysInfoError)
          | Some one \<Rightarrow>
             (case si_cpu_num S of None \<Rightarrow> Some (Inl SysInfoError)
              | Some cpu_num \<Rightarrow>
                 map_option Inr (publish client
                   (case ctx of None \<Rightarrow> []
                    | Some c \<Rightarrow>
                       [publish_gauge ''evervault.enclaves.memory.total'' (si_f64 S mem_total) (ec_uuid c) (ec_app_uuid c),
                        publish_gauge ''evervault.enclaves.memory.avail'' (si_f64 S mem_avail) (ec_uuid c) (ec_app_uuid c),
                        publish_gauge ''evervault.enclaves.cpu.cores'' (si_f64 S cpu_num) (ec_uuid c) (ec_app_uuid c),
                        publish_gauge ''evervault.enclaves.cpu.one'' one (ec_uuid c) (ec_app_uuid c)])))))"

definition record_system_metrics :: "bool \<Rightarrow> EnclaveContext option \<Rightarrow> 'f system_info \<Rightarrow> 'f metric list option" where
  "record_system_metrics client ctx S =
     map_option (case_sum (\<lambda>_. []) id) (try_record_system_metrics client ctx S)"

text \<open>The control plane counts every connection of a client.\<close>

definition cp_record_request :: "bool \<Rightarrow> CpEnclaveContext \<Rightarrow> 'f metric list option" where
  "cp_record_request client c = publish client [publish_count ''request.count'' 1 (cx_uuid c) (cx_app_uuid c)]"

text \<open>
  The period of the system metrics in seconds; \<open>tokio::time::interval\<close> panics when it is zero. The metrics of
  the ticks that follow; a panic in one ends the task.
\<close>

definition stats_interval :: "string option \<Rightarrow> nat" where
  "stats_interval var = (case Option.bind var parse_u64 of None \<Rightarrow> 60 | Some n \<Rightarrow> n)"

fun system_ticks :: "bool \<Rightarrow> (EnclaveContext option \<times> 'f system_info) list \<Rightarrow> 'f metric list" where
  "system_ticks client [] = []"
| "system_ticks client ((ctx, S) # ticks) =
     (case record_system_metrics client ctx S of
        None \<Rightarrow> []
      | Some ms \<Rightarrow> ms @ system_ticks client ticks)"

definition stats_record_system_metrics ::
  "bool \<Rightarrow> string option \<Rightarrow> (EnclaveContext option \<times> 'f system_info) list \<Rightarrow> 'f metric list" where
  "stats_record_system_metrics client var ticks =
     (if stats_interval var = 0 then [] else system_ticks client ticks)"

section \<open>The way out of the enclave\<close>

text \<open>A datagram longer than the buffer of 512 bytes is cut by the socket.\<close>

datatype recv_event = Datagram bytes | RecvError

record vsock_fate =
  vf_connect :: bool
  vf_write :: bool
  vf_flush :: bool

definition STATS_BUFFER :: nat where "STATS_BUFFER = 512"

definition forward_stats :: "bytes \<Rightarrow> vsock_fate \<Rightarrow> (unit, unit) result \<times> bytes list" where
  "forward_stats buf v =
     (if \<not> vf_connect v then (Inl (), [])
      else if \<not> vf_write v then (Inl (), [])
      else if \<not> vf_flush v then (Inl (), [])
      else (Inr (), [buf]))"

fun stats_listen :: "(recv_event \<times> vsock_fate) list \<Rightarrow> bytes list" where
  "stats_listen [] = []"
| "stats_listen ((RecvError, v) # es) = stats_listen es"
| "stats_listen ((Datagram d, v) # es) = snd (forward_stats (take STATS_BUFFER d) v) @ stats_listen es"

text \<open>The ports of the two agents on the host, and whether a datagram can be sent to them.\<close>

definition CLOUDWATCH_STATSD_PORT :: nat where "CLOUDWATCH_STATSD_PORT = 8125"
definition EXTERNAL_STATSD_PORT :: nat where "EXTERNAL_STATSD_PORT = 8126"

definition get_external_metrics_enabled :: "string option \<Rightarrow> bool" where
  "get_external_metrics_enabled var = (case var of Some val \<Rightarrow> map to_lower val = ''true'' | None \<Rightarrow> False)"

definition send_metrics :: "(nat \<Rightarrow> bool) \<Rightarrow> nat \<Rightarrow> bytes \<Rightarrow> (unit, unit) result \<times> (nat \<times> bytes) list" where
  "send_metrics reachable port stats_buffer = (if reachable port then (Inr (), [(port, stats_buffer)]) else (Inl (), []))"

text \<open>What one read of the stream returns (\<open>None\<close> is an error), and the datagrams sent.\<close>

definition proxy_stats_connection ::
  "(nat \<Rightarrow> bool) \<Rightarrow> bytes option \<Rightarrow> bool \<Rightarrow> bool \<Rightarrow> (unit, unit) result \<times> (nat \<times> bytes) list" where
  "proxy_stats_connection reachable chunk external_metrics_enabled flush_ok =
     (case chunk of None \<Rightarrow> (Inl (), [])
      | Some c \<Rightarrow>
         (let packet = take STATS_BUFFER c;
              done = (if flush_ok then Inr () else Inl ()) in
          if external_metrics_enabled
          then (done, snd (send_metrics reachable CLOUDWATCH_STATSD_PORT packet) @ snd (send_metrics reachable EXTERNAL_STATSD_PORT packet))
          else (case send_metrics reachable CLOUDWATCH_STATSD_PORT packet of
                  (Inl e, sent) \<Rightarrow> (Inl e, sent)
                | (Inr _, sent) \<Rightarrow> (done, sent))))"

text \<open>The accept loop: every accepted stream is a task of its own; a failed one is logged.\<close>

fun stats_proxy_listen :: "(nat \<Rightarrow> bool) \<Rightarrow> string option \<Rightarrow> (bytes option \<times> bool) option list \<Rightarrow> (nat \<times> bytes) list" where
  "stats_proxy_listen reachable var [] = []"
| "stats_proxy_listen reachable var (None # cs) = stats_proxy_listen reachable var cs"
| "stats_proxy_listen reachable var (Some (chunk, flush_ok) # cs) =
     snd (proxy_stats_connection reachable chunk (get_external_metrics_enabled var) flush_ok) @ stats_proxy_listen reachable var cs"

section \<open>Delivery\<close>

lemma stats_listen_datagrams:
  assumes "\<forall>(e, v) \<in> set es. vf_connect v \<and> vf_write v \<and> vf_flush v"
  shows "stats_listen es = concat (map (\<lambda>(e, v). case e of Datagram d \<Rightarrow> [take STATS_BUFFER d] | RecvError \<Rightarrow> []) es)"
  using assms
proof (induction es)
  case (Cons e es)
  then show ?case by (cases e; cases "fst e") (auto simp: forward_stats_def)
qed simp

lemma stats_listen_bounded: "b \<in> set (stats_listen es) \<Longrightarrow> length b \<le> 512"
  by (induction es rule: stats_listen.induct) (auto simp: forward_stats_def STATS_BUFFER_def split: if_splits)

lemma proxied_datagram:
  assumes "length b \<le> 512" and "reachable CLOUDWATCH_STATSD_PORT" and "reachable EXTERNAL_STATSD_PORT"
  shows "snd (proxy_stats_connection reachable (Some b) ext f)
    = (CLOUDWATCH_STATSD_PORT, b) # (if ext then [(EXTERNAL_STATSD_PORT, b)] else [])"
  using assms by (simp add: proxy_stats_connection_def send_metrics_def STATS_BUFFER_def Let_def)

lemma stats_proxy_listen_map:
  assumes "\<forall>b \<in> set bs. length b \<le> 512" and "reachable CLOUDWATCH_STATSD_PORT" and "reachable EXTERNAL_STATSD_PORT"
  shows "stats_proxy_listen reachable var (map (\<lambda>b. Some (Some b, True)) bs)
    = concat (map (\<lambda>b. (CLOUDWATCH_STATSD_PORT, b)
        # (if get_external_metrics_enabled var then [(EXTERNAL_STATSD_PORT, b)] else [])) bs)"
  using assms by (induction bs) (auto simp: proxied_datagram)

text \<open>
  Metrics leave the enclave unchanged and in order: when the vsock connections work and both agents can be
  reached, every datagram of at most 512 bytes that the data plane receives is sent once to the first agent, and
  once to the second when external metrics are enabled; a receive error loses no other datagram.
\<close>

theorem metrics_reach_agents:
  assumes "\<forall>(e, v) \<in> set es. vf_connect v \<and> vf_write v \<and> vf_flush v"
    and "\<forall>(e, v) \<in> set es. case e of Datagram d \<Rightarrow> length d \<le> 512 | RecvError \<Rightarrow> True"
    and "reachable CLOUDWATCH_STATSD_PORT" and "reachable EXTERNAL_STATSD_PORT"
  shows "stats_proxy_listen reachable var (map (\<lambda>b. Some (Some b, True)) (stats_listen es))
    = concat (map (\<lambda>d. (CLOUDWATCH_STATSD_PORT, d)
        # (if get_external_metrics_enabled var then [(EXTERNAL_STATSD_PORT, d)] else []))
        (concat (map (\<lambda>(e, v). case e of Datagram d \<Rightarrow> [d] | RecvError \<Rightarrow> []) es)))"
proof -
  have eq: "stats_listen es = concat (map (\<lambda>(e, v). case e of Datagram d \<Rightarrow> [d] | RecvError \<Rightarrow> []) es)"
    unfolding stats_listen_datagrams [OF assms(1)]
    using assms(2) by (intro arg_cong [where f = concat] map_cong) (auto simp: STATS_BUFFER_def split: recv_event.splits)
  have "\<forall>b \<in> set (stats_listen es). length b \<le> 512" by (blast dest: stats_listen_bounded)
  from stats_proxy_listen_map [OF this assms(3,4)] show ?thesis by (simp only: eq)
qed

text \<open>
  When the socket of the statsd client could not be created, initialisation only logs it, and the first
  metric that has a context to report panics.
\<close>

theorem metrics_without_client_panic:
  assumes "stats_init bind_ok sink_ok = False"
  shows "record_decrypt (stats_init bind_ok sink_ok) (Some c) = None"
    and "record_encrypt (stats_init bind_ok sink_ok) (Some c) = None"
    and "record_cert_order (stats_init bind_ok sink_ok) (Some c) provider success = None"
    and "cp_record_request (stats_init bind_ok sink_ok) cp = None"
  using assms by (simp_all add: record_decrypt_def record_encrypt_def record_cert_order_def cp_record_request_def publish_def Let_def)

text \<open>
  A period of zero, a number as any other, ends the task of the system metrics before the first tick.
\<close>

theorem zero_interval_stops_system_metrics:
  "stats_record_system_metrics client (Some ''0'') ticks = []"
  by (simp add: stats_record_system_metrics_def stats_interval_def parse_unsigned_def is_ascii_digit_def)

end
