(* ===== verification/E3_Client.thy ===== *)
theory E3_Client
  imports Base_Client Config_Client Statistics
begin

text \<open>
  The client of E3, the encryption service (\<open>data-plane/src/e3client/mod.rs\<close>), with the token that authenticates
  the enclave to it (\<open>data-plane/src/crypto/token.rs\<close>) and the cache of that token (\<open>data-plane/src/cache.rs\<close>).
  The token comes from the configuration server through \<open>Config_Client\<close>; the attestation document is bound to
  the identifier of the token by the secure module. The cache is the crate \<open>cached\<close>: a parameter with the
  locale \<open>timed_cache\<close> for its documented behaviour. The mutex of the cache is held from the lookup to the
  store, so the calls of \<open>get_token\<close> do not interleave. Every attempt of a call is made at a moment: the time in
  milliseconds, the fate of the connection to the configuration server, what that server and the secure module
  would answer, and the context of the enclave if it is set. An attempt happens at its moment: the time that passes between
  the lookup of the token and the sending of the request is not counted.
\<close>

section \<open>The token cache\<close>

record 'c timed_cache =
  tca_new :: "nat \<Rightarrow> nat \<Rightarrow> 'c"
  tca_get :: "string \<Rightarrow> nat \<Rightarrow> 'c \<Rightarrow> AttestationAuth option \<times> 'c"
  tca_set :: "string \<Rightarrow> AttestationAuth \<Rightarrow> nat \<Rightarrow> 'c \<Rightarrow> 'c"

definition E3_TOKEN_LIFETIME :: nat where "E3_TOKEN_LIFETIME = 280"

definition E3_TOKEN :: "'c timed_cache \<Rightarrow> 'c" where
  "E3_TOKEN T = tca_new T 1 E3_TOKEN_LIFETIME"

datatype TokenError = TokIo | TokError DpError | TokAttestation AttestationError | TokInvalidHeaderValue

section \<open>State\<close>

record 's e3_moment =
  mo_now :: nat
  mo_link :: link
  mo_config :: "'s config_env"
  mo_nsm :: nsm
  mo_context :: "EnclaveContext option"

record ('h, 'c, 'w) e3_env =
  ee_net :: "('h, 'w) tls_transport"
  ee_cache :: "'c timed_cache"
  ee_b64 :: "bytes \<Rightarrow> string"
  ee_show :: "TokenError \<Rightarrow> string"
  ee_stats :: bool

datatype 'h e3_event =
    TokenIssued nat string string AttestationAuth
  | RequestSent nat "'h client_request"

record ('h, 'c, 's, 'w, 'f) e3_state =
  es_cache :: 'c
  es_config :: "'s cfg_state"
  es_world :: 'w
  es_metrics :: "'f metric list"
  es_log :: "'h e3_event list"

definition e3_start :: "('h, 'c, 'w) e3_env \<Rightarrow> 's cfg_state \<Rightarrow> 'w \<Rightarrow> ('h, 'c, 's, 'w, 'f) e3_state" where
  "e3_start E cs w = \<lparr>es_cache = E3_TOKEN (ee_cache E), es_config = cs, es_world = w, es_metrics = [], es_log = []\<rparr>"

section \<open>Tokens\<close>

definition get_attestation_doc_token :: "('h, 'c, 'w) e3_env \<Rightarrow> nsm \<Rightarrow> bytes \<Rightarrow> (TokenError, string) result" where
  "get_attestation_doc_token E M nonce =
     try_bind (map_err TokAttestation (get_attestation_doc M None (Some nonce))) (\<lambda>attestation_doc.
       Inr (ee_b64 E attestation_doc))"

definition token_headers :: "('h, 'c, 'w) e3_env \<Rightarrow> nsm \<Rightarrow> string \<Rightarrow> string \<Rightarrow> (TokenError, AttestationAuth) result" where
  "token_headers E M token token_id =
     try_bind (get_attestation_doc_token E M token_id) (\<lambda>doc.
     try_bind (ok_or TokInvalidHeaderValue (header_value (tt_headers (ee_net E)) token)) (\<lambda>token_header.
     try_bind (ok_or TokInvalidHeaderValue (header_value (tt_headers (ee_net E)) doc)) (\<lambda>attestation_header.
       Inr \<lparr>aa_token = token_header, aa_doc = attestation_header\<rparr>)))"

definition token_client_get_token ::
  "('h, 'c, 'w) e3_env \<Rightarrow> 's e3_moment \<Rightarrow> ('h, 'c, 's, 'w, 'f) e3_state
   \<Rightarrow> (TokenError, AttestationAuth) result \<times> ('h, 'c, 's, 'w, 'f) e3_state" where
  "token_client_get_token E mo st =
     (case tca_get (ee_cache E) ''e3_token'' (mo_now mo) (es_cache st) of
        (Some token, c) \<Rightarrow> (Inr token, st\<lparr>es_cache := c\<rparr>)
      | (None, c) \<Rightarrow>
         (case get_e3_token (mo_config mo) (mo_link mo) (es_config st) of
            (Inl e, cs) \<Rightarrow> (Inl (TokError e), st\<lparr>es_cache := c, es_config := cs\<rparr>)
          | (Inr (token, token_id), cs) \<Rightarrow>
             (case token_headers E (mo_nsm mo) token token_id of
                Inl e \<Rightarrow> (Inl e, st\<lparr>es_cache := c, es_config := cs\<rparr>)
              | Inr auth \<Rightarrow>
                 (Inr auth, st\<lparr>es_cache := tca_set (ee_cache E) ''e3_token'' auth (mo_now mo) c, es_config := cs,
                               es_log := es_log st @ [TokenIssued (mo_now mo) token token_id auth]\<rparr>))))"

section \<open>Requests\<close>

definition e3_base_client :: BaseClient where
  "e3_base_client = \<lparr>bc_verifier = verify_open, bc_server_name = get_e3_host, bc_port = ENCLAVE_CRYPTO_PORT\<rparr>"

definition e3_uri :: "string \<Rightarrow> string" where
  "e3_uri path = ''https://'' @ get_e3_host @ '':'' @ show_nat ENCLAVE_CRYPTO_PORT @ path"

definition e3_send ::
  "('h, 'c, 'w) e3_env \<Rightarrow> 's e3_moment \<Rightarrow> AuthType \<Rightarrow> string \<Rightarrow> bytes \<Rightarrow> 'h option \<Rightarrow> ('h, 'c, 's, 'w, 'f) e3_state
   \<Rightarrow> (ClientError, client_response) result option \<times> ('h, 'c, 's, 'w, 'f) e3_state" where
  "e3_send E mo auth path body headers st =
     (case base_send (ee_net E) e3_base_client (Some auth) ''POST'' (e3_uri path) body headers (es_world st) of
        (r, sent, w) \<Rightarrow>
          (r, st\<lparr>es_world := w,
                 es_log := es_log st @ (case sent of None \<Rightarrow> [] | Some q \<Rightarrow> [RequestSent (mo_now mo) q])\<rparr>))"

text \<open>
  A request with the token: the serialised payload (\<open>None\<close> when \<open>serde_json::to_vec\<close> fails), the metric after a
  successful response, and the parser of the type the caller wants.
\<close>

definition crypto_call ::
  "('h, 'c, 'w) e3_env \<Rightarrow> 's e3_moment \<Rightarrow> string \<Rightarrow> 'h option \<Rightarrow> (bool \<Rightarrow> EnclaveContext option \<Rightarrow> 'f metric list option)
   \<Rightarrow> (bytes \<Rightarrow> 'a option) \<Rightarrow> bytes option \<Rightarrow> ('h, 'c, 's, 'w, 'f) e3_state
   \<Rightarrow> (ClientError, 'a) result option \<times> ('h, 'c, 's, 'w, 'f) e3_state" where
  "crypto_call E mo path headers metrics parse payload st =
     (case token_client_get_token E mo st of
        (Inl e, st1) \<Rightarrow> (Some (Inl (General (''Couldn't get E3 token '' @ ee_show E e))), st1)
      | (Inr token, st1) \<Rightarrow>
         (case payload of
            None \<Rightarrow> (Some (Inl SerdeError), st1)
          | Some body \<Rightarrow>
             (case e3_send E mo (AttestationDoc token) path body headers st1 of
                (None, st2) \<Rightarrow> (None, st2)
              | (Some (Inl e), st2) \<Rightarrow> (Some (Inl e), st2)
              | (Some (Inr response), st2) \<Rightarrow>
                 (case metrics (ee_stats E) (mo_context mo) of
                    None \<Rightarrow> (None, st2)
                  | Some ms \<Rightarrow> (Some (base_parse_response parse response), st2\<lparr>es_metrics := es_metrics st2 @ ms\<rparr>)))))"

definition e3_decrypt ::
  "('h, 'c, 'w) e3_env \<Rightarrow> (bytes \<Rightarrow> 'a option) \<Rightarrow> bytes option \<Rightarrow> 's e3_moment \<Rightarrow> ('h, 'c, 's, 'w, 'f) e3_state
   \<Rightarrow> (ClientError, 'a) result option \<times> ('h, 'c, 's, 'w, 'f) e3_state" where
  "e3_decrypt E parse payload mo st = crypto_call E mo ''/decrypt'' None record_decrypt parse payload st"

definition data_role_headers :: "'h headers_api \<Rightarrow> string option \<Rightarrow> 'h option" where
  "data_role_headers H data_role =
     map_option (\<lambda>role. hm_insert H ''x-evervault-data-role'' role (hm_empty H)) (Option.bind data_role (header_value H))"

definition e3_encrypt ::
  "('h, 'c, 'w) e3_env \<Rightarrow> (bytes \<Rightarrow> 'a option) \<Rightarrow> bytes option \<Rightarrow> string option \<Rightarrow> 's e3_moment \<Rightarrow> ('h, 'c, 's, 'w, 'f) e3_state
   \<Rightarrow> (ClientError, 'a) result option \<times> ('h, 'c, 's, 'w, 'f) e3_state" where
  "e3_encrypt E parse payload data_role mo st =
     (let request_headers = data_role_headers (tt_headers (ee_net E)) data_role in
      crypto_call E mo ''/encrypt'' request_headers record_encrypt parse payload st)"

definition e3_authenticate ::
  "('h, 'c, 'w) e3_env \<Rightarrow> bytes \<Rightarrow> bytes option \<Rightarrow> 's e3_moment \<Rightarrow> ('h, 'c, 's, 'w, 'f) e3_state
   \<Rightarrow> (ClientError, unit) result option \<times> ('h, 'c, 's, 'w, 'f) e3_state" where
  "e3_authenticate E api_key payload mo st =
     (case payload of
        None \<Rightarrow> (Some (Inl SerdeError), st)
      | Some body \<Rightarrow>
         (case e3_send E mo (ApiKey api_key) ''/authenticate'' body None st of
            (r, st1) \<Rightarrow> (map_option (\<lambda>x. try_bind x (\<lambda>_. Inr ())) r, st1)))"

text \<open>
  \<open>Retry::spawn\<close> of \<open>tokio_retry\<close> is a parameter: it is given the attempt, the moments of the attempts, the number of delays
  the strategy yields and the state.
\<close>

type_synonym ('m, 'st, 'a) retry =
  "('m \<Rightarrow> 'st \<Rightarrow> (ClientError, 'a) result option \<times> 'st) \<Rightarrow> (nat \<Rightarrow> 'm) \<Rightarrow> nat \<Rightarrow> 'st \<Rightarrow> (ClientError, 'a) result option \<times> 'st"

definition decrypt_with_retries ::
  "('s e3_moment, ('h, 'c, 's, 'w, 'f) e3_state, 'a) retry \<Rightarrow> ('h, 'c, 'w) e3_env \<Rightarrow> (bytes \<Rightarrow> 'a option) \<Rightarrow> nat \<Rightarrow> bytes option \<Rightarrow> (nat \<Rightarrow> 's e3_moment) \<Rightarrow> ('h, 'c, 's, 'w, 'f) e3_state
   \<Rightarrow> (ClientError, 'a) result option \<times> ('h, 'c, 's, 'w, 'f) e3_state" where
  "decrypt_with_retries spawn E parse retries payload mos = spawn (e3_decrypt E parse payload) mos retries"

definition encrypt_with_retries ::
  "('s e3_moment, ('h, 'c, 's, 'w, 'f) e3_state, 'a) retry \<Rightarrow> ('h, 'c, 'w) e3_env \<Rightarrow> (bytes \<Rightarrow> 'a option) \<Rightarrow> nat \<Rightarrow> bytes option \<Rightarrow> string option \<Rightarrow> (nat \<Rightarrow> 's e3_moment) \<Rightarrow> ('h, 'c, 's, 'w, 'f) e3_state
   \<Rightarrow> (ClientError, 'a) result option \<times> ('h, 'c, 's, 'w, 'f) e3_state" where
  "encrypt_with_retries spawn E parse retries payload data_role mos = spawn (e3_encrypt E parse payload data_role) mos retries"

section \<open>Runs\<close>

text \<open>The attempts of a process, one after the other; what the caller makes of a response does not matter here.\<close>

datatype e3_op = EncryptOp "bytes option" "string option" | DecryptOp "bytes option" | AuthenticateOp bytes "bytes option"

fun e3_attempt :: "('h, 'c, 'w) e3_env \<Rightarrow> e3_op \<times> 's e3_moment \<Rightarrow> ('h, 'c, 's, 'w, 'f) e3_state \<Rightarrow> ('h, 'c, 's, 'w, 'f) e3_state" where
  "e3_attempt E (EncryptOp payload role, mo) st = snd (e3_encrypt E Some payload role mo st)"
| "e3_attempt E (DecryptOp payload, mo) st = snd (e3_decrypt E Some payload mo st)"
| "e3_attempt E (AuthenticateOp key payload, mo) st = snd (e3_authenticate E key payload mo st)"

definition e3_run :: "('h, 'c, 'w) e3_env \<Rightarrow> (e3_op \<times> 's e3_moment) list \<Rightarrow> ('h, 'c, 's, 'w, 'f) e3_state \<Rightarrow> ('h, 'c, 's, 'w, 'f) e3_state" where
  "e3_run E ops st = fold (e3_attempt E) ops st"

section \<open>The cache of the crate\<close>

text \<open>
  A lookup returns a value whose age in whole seconds is less than the life span and may drop one that is older;
  a store replaces the value of its key and its age.
\<close>

locale timed_cache =
  fixes T :: "'c timed_cache" and entry :: "'c \<Rightarrow> string \<Rightarrow> (AttestationAuth \<times> nat) option" and lifespan :: "'c \<Rightarrow> nat"
  assumes new_entry: "entry (tca_new T n secs) k = None"
    and new_lifespan: "lifespan (tca_new T n secs) = secs"
    and get_value: "fst (tca_get T k now c) =
      (case entry c k of None \<Rightarrow> None | Some (v, t) \<Rightarrow> if (now - t) div 1000 < lifespan c then Some v else None)"
    and get_hit: "fst (tca_get T k now c) = Some v \<Longrightarrow> entry (snd (tca_get T k now c)) k = entry c k"
    and get_miss: "fst (tca_get T k now c) = None \<Longrightarrow> entry (snd (tca_get T k now c)) k \<in> {None, entry c k}"
    and get_lifespan: "lifespan (snd (tca_get T k now c)) = lifespan c"
    and set_entry: "entry (tca_set T k v now c) k = Some (v, now)"
    and set_lifespan: "lifespan (tca_set T k v now c) = lifespan c"

text \<open>The cache of one entry that the data plane creates.\<close>

type_synonym one_cache = "nat \<times> (string \<times> AttestationAuth \<times> nat) option"

definition one_entry :: "one_cache \<Rightarrow> string \<Rightarrow> (AttestationAuth \<times> nat) option" where
  "one_entry c k = (case snd c of Some (k', v) \<Rightarrow> if k' = k then Some v else None | None \<Rightarrow> None)"

definition one_cache :: "one_cache timed_cache" where
  "one_cache =
     \<lparr>tca_new = (\<lambda>n secs. (secs, None)),
      tca_get = (\<lambda>k now c. case one_entry c k of
          None \<Rightarrow> (None, c)
        | Some (v, t) \<Rightarrow> if (now - t) div 1000 < fst c then (Some v, c) else (None, (fst c, None))),
      tca_set = (\<lambda>k v now c. (fst c, Some (k, v, now)))\<rparr>"

interpretation one_cache: timed_cache one_cache one_entry fst
  by unfold_locales (auto simp: one_cache_def one_entry_def split: option.splits prod.splits)

section \<open>Tokens of a run\<close>

text \<open>A token the configuration server issued at a moment, with a document over its identifier.\<close>

definition issued :: "('h, 'c, 'w) e3_env \<Rightarrow> 's e3_moment \<Rightarrow> string \<Rightarrow> string \<Rightarrow> AttestationAuth \<Rightarrow> bool" where
  "issued E mo token token_id auth \<longleftrightarrow>
     (\<exists>cs. fst (get_e3_token (mo_config mo) (mo_link mo) cs) = Inr (token, token_id))
     \<and> (\<exists>document. get_attestation_doc (mo_nsm mo) None (Some token_id) = Inr document
          \<and> header_value (tt_headers (ee_net E)) token = Some (aa_token auth)
          \<and> header_value (tt_headers (ee_net E)) (ee_b64 E document) = Some (aa_doc auth))"

lemma issuedI:
  assumes "get_e3_token (mo_config mo) (mo_link mo) cs = (Inr (token, token_id), cs')"
    and "token_headers E (mo_nsm mo) token token_id = Inr auth"
  shows "issued E mo token token_id auth"
  using assms unfolding issued_def
  by (intro conjI exI [of _ cs]) (auto simp: token_headers_def get_attestation_doc_token_def result_simps)

definition carries :: "'h headers_api \<Rightarrow> 'h client_request \<Rightarrow> AttestationAuth \<Rightarrow> bool" where
  "carries H q auth \<longleftrightarrow> hm_get H (cl_headers q) ''auth-token'' = Some (aa_token auth)
     \<and> hm_get H (cl_headers q) ''attestation-token'' = Some (aa_doc auth)"

fun issue_times :: "'h e3_event list \<Rightarrow> nat list" where
  "issue_times [] = []"
| "issue_times (TokenIssued t token token_id auth # es) = t # issue_times es"
| "issue_times (RequestSent t q # es) = issue_times es"

lemma issue_times_append [simp]: "issue_times (es @ es') = issue_times es @ issue_times es'"
  by (induction es rule: issue_times.induct) simp_all

lemma set_issue_times: "t \<in> set (issue_times es) \<longleftrightarrow> (\<exists>token token_id auth. TokenIssued t token token_id auth \<in> set es)"
  by (induction es rule: issue_times.induct) auto

definition is_crypto :: "'h client_request \<Rightarrow> bool" where
  "is_crypto q \<longleftrightarrow> cl_uri q \<in> {e3_uri ''/encrypt'', e3_uri ''/decrypt''}"

text \<open>
  The invariant of a run up to the time \<open>now\<close> with the moments \<open>M\<close>: what was sent had a fresh token, what is cached
  was issued, what was issued is cached as long as it is fresh, and no two tokens are fresh together.
\<close>

definition e3_inv ::
  "('h, 'c, 'w) e3_env \<Rightarrow> ('c \<Rightarrow> string \<Rightarrow> (AttestationAuth \<times> nat) option) \<Rightarrow> ('c \<Rightarrow> nat) \<Rightarrow> 's e3_moment set \<Rightarrow> nat
   \<Rightarrow> ('h, 'c, 's, 'w, 'f) e3_state \<Rightarrow> bool" where
  "e3_inv E entry lifespan M now st \<longleftrightarrow>
     lifespan (es_cache st) = 280
     \<and> (\<forall>t q. RequestSent t q \<in> set (es_log st) \<longrightarrow> is_crypto q \<longrightarrow>
          (\<exists>t' token token_id auth. TokenIssued t' token token_id auth \<in> set (es_log st) \<and> t' \<le> t \<and> t < t' + 280000
             \<and> carries (tt_headers (ee_net E)) q auth))
     \<and> (\<forall>a t. entry (es_cache st) ''e3_token'' = Some (a, t) \<longrightarrow>
          (\<exists>token token_id. TokenIssued t token token_id a \<in> set (es_log st)))
     \<and> (\<forall>t token token_id a. TokenIssued t token token_id a \<in> set (es_log st) \<longrightarrow>
          t \<le> now \<and> (now < t + 280000 \<longrightarrow> entry (es_cache st) ''e3_token'' = Some (a, t))
          \<and> (\<exists>mo \<in> M. mo_now mo = t \<and> issued E mo token token_id a))
     \<and> sorted_wrt (\<lambda>t t'. t + 280000 \<le> t') (issue_times (es_log st))"

lemma e3_invD:
  assumes "e3_inv E entry lifespan M now st"
  shows "lifespan (es_cache st) = 280"
    and "RequestSent t q \<in> set (es_log st) \<Longrightarrow> is_crypto q \<Longrightarrow>
      \<exists>t' token token_id auth. TokenIssued t' token token_id auth \<in> set (es_log st) \<and> t' \<le> t \<and> t < t' + 280000
        \<and> carries (tt_headers (ee_net E)) q auth"
    and "entry (es_cache st) ''e3_token'' = Some (a, t) \<Longrightarrow> \<exists>token token_id. TokenIssued t token token_id a \<in> set (es_log st)"
    and "TokenIssued t token token_id a \<in> set (es_log st) \<Longrightarrow> t \<le> now"
    and "TokenIssued t token token_id a \<in> set (es_log st) \<Longrightarrow> now < t + 280000 \<Longrightarrow> entry (es_cache st) ''e3_token'' = Some (a, t)"
    and "TokenIssued t token token_id a \<in> set (es_log st) \<Longrightarrow> \<exists>mo \<in> M. mo_now mo = t \<and> issued E mo token token_id a"
    and "sorted_wrt (\<lambda>t t'. t + 280000 \<le> t') (issue_times (es_log st))"
  using assms unfolding e3_inv_def by - (elim conjE; blast)+

lemma e3_invI:
  assumes "lifespan (es_cache st) = 280"
    and "\<And>t q. RequestSent t q \<in> set (es_log st) \<Longrightarrow> is_crypto q \<Longrightarrow>
      \<exists>t' token token_id auth. TokenIssued t' token token_id auth \<in> set (es_log st) \<and> t' \<le> t \<and> t < t' + 280000
        \<and> carries (tt_headers (ee_net E)) q auth"
    and "\<And>a t. entry (es_cache st) ''e3_token'' = Some (a, t) \<Longrightarrow> \<exists>token token_id. TokenIssued t token token_id a \<in> set (es_log st)"
    and "\<And>t token token_id a. TokenIssued t token token_id a \<in> set (es_log st) \<Longrightarrow> t \<le> now"
    and "\<And>t token token_id a. TokenIssued t token token_id a \<in> set (es_log st) \<Longrightarrow> now < t + 280000 \<Longrightarrow> entry (es_cache st) ''e3_token'' = Some (a, t)"
    and "\<And>t token token_id a. TokenIssued t token token_id a \<in> set (es_log st) \<Longrightarrow> \<exists>mo \<in> M. mo_now mo = t \<and> issued E mo token token_id a"
    and "sorted_wrt (\<lambda>t t'. t + 280000 \<le> t') (issue_times (es_log st))"
  shows "e3_inv E entry lifespan M now st"
  unfolding e3_inv_def using assms by blast

lemma e3_inv_mono:
  assumes I: "e3_inv E entry lifespan M now st" and "M \<subseteq> M'" and "now \<le> now'"
  shows "e3_inv E entry lifespan M' now' st"
proof (rule e3_invI)
  fix t token token_id a assume t: "TokenIssued t token token_id a \<in> set (es_log st)"
  show "t \<le> now'" using e3_invD(4) [OF I t] assms(3) by simp
  show "now' < t + 280000 \<Longrightarrow> entry (es_cache st) ''e3_token'' = Some (a, t)" using e3_invD(5) [OF I t] assms(3) by simp
  show "\<exists>mo \<in> M'. mo_now mo = t \<and> issued E mo token token_id a" using e3_invD(6) [OF I t] assms(2) by blast
qed (use e3_invD [OF I] in blast)+

lemma fresh_secs: "t \<le> now \<Longrightarrow> (now - t) div 1000 < 280 \<longleftrightarrow> now < t + (280000 :: nat)"
  by (simp add: div_less_iff_less_mult) linarith

context timed_cache
begin

lemma e3_inv_start:
  assumes "ee_cache E = T"
  shows "e3_inv E entry lifespan {} 0 (e3_start E cs w)"
  by (simp add: e3_inv_def e3_start_def E3_TOKEN_def assms new_entry new_lifespan E3_TOKEN_LIFETIME_def)

text \<open>A token that is stored when all earlier ones have expired keeps the invariant.\<close>

lemma issue_inv:
  assumes I: "e3_inv E entry lifespan M (mo_now mo) st" and "lifespan c = 280"
    and old: "\<And>t token token_id a. TokenIssued t token token_id a \<in> set (es_log st) \<Longrightarrow> t + 280000 \<le> mo_now mo"
    and new: "issued E mo token token_id a" and "mo \<in> M"
  shows "e3_inv E entry lifespan M (mo_now mo) (st\<lparr>es_cache := tca_set T ''e3_token'' a (mo_now mo) c, es_config := cs,
    es_log := es_log st @ [TokenIssued (mo_now mo) token token_id a]\<rparr>)" (is "e3_inv E entry lifespan M _ ?st")
proof (rule e3_invI)
  show "lifespan (es_cache ?st) = 280" by (simp add: set_lifespan assms(2))
  show "sorted_wrt (\<lambda>t t'. t + 280000 \<le> t') (issue_times (es_log ?st))"
    using e3_invD(7) [OF I] old by (auto simp: sorted_wrt_append set_issue_times)
next
  fix t q assume "RequestSent t q \<in> set (es_log ?st)" "is_crypto q"
  then show "\<exists>t' token token_id auth. TokenIssued t' token token_id auth \<in> set (es_log ?st) \<and> t' \<le> t \<and> t < t' + 280000
    \<and> carries (tt_headers (ee_net E)) q auth" using e3_invD(2) [OF I, of t q] by simp blast
next
  fix t token' token_id' a' assume "TokenIssued t token' token_id' a' \<in> set (es_log ?st)"
  then consider "TokenIssued t token' token_id' a' \<in> set (es_log st)"
    | "t = mo_now mo" "token' = token" "token_id' = token_id" "a' = a" by auto
  then show "t \<le> mo_now mo" "mo_now mo < t + 280000 \<Longrightarrow> entry (es_cache ?st) ''e3_token'' = Some (a', t)"
    "\<exists>mo \<in> M. mo_now mo = t \<and> issued E mo token' token_id' a'"
    using old e3_invD(6) [OF I] new \<open>mo \<in> M\<close> by (cases; fastforce simp: set_entry)+
qed (auto simp: set_entry)

lemma token_inv:
  assumes "ee_cache E = T" and "mo \<in> M" and I: "e3_inv E entry lifespan M (mo_now mo) st" and g: "token_client_get_token E mo st = (r, st')"
  shows "e3_inv E entry lifespan M (mo_now mo) st' \<and>
    (r = Inr auth \<longrightarrow> (\<exists>t token token_id. TokenIssued t token token_id auth \<in> set (es_log st') \<and> t \<le> mo_now mo \<and> mo_now mo < t + 280000))"
proof -
  obtain v c where vc: "tca_get T ''e3_token'' (mo_now mo) (es_cache st) = (v, c)" by fastforce
  have life: "lifespan (es_cache st) = 280" "lifespan c = 280"
    using e3_invD(1) [OF I] get_lifespan [of "''e3_token''" "mo_now mo" "es_cache st"] by (simp_all add: vc)
  note found = get_value [of "''e3_token''" "mo_now mo" "es_cache st", unfolded vc life fst_conv]
  show "e3_inv E entry lifespan M (mo_now mo) st' \<and>
    (r = Inr auth \<longrightarrow> (\<exists>t token token_id. TokenIssued t token token_id auth \<in> set (es_log st') \<and> t \<le> mo_now mo \<and> mo_now mo < t + 280000))"
  proof (cases v)
    case (Some a)
    then obtain t where e: "entry (es_cache st) ''e3_token'' = Some (a, t)" "(mo_now mo - t) div 1000 < 280"
      using found by (auto split: option.splits if_splits)
    obtain token token_id where t: "TokenIssued t token token_id a \<in> set (es_log st)" using e3_invD(3) [OF I e(1)] by blast
    have same: "entry c ''e3_token'' = entry (es_cache st) ''e3_token''"
      using get_hit [of "''e3_token''" "mo_now mo" "es_cache st" a] by (simp add: vc Some)
    have g': "r = Inr a" "st' = st\<lparr>es_cache := c\<rparr>" using g by (simp_all add: token_client_get_token_def assms(1) vc Some)
    have "e3_inv E entry lifespan M (mo_now mo) st'"
      using e3_invD [OF I] by (intro e3_invI) (simp_all add: g' same life)
    then show ?thesis using t fresh_secs e3_invD(4) [OF I t] e(2) by (auto simp: g')
  next
    case None
    have old: "t + 280000 \<le> mo_now mo" if "TokenIssued t token token_id a \<in> set (es_log st)" for t token token_id a
    proof (rule ccontr)
      assume "\<not> t + 280000 \<le> mo_now mo"
      with e3_invD(4,5) [OF I that] fresh_secs found show False by (simp add: None split: if_splits)
    qed
    have ce: "entry c ''e3_token'' \<in> {None, entry (es_cache st) ''e3_token''}"
      using get_miss [of "''e3_token''" "mo_now mo" "es_cache st"] by (simp add: vc None)
    obtain q cs where q: "get_e3_token (mo_config mo) (mo_link mo) (es_config st) = (q, cs)" by fastforce
    have missed: "e3_inv E entry lifespan M (mo_now mo) (st\<lparr>es_cache := c, es_config := cs\<rparr>)"
      using e3_invD [OF I] ce old by (intro e3_invI) (fastforce simp: life)+
    show ?thesis
    proof (cases "\<exists>token token_id a. q = Inr (token, token_id) \<and> token_headers E (mo_nsm mo) token token_id = Inr a")
      case True
      then obtain token token_id a where
        q': "q = Inr (token, token_id)" "token_headers E (mo_nsm mo) token token_id = Inr a" by blast
      have g': "r = Inr a" "st' = st\<lparr>es_cache := tca_set T ''e3_token'' a (mo_now mo) c, es_config := cs,
          es_log := es_log st @ [TokenIssued (mo_now mo) token token_id a]\<rparr>"
        using g by (simp_all add: token_client_get_token_def assms(1) vc None q q')
      have new: "issued E mo token token_id a" using q q' by (auto intro: issuedI)
      have "e3_inv E entry lifespan M (mo_now mo) st'"
        unfolding g'(2) by (rule issue_inv [OF I life(2) old new \<open>mo \<in> M\<close>])
      moreover have "TokenIssued (mo_now mo) token token_id a \<in> set (es_log st')" by (simp add: g')
      moreover have "mo_now mo < mo_now mo + 280000" by simp
      ultimately show ?thesis using g'(1) by blast
    next
      case False
      then have "st' = st\<lparr>es_cache := c, es_config := cs\<rparr>" "\<nexists>a. r = Inr a"
        using g by (auto simp: token_client_get_token_def assms(1) vc None q split: sum.splits prod.splits)
      then show ?thesis using missed by auto
    qed
  qed
qed

lemma carries_add_auth: "header_map H \<Longrightarrow> carries H (add_auth H (Some (AttestationDoc auth)) req) auth"
  by (simp add: carries_def header_map.attestation_headers)

text \<open>Sending adds at most one request, and a request with a token that is fresh keeps the invariant.\<close>

lemma e3_send_log:
  assumes "e3_send E mo a path body headers st = (r, st')"
  shows "es_cache st' = es_cache st"
    and "es_log st' = es_log st \<or> (\<exists>req. es_log st' = es_log st @ [RequestSent (mo_now mo) (add_auth (tt_headers (ee_net E)) (Some a) req)]
      \<and> cl_uri req = e3_uri path)"
proof -
  obtain res sent w where b: "base_send (ee_net E) e3_base_client (Some a) ''POST'' (e3_uri path) body headers (es_world st) = (res, sent, w)"
    by (metis prod_cases3)
  note eq = assms [unfolded e3_send_def b prod.case]
  show "es_cache st' = es_cache st" using eq by auto
  show "es_log st' = es_log st \<or> (\<exists>req. es_log st' = es_log st @ [RequestSent (mo_now mo) (add_auth (tt_headers (ee_net E)) (Some a) req)]
      \<and> cl_uri req = e3_uri path)"
  proof (cases sent)
    case (Some q)
    then obtain req where req: "build_client_request (ee_net E) ''POST'' (e3_uri path) body headers = Some req"
      "q = add_auth (tt_headers (ee_net E)) (Some a) req" using base_send_sent [OF b [unfolded Some]] by blast
    have "es_log st' = es_log st @ [RequestSent (mo_now mo) q]" using eq Some by auto
    then show ?thesis using req build_client_request_fields(2) [OF req(1)] by blast
  qed (use eq in auto)
qed

lemma e3_inv_sent:
  assumes I: "e3_inv E entry lifespan M now st" and "es_cache st' = es_cache st"
    and log: "es_log st' = es_log st @ [RequestSent now q]"
    and q: "is_crypto q \<Longrightarrow> \<exists>t token token_id auth. TokenIssued t token token_id auth \<in> set (es_log st) \<and> t \<le> now \<and> now < t + 280000
      \<and> carries (tt_headers (ee_net E)) q auth"
  shows "e3_inv E entry lifespan M now st'"
proof (rule e3_invI)
  fix t q' assume "RequestSent t q' \<in> set (es_log st')" "is_crypto q'"
  then consider "RequestSent t q' \<in> set (es_log st)" "is_crypto q'" | "t = now" "q' = q" "is_crypto q" by (auto simp: log)
  then show "\<exists>t' token token_id auth. TokenIssued t' token token_id auth \<in> set (es_log st') \<and> t' \<le> t \<and> t < t' + 280000
      \<and> carries (tt_headers (ee_net E)) q' auth"
    using e3_invD(2) [OF I] q by cases (simp_all add: log)
qed (use e3_invD [OF I] in \<open>auto simp: log assms(2)\<close>)

lemma e3_inv_same:
  "e3_inv E entry lifespan M now st \<Longrightarrow> es_cache st' = es_cache st \<Longrightarrow> es_log st' = es_log st \<Longrightarrow> e3_inv E entry lifespan M now st'"
  by (simp add: e3_inv_def)

lemma e3_send_inv:
  assumes H: "header_map (tt_headers (ee_net E))" and I: "e3_inv E entry lifespan M (mo_now mo) st"
    and s: "e3_send E mo a path body headers st = (r, st')"
    and a: "(\<exists>t token token_id auth. a = AttestationDoc auth \<and> TokenIssued t token token_id auth \<in> set (es_log st)
        \<and> t \<le> mo_now mo \<and> mo_now mo < t + 280000) \<or> path = ''/authenticate''"
  shows "e3_inv E entry lifespan M (mo_now mo) st'"
  using e3_send_log(2) [OF s]
proof
  assume "\<exists>req. es_log st' = es_log st @ [RequestSent (mo_now mo) (add_auth (tt_headers (ee_net E)) (Some a) req)] \<and> cl_uri req = e3_uri path"
  then obtain req where l: "es_log st' = es_log st @ [RequestSent (mo_now mo) (add_auth (tt_headers (ee_net E)) (Some a) req)]"
    and u: "cl_uri req = e3_uri path" by blast
  show ?thesis
  proof (rule e3_inv_sent [OF I e3_send_log(1) [OF s] l])
    assume "is_crypto (add_auth (tt_headers (ee_net E)) (Some a) req)"
    with u have "path \<noteq> ''/authenticate''" by (auto simp: is_crypto_def e3_uri_def)
    with a show "\<exists>t token token_id auth. TokenIssued t token token_id auth \<in> set (es_log st) \<and> t \<le> mo_now mo \<and> mo_now mo < t + 280000
      \<and> carries (tt_headers (ee_net E)) (add_auth (tt_headers (ee_net E)) (Some a) req) auth"
      using carries_add_auth [OF H] by blast
  qed
qed (rule e3_inv_same [OF I e3_send_log(1) [OF s]])

lemma crypto_call_inv:
  assumes "ee_cache E = T" and "header_map (tt_headers (ee_net E))" and "mo \<in> M"
    and I: "e3_inv E entry lifespan M (mo_now mo) st"
  shows "e3_inv E entry lifespan M (mo_now mo) (snd (crypto_call E mo path headers metrics parse payload st))"
proof -
  obtain r st1 where g: "token_client_get_token E mo st = (r, st1)" by fastforce
  note I1 = token_inv [OF assms(1,3) I g]
  show ?thesis
  proof (cases "\<exists>token body. r = Inr token \<and> payload = Some body")
    case True
    then obtain token body where r: "r = Inr token" "payload = Some body" by blast
    obtain x st2 where s: "e3_send E mo (AttestationDoc token) path body headers st1 = (x, st2)" by fastforce
    have "e3_inv E entry lifespan M (mo_now mo) st2"
      using e3_send_inv [OF assms(2) conjunct1 [OF I1] s] I1 r by blast
    then have "e3_inv E entry lifespan M (mo_now mo) (st2\<lparr>es_metrics := ms\<rparr>)" for ms by (rule e3_inv_same) simp_all
    with \<open>e3_inv E entry lifespan M (mo_now mo) st2\<close> show ?thesis
      by (simp add: crypto_call_def g r s split: option.splits sum.splits)
  next
    case False
    then show ?thesis using I1 by (auto simp: crypto_call_def g split: option.splits sum.splits)
  qed
qed

lemma e3_attempt_inv:
  assumes "ee_cache E = T" and "header_map (tt_headers (ee_net E))" and "mo \<in> M"
    and I: "e3_inv E entry lifespan M (mo_now mo) st"
  shows "e3_inv E entry lifespan M (mo_now mo) (e3_attempt E (op, mo) st)"
proof (cases op)
  case (AuthenticateOp key payload)
  then show ?thesis
    using I e3_send_inv [OF assms(2) I, of "ApiKey key" "''/authenticate''"]
    by (auto simp: e3_authenticate_def split: option.splits prod.splits)
qed (simp_all add: e3_encrypt_def e3_decrypt_def Let_def crypto_call_inv assms)

lemma e3_run_inv:
  assumes "ee_cache E = T" and "header_map (tt_headers (ee_net E))"
    and "sorted (map (mo_now \<circ> snd) ops)" and "e3_inv E entry lifespan M now st" and "\<forall>x \<in> set ops. now \<le> mo_now (snd x)"
  shows "\<exists>now'. e3_inv E entry lifespan (M \<union> snd ` set ops) now' (e3_run E ops st)"
  using assms(3-)
proof (induction ops arbitrary: st M now)
  case (Cons x ops)
  obtain op mo where x: "x = (op, mo)" by (cases x)
  have "e3_inv E entry lifespan (insert mo M) (mo_now mo) (e3_attempt E x st)"
    unfolding x using Cons.prems by (intro e3_attempt_inv [OF assms(1,2)] e3_inv_mono [OF Cons.prems(2)]) (auto simp: x)
  from Cons.IH [OF _ this] Cons.prems(1) show ?case by (auto simp: x e3_run_def)
qed (auto simp: e3_run_def)

lemma e3_run_start:
  assumes "ee_cache E = T" and "header_map (tt_headers (ee_net E))" and "sorted (map (mo_now \<circ> snd) ops)"
  shows "\<exists>now. e3_inv E entry lifespan (snd ` set ops) now (e3_run E ops (e3_start E cs w))"
  using e3_run_inv [OF assms e3_inv_start [OF assms(1), of cs w]] by simp

end

text \<open>
  (C10) Every request for encryption or decryption that leaves the enclave is authenticated by a token of the
  configuration server and an attestation document over the identifier of that same token, both obtained at one
  moment of the run less than 280 seconds before the request was sent; a failed call, a lost connection or an
  expired entry of the cache never leads to a request without them or with a token and document of different
  origin.
\<close>

theorem e3_requests_carry_bound_token:
  assumes "timed_cache (ee_cache E) entry lifespan" and "header_map (tt_headers (ee_net E))"
    and "sorted (map (mo_now \<circ> snd) ops)"
    and "st = e3_run E ops (e3_start E cs w)" and "RequestSent t q \<in> set (es_log st)"
    and "cl_uri q \<in> {e3_uri ''/encrypt'', e3_uri ''/decrypt''}"
  shows "\<exists>mo token token_id auth. mo \<in> snd ` set ops \<and> issued E mo token token_id auth
    \<and> mo_now mo \<le> t \<and> t < mo_now mo + 280000 \<and> carries (tt_headers (ee_net E)) q auth"
proof -
  obtain now where I: "e3_inv E entry lifespan (snd ` set ops) now st"
    using timed_cache.e3_run_start [OF assms(1) refl assms(2,3)] unfolding assms(4) by blast
  have "is_crypto q" using assms(6) by (simp add: is_crypto_def)
  then obtain t' token token_id auth where "TokenIssued t' token token_id auth \<in> set (es_log st)" "t' \<le> t" "t < t' + 280000"
    "carries (tt_headers (ee_net E)) q auth" using e3_invD(2) [OF I assms(5)] by blast
  with e3_invD(6) [OF I this(1)] show ?thesis by auto
qed

text \<open>
  The token is fetched at most once in 280 seconds: any two tokens that were obtained and cached in a run are
  at least 280 seconds apart, however many requests were made and failed in between.
\<close>

theorem tokens_issued_apart:
  assumes "timed_cache (ee_cache E) entry lifespan" and "header_map (tt_headers (ee_net E))"
    and "sorted (map (mo_now \<circ> snd) ops)" and "st = e3_run E ops (e3_start E cs w)"
  shows "sorted_wrt (\<lambda>t t'. t + 280000 \<le> t') (issue_times (es_log st))"
  using timed_cache.e3_run_start [OF assms(1) refl assms(2,3)] e3_invD(7) unfolding assms(4) by blast

section \<open>Retries\<close>

text \<open>
  What \<open>tokio_retry\<close> documents: the attempt is made at most once more than the strategy has delays, again only after an
  error, and the result is that of the last attempt.
\<close>

locale tokio_retry =
  fixes spawn :: "('m, 'st, 'a) retry"
  assumes spawn_last: "\<exists>n \<le> retries. spawn f mos retries st = f (mos n) (fold (\<lambda>i. snd \<circ> f (mos i)) [0..<n] st)
     \<and> (\<forall>i < n. \<exists>e. fst (f (mos i) (fold (\<lambda>i. snd \<circ> f (mos i)) [0..<i] st)) = Some (Inl e))
     \<and> (n < retries \<longrightarrow> (\<nexists>e. fst (spawn f mos retries st) = Some (Inl e)))"
begin

lemma spawn_no_panic: "(\<And>m st. fst (f m st) \<noteq> None) \<Longrightarrow> fst (spawn f mos n st) \<noteq> None"
  using spawn_last [of n f mos st] by auto

lemma spawn_attempts: "\<exists>n \<le> retries. snd (spawn f mos retries st) = fold (\<lambda>i. snd \<circ> f (mos i)) [0..<Suc n] st"
  using spawn_last [of retries f mos st] by auto

end

text \<open>A strategy that is followed literally, for the examples.\<close>

fun retry_ref :: "('m, 'st, 'a) retry" where
  "retry_ref f mos 0 st = f (mos 0) st"
| "retry_ref f mos (Suc retries) st =
     (case f (mos 0) st of
        (Some (Inl e), st') \<Rightarrow> retry_ref f (\<lambda>i. mos (Suc i)) retries st'
      | r \<Rightarrow> r)"

lemma retry_ref_unroll:
  "\<exists>n \<le> retries. retry_ref f mos retries st = f (mos n) (fold (\<lambda>i. snd \<circ> f (mos i)) [0..<n] st)
     \<and> (\<forall>i < n. \<exists>e. fst (f (mos i) (fold (\<lambda>i. snd \<circ> f (mos i)) [0..<i] st)) = Some (Inl e))
     \<and> (n < retries \<longrightarrow> (\<nexists>e. fst (retry_ref f mos retries st) = Some (Inl e)))"
proof (induction retries arbitrary: mos st)
  case (Suc retries)
  obtain r st' where f: "f (mos 0) st = (r, st')" by fastforce
  have shift: "fold (\<lambda>i. snd \<circ> f (mos i)) [0..<Suc i] st = fold (\<lambda>i. snd \<circ> f (mos (Suc i))) [0..<i] st'" for i
    by (induction i) (simp_all add: f)
  show ?case
  proof (cases "\<exists>e. r = Some (Inl e)")
    case True
    then obtain e where r: "r = Some (Inl e)" by blast
    obtain n where n: "n \<le> retries"
      "retry_ref f (\<lambda>i. mos (Suc i)) retries st' = f (mos (Suc n)) (fold (\<lambda>i. snd \<circ> f (mos (Suc i))) [0..<n] st')"
      "\<forall>i < n. \<exists>e. fst (f (mos (Suc i)) (fold (\<lambda>i. snd \<circ> f (mos (Suc i))) [0..<i] st')) = Some (Inl e)"
      "n < retries \<longrightarrow> (\<nexists>e. fst (retry_ref f (\<lambda>i. mos (Suc i)) retries st') = Some (Inl e))"
      using Suc.IH [of "\<lambda>i. mos (Suc i)" st'] by blast
    have "\<exists>e. fst (f (mos i) (fold (\<lambda>i. snd \<circ> f (mos i)) [0..<i] st)) = Some (Inl e)" if "i < Suc n" for i
    proof (cases i)
      case (Suc j)
      with n(3) that show ?thesis unfolding Suc shift by auto
    qed (simp add: f r)
    then have failed: "\<forall>i < Suc n. \<exists>e. fst (f (mos i) (fold (\<lambda>i. snd \<circ> f (mos i)) [0..<i] st)) = Some (Inl e)" by blast
    have eq: "retry_ref f mos (Suc retries) st = retry_ref f (\<lambda>i. mos (Suc i)) retries st'" by (simp add: f r)
    have "Suc n < Suc retries \<longrightarrow> (\<nexists>e. fst (retry_ref f mos (Suc retries) st) = Some (Inl e))" using n(4) eq by simp
    with failed n(1) n(2) [folded eq shift] show ?thesis by blast
  next
    case False
    then have "retry_ref f mos (Suc retries) st = f (mos 0) st"
      by (simp add: f split: option.splits sum.splits)
    with False show ?thesis by (intro exI [of _ 0]) (simp add: f)
  qed
qed auto

interpretation retry_impl: tokio_retry retry_ref
  by unfold_locales (rule retry_ref_unroll)

lemma crypto_call_state_parse:
  "snd (crypto_call E mo path headers metrics parse payload st) = snd (crypto_call E mo path headers metrics parse' payload st)"
  by (auto simp: crypto_call_def split: option.splits sum.splits prod.splits)

lemma e3_attempt_decrypt: "e3_attempt E (DecryptOp payload, mo) = snd \<circ> e3_decrypt E parse payload mo"
  unfolding fun_eq_iff e3_attempt.simps comp_apply e3_decrypt_def by (blast intro: crypto_call_state_parse)

lemma e3_attempt_encrypt: "e3_attempt E (EncryptOp payload role, mo) = snd \<circ> e3_encrypt E parse payload role mo"
  unfolding fun_eq_iff e3_attempt.simps comp_apply e3_encrypt_def Let_def by (blast intro: crypto_call_state_parse)

lemma decrypt_attempts:
  "e3_run E (map (\<lambda>i. (DecryptOp payload, mos i)) [0..<n]) st = fold (\<lambda>i. snd \<circ> e3_decrypt E parse payload (mos i)) [0..<n] st"
  unfolding e3_run_def fold_map comp_def [of "e3_attempt E"] e3_attempt_decrypt [of E payload _ parse] by (rule refl)

lemma encrypt_attempts:
  "e3_run E (map (\<lambda>i. (EncryptOp payload role, mos i)) [0..<n]) st = fold (\<lambda>i. snd \<circ> e3_encrypt E parse payload role (mos i)) [0..<n] st"
  unfolding e3_run_def fold_map comp_def [of "e3_attempt E"] e3_attempt_encrypt [of E payload role _ parse] by (rule refl)

text \<open>
  To the state, a call with retries is a run of at most one attempt more than its retries, so that what holds after every run
  of attempts also holds after calls with retries.
\<close>

theorem retries_are_attempts:
  assumes "tokio_retry spawn"
  shows "\<exists>n \<le> retries. snd (decrypt_with_retries spawn E parse retries payload mos st)
      = e3_run E (map (\<lambda>i. (DecryptOp payload, mos i)) [0..<Suc n]) st"
    and "\<exists>n \<le> retries. snd (encrypt_with_retries spawn E parse retries payload role mos st)
      = e3_run E (map (\<lambda>i. (EncryptOp payload role, mos i)) [0..<Suc n]) st"
  unfolding decrypt_with_retries_def encrypt_with_retries_def
    decrypt_attempts [of E payload _ _ _ parse] encrypt_attempts [of E payload role _ _ _ parse]
  by (rule tokio_retry.spawn_attempts [OF assms])+

section \<open>An example\<close>

text \<open>The first attempt finds no connection to the configuration server, the second obtains the token, the third has it cached.\<close>

definition sample_net :: "((string \<times> bytes) list, unit) tls_transport" where
  "sample_net =
     \<lparr>tt_headers = ref_headers, tt_valid_uri = (\<lambda>_. True), tt_valid_method = (\<lambda>_. True), tt_version = Some ''1.2'',
      tt_socket = (\<lambda>_ w. (True, w)), tt_peer = (\<lambda>n w. (Some \<lparr>pc_end_entity = [], pc_intermediates = [], pc_server_name = n, pc_ocsp_response = []\<rparr>, w)),
      tt_handshake = (\<lambda>w. (True, w)), tt_exchange = (\<lambda>q w. (Some \<lparr>cp_status = 200, cp_body = Some ''ok''\<rparr>, w))\<rparr>"

definition sample_e3 :: "((string \<times> bytes) list, one_cache, unit) e3_env" where
  "sample_e3 = \<lparr>ee_net = sample_net, ee_cache = one_cache, ee_b64 = id, ee_show = (\<lambda>_. ''error''), ee_stats = True\<rparr>"

definition sample_moment :: "nat \<Rightarrow> link \<Rightarrow> alist_store e3_moment" where
  "sample_moment t l =
     \<lparr>mo_now = t, mo_link = l,
      mo_config = sample_config\<lparr>cf_provisioner := (cf_provisioner sample_config)\<lparr>pv_send := (\<lambda>_ _. Inr (200, [])), pv_e3_token := (\<lambda>_. Some (''tok'', ''id''))\<rparr>\<rparr>,
      mo_nsm = \<lparr>nsm_open = True, nsm_random = None, nsm_attest = (\<lambda>_ n. NsmDocument (''doc:'' @ n))\<rparr>,
      mo_context = Some \<lparr>ec_team_uuid = ''t'', ec_app_uuid = ''a'', ec_uuid = ''u'', ec_name = ''n''\<rparr>\<rparr>"

definition sample_e3_ops :: "(e3_op \<times> alist_store e3_moment) list" where
  "sample_e3_ops =
     [(DecryptOp (Some ''x''), sample_moment 0 NoConnection), (DecryptOp (Some ''x''), sample_moment 1 Delivered),
      (EncryptOp (Some ''y'') (Some ''role''), sample_moment 2 Delivered)]"

definition sample_e3_end :: "((string \<times> bytes) list, one_cache, alist_store, unit, nat) e3_state" where
  "sample_e3_end = e3_run sample_e3 sample_e3_ops (e3_start sample_e3 \<lparr>cs_store = (0, []), cs_logs = []\<rparr> ())"

definition sample_e3_auth :: AttestationAuth where "sample_e3_auth = \<lparr>aa_token = ''tok'', aa_doc = ''doc:id''\<rparr>"

definition sample_e3_request :: "(string \<times> bytes) list client_request" where
  "sample_e3_request =
     \<lparr>cl_method = ''POST'', cl_uri = e3_uri ''/encrypt'',
      cl_headers = [(''x-evervault-data-role'', ''role''), (''content-type'', ''application/json''), (''user-agent'', ''Cage-Data-Plane/1.2''),
        (''accept'', ''application/json;version=1''), (''attestation-token'', ''doc:id''), (''auth-token'', ''tok'')],
      cl_body = ''y''\<rparr>"

lemma sample_fetch:
  "get_e3_token (mo_config (sample_moment t l)) Delivered cs = (Inr (''tok'', ''id''), cs)"
  "get_e3_token (mo_config (sample_moment t l)) NoConnection cs = (Inl DpIo, cs)"
  using dec_enc_strs [of "[''tok'', ''id'']"]
  by (simp_all add: get_e3_token_def then_parse_def client_send_def Let_def handle_incoming_request_def handle_token_request_def
      provisioner_get_token_def get_token_request_metadata_from_env_def provisioner_send_def sample_moment_def sample_config_def
      is_success_def build_success_response_def parse_response_def ref_json_def two_fields_def)

lemma sample_values:
  "header_value ref_headers ''tok'' = Some ''tok''" "header_value ref_headers ''doc:id'' = Some ''doc:id''"
  "header_value ref_headers ''role'' = Some ''role''"
  "list_all (\<lambda>(k, v). header_value ref_headers v \<noteq> None) (std_headers sample_net)"
  by code_simp+

lemma sample_token: "token_headers sample_e3 (mo_nsm (sample_moment t l)) ''tok'' ''id'' = Inr sample_e3_auth"
  by (simp add: token_headers_def get_attestation_doc_token_def get_attestation_doc_def get_nonce_def sample_moment_def
      sample_e3_def sample_net_def sample_values sample_e3_auth_def)

lemma sample_e3_fields [simp]:
  "ee_net sample_e3 = sample_net" "tt_headers sample_net = ref_headers" "ee_cache sample_e3 = one_cache" "ee_stats sample_e3"
  "mo_now (sample_moment t l) = t" "tca_new one_cache n secs = (secs, None)"
  by (simp_all add: sample_e3_def sample_net_def sample_moment_def one_cache_def)

lemma sample_send:
  "e3_send sample_e3 mo (AttestationDoc a) path body headers st
    = (Some (Inr \<lparr>cp_status = 200, cp_body = Some ''ok''\<rparr>),
       st\<lparr>es_log := es_log st @ [RequestSent (mo_now mo) (add_auth ref_headers (Some (AttestationDoc a))
         (the (build_client_request sample_net ''POST'' (e3_uri path) body headers)))]\<rparr>)"
  using sample_values(4)
  by (simp add: e3_send_def base_send_def build_client_request_def Let_def sample_e3_def sample_net_def get_conn_def e3_base_client_def
      verify_open_def is_success_def)

lemma sample_get_token:
  assumes "es_cache st = (280, None)"
  shows "token_client_get_token sample_e3 (sample_moment t NoConnection) st = (Inl (TokError DpIo), st)"
    "token_client_get_token sample_e3 (sample_moment t Delivered) st
      = (Inr sample_e3_auth, st\<lparr>es_cache := (280, Some (''e3_token'', sample_e3_auth, t)),
           es_log := es_log st @ [TokenIssued t ''tok'' ''id'' sample_e3_auth]\<rparr>)"
  using assms sample_fetch [of t] sample_token
  by (simp_all add: token_client_get_token_def sample_e3_def one_cache_def one_entry_def sample_moment_def)

lemma sample_cached_token:
  assumes "es_cache st = (280, Some (''e3_token'', sample_e3_auth, t))" and "t' < t + 1000"
  shows "token_client_get_token sample_e3 (sample_moment t' l) st = (Inr sample_e3_auth, st)"
  using assms by (simp add: token_client_get_token_def sample_e3_def one_cache_def one_entry_def sample_moment_def)

lemma sample_request:
  "add_auth ref_headers (Some (AttestationDoc sample_e3_auth))
     (the (build_client_request sample_net ''POST'' (e3_uri ''/encrypt'') ''y'' (data_role_headers ref_headers (Some ''role'')))) = sample_e3_request"
  using sample_values(3,4)
  by (simp add: char_of_def bit_0 build_client_request_def data_role_headers_def add_auth_def sample_net_def sample_e3_request_def sample_e3_auth_def std_headers_def
      CLIENT_VERSION_def CLIENT_MAJOR_VERSION_def ref_headers_def ref_key_def ref_header_name_def is_ascii_alphanumeric_def to_lower_def Let_def)

lemma sample_e3_log:
  "\<exists>q. es_log sample_e3_end = [TokenIssued 1 ''tok'' ''id'' sample_e3_auth, RequestSent 1 q, RequestSent 2 sample_e3_request]"
  using sample_request
  by (simp add: sample_e3_end_def sample_e3_ops_def e3_run_def e3_decrypt_def e3_encrypt_def crypto_call_def e3_start_def
      E3_TOKEN_def E3_TOKEN_LIFETIME_def sample_get_token sample_cached_token sample_send sample_e3_fields
      record_decrypt_def record_encrypt_def publish_def)

lemma sample_e3_hyps:
  "timed_cache (ee_cache sample_e3) one_entry fst" "header_map (tt_headers (ee_net sample_e3))"
  "sorted (map (mo_now \<circ> snd) sample_e3_ops)"
  by (simp_all add: sample_e3_fields sample_e3_ops_def one_cache.timed_cache_axioms ref_hm.header_map_axioms)

theorem e3_requests_carry_bound_token_witness:
  "\<exists>mo token token_id auth. mo \<in> snd ` set sample_e3_ops \<and> issued sample_e3 mo token token_id auth
    \<and> mo_now mo \<le> 2 \<and> 2 < mo_now mo + 280000 \<and> carries ref_headers sample_e3_request auth"
proof -
  have sent: "RequestSent 2 sample_e3_request \<in> set (es_log sample_e3_end)" using sample_e3_log by auto
  have "cl_uri sample_e3_request \<in> {e3_uri ''/encrypt'', e3_uri ''/decrypt''}" by (simp add: sample_e3_request_def)
  from e3_requests_carry_bound_token [OF sample_e3_hyps sample_e3_end_def sent this] show ?thesis by simp
qed

theorem tokens_issued_apart_witness: "sorted_wrt (\<lambda>t t'. t + 280000 \<le> t') (issue_times (es_log sample_e3_end))"
  using tokens_issued_apart [OF sample_e3_hyps sample_e3_end_def] .

end
