(* ===== verification/Crypto_Api.thy ===== *)
theory Crypto_Api
  imports E3_Client
begin

text \<open>
  The API the user process calls for encryption, decryption and attestation documents
  (\<open>data-plane/src/crypto/api.rs\<close>), on top of the E3 client, and the random bytes of the secure module
  (\<open>data-plane/src/crypto/rand.rs\<close>). JSON, the texts of errors and \<open>Retry::spawn\<close> are parameters: a JSON value is of a type of
  its own. Dates in certificates (\<open>get_expiry_time\<close> of \<open>data-plane/src/crypto/attest.rs\<close>) are parsed with \<open>chrono\<close>,
  also a parameter. A panic is \<open>Panic\<close> or \<open>None\<close>.
\<close>

section \<open>Errors\<close>

datatype CryptoApiError =
    CaMissingEnclaveContext
  | CaSerdeError string
  | CaHyperError
  | CaClientError ClientError
  | CaAttestation AttestationError
  | CaNotFound
  | CaSerializationError
  | CaContextError
  | CaError DpError

record ('h, 'v) crypto_json =
  cy_from_slice :: "bytes \<Rightarrow> (string, 'v) result"
  cy_to_vec :: "'v \<Rightarrow> (string, bytes) result"
  cy_request :: "'v \<Rightarrow> bytes option"
  cy_response :: "bytes \<Rightarrow> 'v option"
  cy_attestation_request :: "'v \<Rightarrow> (string, string option \<times> string option) result"
  cy_show :: "CryptoApiError \<Rightarrow> string"

definition api_build_response :: "'h headers_api \<Rightarrow> nat \<Rightarrow> string \<Rightarrow> ('h, unit) http_response" where
  "api_build_response H status body =
     \<lparr>rs_version = ''HTTP/1.1'', rs_status = status,
      rs_headers = hm_append H ''content-length'' (show_nat (length body)) (hm_empty H), rs_body = Some body, rs_context = None\<rparr>"

definition api_error_response :: "'h headers_api \<Rightarrow> ('h, 'v) crypto_json \<Rightarrow> CryptoApiError \<Rightarrow> ('h, unit) http_response" where
  "api_error_response H J err =
     (case err of
        CaSerdeError error \<Rightarrow> api_build_response H 400 error
      | CaSerializationError \<Rightarrow> api_build_response H 400 (cy_show J err)
      | _ \<Rightarrow> api_build_response H 500 (cy_show J err))"

section \<open>Routes\<close>

definition api_build_request :: "('h, 'v) crypto_json \<Rightarrow> ('h, unit) http_request \<Rightarrow> (CryptoApiError, 'v) result" where
  "api_build_request J req =
     try_bind (ok_or CaHyperError (rq_body req)) (\<lambda>body_bytes.
       map_err (\<lambda>_. CaSerializationError) (cy_from_slice J body_bytes))"

text \<open>The data of the response as the body; a panic of the client passes through.\<close>

definition api_finish :: "('h, 'v) crypto_json \<Rightarrow> (ClientError, 'v) result option \<Rightarrow> (CryptoApiError, bytes) result option" where
  "api_finish J r = map_option (\<lambda>x. try_bind (map_err CaClientError x) (\<lambda>data. map_err CaSerdeError (cy_to_vec J data))) r"

definition api_encrypt ::
  "('s e3_moment, ('h, 'c, 's, 'w, 'f) e3_state, 'v) retry \<Rightarrow> ('h, 'c, 'w) e3_env \<Rightarrow> ('h, 'v) crypto_json \<Rightarrow> (nat \<Rightarrow> 's e3_moment) \<Rightarrow> ('h, unit) http_request \<Rightarrow> ('h, 'c, 's, 'w, 'f) e3_state
   \<Rightarrow> (CryptoApiError, bytes) result option \<times> ('h, 'c, 's, 'w, 'f) e3_state" where
  "api_encrypt spawn E J mos req st =
     (let H = tt_headers (ee_net E);
          data_role = Option.bind (hm_get H (rq_headers req) ''x-evervault-data-role'') (header_to_str H) in
      case api_build_request J req of
        Inl e \<Rightarrow> (Some (Inl e), st)
      | Inr request \<Rightarrow>
         map_prod (api_finish J) id (encrypt_with_retries spawn E (cy_response J) 2 (cy_request J request) data_role mos st))"

definition api_decrypt ::
  "('s e3_moment, ('h, 'c, 's, 'w, 'f) e3_state, 'v) retry \<Rightarrow> ('h, 'c, 'w) e3_env \<Rightarrow> ('h, 'v) crypto_json \<Rightarrow> (nat \<Rightarrow> 's e3_moment) \<Rightarrow> ('h, unit) http_request \<Rightarrow> ('h, 'c, 's, 'w, 'f) e3_state
   \<Rightarrow> (CryptoApiError, bytes) result option \<times> ('h, 'c, 's, 'w, 'f) e3_state" where
  "api_decrypt spawn E J mos req st =
     (case api_build_request J req of
        Inl e \<Rightarrow> (Some (Inl e), st)
      | Inr request \<Rightarrow>
         map_prod (api_finish J) id (decrypt_with_retries spawn E (cy_response J) 2 (cy_request J request) mos st))"

definition api_get_attestation_doc :: "('h, 'v) crypto_json \<Rightarrow> nsm \<Rightarrow> ('h, unit) http_request \<Rightarrow> (CryptoApiError, bytes) result" where
  "api_get_attestation_doc J M req =
     try_bind (ok_or CaHyperError (rq_body req)) (\<lambda>bytes.
     try_bind (map_err CaSerdeError (cy_from_slice J bytes)) (\<lambda>body.
     try_bind (map_err CaSerdeError (cy_attestation_request J body)) (\<lambda>(nonce, challenge).
       map_err CaAttestation (get_attestation_doc M challenge nonce))))"

definition crypto_api ::
  "('s e3_moment, ('h, 'c, 's, 'w, 'f) e3_state, 'v) retry \<Rightarrow> ('h, 'c, 'w) e3_env \<Rightarrow> ('h, 'v) crypto_json \<Rightarrow> (nat \<Rightarrow> 's e3_moment) \<Rightarrow> ('h, unit) http_request \<Rightarrow> ('h, 'c, 's, 'w, 'f) e3_state
   \<Rightarrow> ('h, unit) http_response outcome \<times> ('h, 'c, 's, 'w, 'f) e3_state" where
  "crypto_api spawn E J mos req st =
     (let H = tt_headers (ee_net E);
          (response, st') =
            (if rq_method req = ''POST'' \<and> rq_path req = ''/encrypt'' then api_encrypt spawn E J mos req st
             else if rq_method req = ''POST'' \<and> rq_path req = ''/decrypt'' then api_decrypt spawn E J mos req st
             else if rq_method req = ''POST'' \<and> rq_path req = ''/attestation-doc''
                  then (Some (api_get_attestation_doc J (mo_nsm (mos 0)) req), st)
             else (Some (Inl CaNotFound), st)) in
      (case response of
         None \<Rightarrow> Panic
       | Some (Inr body) \<Rightarrow> Answers \<lparr>rs_version = ''HTTP/1.1'', rs_status = 200, rs_headers = hm_empty H, rs_body = Some body, rs_context = None\<rparr>
       | Some (Inl error) \<Rightarrow> Answers (api_error_response H J error), st'))"

section \<open>Random bytes\<close>

datatype nsm_random_response = RandomBytes bytes | RandomError | RandomUnexpected

datatype RandError = RandNsmConnection | RandCrypto string

text \<open>\<open>copy_from_slice\<close> panics when the lengths differ.\<close>

definition rand_bytes :: "bool \<Rightarrow> nsm_random_response \<Rightarrow> bytes \<Rightarrow> (RandError, bytes) result option" where
  "rand_bytes opened response buffer =
     (if \<not> opened then Some (Inl RandNsmConnection)
      else (case response of
              RandomBytes random \<Rightarrow> if length random = length buffer then Some (Inr random) else None
            | RandomError \<Rightarrow> Some (Inl (RandCrypto ''Could not get entropy from the Nitro Secure Module!''))
            | RandomUnexpected \<Rightarrow> Some (Inl (RandCrypto ''Received unknown response from Nitro Secure Module''))))"

section \<open>Expiry of a document\<close>

text \<open>
  The chain of parsers: the signed message with its payload, the document with its certificate, and the end of
  that certificate as text. A date is parsed to local seconds with the rest of the text, which may name a zone
  (UTC when it does not); the zone gives the earliest instant with that local time, if there is one. An instant
  before 1970 becomes a huge duration that the clock cannot represent.
\<close>

record expiry_parsers =
  xp_cose :: "bytes \<Rightarrow> bytes option"
  xp_doc :: "bytes \<Rightarrow> bytes option"
  xp_not_after :: "bytes \<Rightarrow> string option"
  xp_naive :: "string \<Rightarrow> (int \<times> string) option"
  xp_zone :: "string \<Rightarrow> (int \<Rightarrow> int option) option"
  xp_utc :: "int \<Rightarrow> int option"

definition parse_not_after_date_time :: "expiry_parsers \<Rightarrow> string \<Rightarrow> (AttestationError, int) result" where
  "parse_not_after_date_time X not_after =
     try_bind (ok_or DateTimeParseError (xp_naive X not_after)) (\<lambda>(date_time, remainder).
       let tz = (case xp_zone X (str_trim remainder) of Some z \<Rightarrow> z | None \<Rightarrow> xp_utc X) in
       ok_or InvalidTimeError (tz date_time))"

definition get_expiry_time :: "expiry_parsers \<Rightarrow> bytes \<Rightarrow> (AttestationError, nat) result option" where
  "get_expiry_time X cose_sign_1_bytes =
     (case try_bind (ok_or CoseSign1ParseFailed (xp_cose X cose_sign_1_bytes)) (\<lambda>attestation_doc_bytes.
           try_bind (ok_or AttestationDocParseFailed (xp_doc X attestation_doc_bytes)) (\<lambda>certificate.
           try_bind (ok_or SigningCertParseFailed (xp_not_after X certificate)) (\<lambda>not_after.
             parse_not_after_date_time X not_after))) of
        Inl e \<Rightarrow> Some (Inl e)
      | Inr timestamp \<Rightarrow>
         (let secs = nat (timestamp mod 2 ^ 64) in if secs < 2 ^ 63 then Some (Inr secs) else None))"

section \<open>Answers\<close>

definition is_api_route :: "('h, 'x) http_request \<Rightarrow> bool" where
  "is_api_route req \<longleftrightarrow> rq_method req = ''POST'' \<and> rq_path req \<in> {''/encrypt'', ''/decrypt'', ''/attestation-doc''}"

text \<open>The statsd client is set and the builder accepts the requests to E3.\<close>

definition e3_ready :: "('h, 'c, 'w) e3_env \<Rightarrow> bool" where
  "e3_ready E \<longleftrightarrow> ee_stats E \<and> tt_valid_method (ee_net E) ''POST''
     \<and> tt_valid_uri (ee_net E) (e3_uri ''/encrypt'') \<and> tt_valid_uri (ee_net E) (e3_uri ''/decrypt'')
     \<and> list_all (\<lambda>(k, v). header_value (tt_headers (ee_net E)) v \<noteq> None) (std_headers (ee_net E))"

lemma base_send_no_panic:
  "build_client_request N meth url payload headers \<noteq> None \<Longrightarrow> fst (base_send N B a meth url payload headers w) \<noteq> None"
  by (auto simp: base_send_def Let_def split: option.splits sum.splits prod.splits)

lemma fst_e3_send:
  "fst (e3_send E mo a path body headers st)
    = fst (base_send (ee_net E) e3_base_client (Some a) ''POST'' (e3_uri path) body headers (es_world st))"
  by (simp add: e3_send_def split: prod.splits)

lemma e3_send_no_panic:
  assumes "e3_ready E" and "path \<in> {''/encrypt'', ''/decrypt''}"
  shows "fst (e3_send E mo a path body headers st) \<noteq> None"
proof -
  have "build_client_request (ee_net E) ''POST'' (e3_uri path) body headers \<noteq> None"
    using assms by (auto simp: build_client_request_def e3_ready_def Let_def)
  then show ?thesis unfolding fst_e3_send by (rule base_send_no_panic)
qed

lemma crypto_call_no_panic:
  assumes "e3_ready E" and "path \<in> {''/encrypt'', ''/decrypt''}" and "metrics True (mo_context mo) \<noteq> None"
  shows "fst (crypto_call E mo path headers metrics parse payload st) \<noteq> None"
proof -
  obtain r st1 where g: "token_client_get_token E mo st = (r, st1)" by fastforce
  have stats: "ee_stats E" using assms(1) by (simp add: e3_ready_def)
  show ?thesis
  proof (cases "\<exists>token body. r = Inr token \<and> payload = Some body")
    case True
    then obtain token body where r: "r = Inr token" "payload = Some body" by blast
    obtain x st2 where s: "e3_send E mo (AttestationDoc token) path body headers st1 = (x, st2)" by fastforce
    have "x \<noteq> None" using e3_send_no_panic [OF assms(1,2)] s by (metis fst_conv)
    then show ?thesis using assms(3) stats by (auto simp: crypto_call_def g r s split: option.splits sum.splits)
  qed (auto simp: crypto_call_def g split: option.splits sum.splits)
qed

lemma with_retries_no_panic:
  assumes "tokio_retry spawn" and "e3_ready E"
  shows "fst (decrypt_with_retries spawn E parse n payload mos st) \<noteq> None" "fst (encrypt_with_retries spawn E parse n payload role mos st) \<noteq> None"
  unfolding decrypt_with_retries_def encrypt_with_retries_def
  by (intro tokio_retry.spawn_no_panic [OF assms(1)]; simp add: e3_decrypt_def e3_encrypt_def Let_def crypto_call_no_panic assms(2) record_decrypt_def record_encrypt_def publish_def)+

lemma api_crypt_no_panic:
  assumes "tokio_retry spawn" and "e3_ready E"
  shows "fst (api_encrypt spawn E J mos req st) \<noteq> None" "fst (api_decrypt spawn E J mos req st) \<noteq> None"
  by (simp_all add: api_encrypt_def api_decrypt_def api_finish_def Let_def with_retries_no_panic [OF assms] del: not_None_eq split: sum.splits)

lemma api_error_status:
  "rs_status (api_error_response H J err) = (if (\<exists>m. err = CaSerdeError m) \<or> err = CaSerializationError then 400 else 500)"
  by (cases err) (simp_all add: api_error_response_def api_build_response_def)

text \<open>The body of a request is a JSON value.\<close>

definition json_body :: "('h, 'v) crypto_json \<Rightarrow> ('h, 'x) http_request \<Rightarrow> bool" where
  "json_body J req \<longleftrightarrow> (\<exists>b v. rq_body req = Some b \<and> cy_from_slice J b = Inr v)"

lemma api_crypt_bad_request:
  assumes "\<And>v. \<exists>b. cy_to_vec J v = Inr b"
  shows "fst (api_encrypt spawn E J mos req st) \<in> {Some (Inl CaSerializationError), Some (Inl (CaSerdeError m))} \<Longrightarrow> \<not> json_body J req"
    and "fst (api_decrypt spawn E J mos req st) \<in> {Some (Inl CaSerializationError), Some (Inl (CaSerdeError m))} \<Longrightarrow> \<not> json_body J req"
proof -
  have fin: "api_finish J r \<notin> {Some (Inl CaSerializationError), Some (Inl (CaSerdeError m))}" for r
  proof (cases r)
    case (Some x)
    have "map_err CaSerdeError (cy_to_vec J v) \<noteq> Inl e" for v e using assms [of v] by auto
    then show ?thesis by (cases x) (auto simp: api_finish_def Some)
  qed (simp add: api_finish_def)
  show "fst (api_encrypt spawn E J mos req st) \<in> {Some (Inl CaSerializationError), Some (Inl (CaSerdeError m))} \<Longrightarrow> \<not> json_body J req"
    "fst (api_decrypt spawn E J mos req st) \<in> {Some (Inl CaSerializationError), Some (Inl (CaSerdeError m))} \<Longrightarrow> \<not> json_body J req"
    using fin by (auto simp: api_encrypt_def api_decrypt_def json_body_def api_build_request_def Let_def split: sum.splits)
qed

text \<open>
  (C28) When the statsd client is set and the builder accepts the requests to E3, the API of the user process answers
  every request, with status 200, 400 or 500. A request that is for none of the three routes is answered with
  status 500, and no request is sent, no token obtained and no metric recorded for it. Status 400 means that the body
  is not the JSON the route expects; every failure of E3, of the token, of the secure module or of the connection
  is a status 500.
\<close>

theorem crypto_api_answers:
  assumes "tokio_retry spawn" and "e3_ready E" and "\<And>v. \<exists>b. cy_to_vec J v = Inr b"
  shows "\<exists>r st'. crypto_api spawn E J mos req st = (Answers r, st') \<and> rs_status r \<in> {200, 400, 500}
    \<and> (\<not> is_api_route req \<longrightarrow> rs_status r = 500 \<and> st' = st)
    \<and> (rs_status r = 400 \<longrightarrow> \<not> json_body J req
         \<or> rq_path req = ''/attestation-doc'' \<and> (\<exists>b v e. rq_body req = Some b \<and> cy_from_slice J b = Inr v \<and> cy_attestation_request J v = Inl e))"
proof -
  define res where "res = (if rq_method req = ''POST'' \<and> rq_path req = ''/encrypt'' then api_encrypt spawn E J mos req st
     else if rq_method req = ''POST'' \<and> rq_path req = ''/decrypt'' then api_decrypt spawn E J mos req st
     else if rq_method req = ''POST'' \<and> rq_path req = ''/attestation-doc'' then (Some (api_get_attestation_doc J (mo_nsm (mos 0)) req), st)
     else (Some (Inl CaNotFound), st))"
  have "fst res \<noteq> None"
    by (simp add: res_def api_crypt_no_panic [OF assms(1,2)] del: not_None_eq)
  then obtain x where x: "fst res = Some x" by blast
  have other: "x = Inl CaNotFound \<and> snd res = st" if "\<not> is_api_route req" using that x by (auto simp: res_def is_api_route_def)
  have bad: "\<not> json_body J req \<or> rq_path req = ''/attestation-doc'' \<and> (\<exists>b v e. rq_body req = Some b \<and> cy_from_slice J b = Inr v \<and> cy_attestation_request J v = Inl e)"
    if "x = Inl CaSerializationError \<or> x = Inl (CaSerdeError m)" for m
    using that x api_crypt_bad_request [OF assms(3), of spawn E mos req st m]
    by (auto simp: res_def api_get_attestation_doc_def json_body_def result_simps map_err_def ok_or_def split: if_splits sum.splits option.splits)
  have eq: "crypto_api spawn E J mos req st = (case x of Inr body \<Rightarrow> Answers \<lparr>rs_version = ''HTTP/1.1'', rs_status = 200,
        rs_headers = hm_empty (tt_headers (ee_net E)), rs_body = Some body, rs_context = None\<rparr>
      | Inl error \<Rightarrow> Answers (api_error_response (tt_headers (ee_net E)) J error), snd res)"
    unfolding crypto_api_def Let_def res_def [symmetric] using x by (cases res) (simp split: sum.splits)
  show ?thesis
    using other bad by (cases x) (auto simp: eq api_error_status)
qed

definition sample_crypto_json :: "((string \<times> bytes) list, bytes) crypto_json" where
  "sample_crypto_json =
     \<lparr>cy_from_slice = (\<lambda>b. if b = [] then Inl ''EOF'' else Inr b), cy_to_vec = Inr, cy_request = Some, cy_response = Some,
      cy_attestation_request = (\<lambda>_. Inr (None, None)), cy_show = (\<lambda>_. ''error'')\<rparr>"

definition sample_api_request :: "string \<Rightarrow> ((string \<times> bytes) list, unit) http_request" where
  "sample_api_request path =
     \<lparr>rq_method = ''POST'', rq_path = path, rq_query = None, rq_headers = [], rq_body = Some ''x'', rq_context = None, rq_remote_ip = None\<rparr>"

lemma sample_e3_ready: "e3_ready sample_e3"
  using sample_values(4) by (simp add: e3_ready_def) (simp add: sample_net_def)

theorem crypto_api_answers_witness:
  "\<exists>r st'. crypto_api retry_ref sample_e3 sample_crypto_json (\<lambda>i. sample_moment i Delivered) (sample_api_request ''/keys'') sample_e3_end = (Answers r, st')
    \<and> rs_status r = 500 \<and> st' = sample_e3_end"
proof -
  have "\<not> is_api_route (sample_api_request ''/keys'')" by (simp add: is_api_route_def sample_api_request_def)
  moreover have "\<exists>b. cy_to_vec sample_crypto_json v = Inr b" for v by (simp add: sample_crypto_json_def)
  ultimately show ?thesis
    using crypto_api_answers [OF retry_impl.tokio_retry_axioms sample_e3_ready, of sample_crypto_json "\<lambda>i. sample_moment i Delivered" "sample_api_request ''/keys''" sample_e3_end]
    by blast
qed

text \<open>A document the user process asks for is the one of the secure module over the challenge and the nonce of the request.\<close>

theorem attestation_doc_of_request:
  assumes "rq_method req = ''POST''" and "rq_path req = ''/attestation-doc''" and "rq_body req = Some b"
    and "cy_from_slice J b = Inr v" and "cy_attestation_request J v = Inr (Some nonce, challenge)"
    and "nsm_open (mo_nsm (mos 0))" and "nsm_attest (mo_nsm (mos 0)) challenge nonce = NsmDocument document"
  shows "\<exists>r. crypto_api spawn E J mos req st = (Answers r, st) \<and> rs_status r = 200 \<and> rs_body r = Some document"
  using assms by (simp add: crypto_api_def api_get_attestation_doc_def get_attestation_doc_def get_nonce_def)

text \<open>Random bytes of another number than the buffer holds are a panic.\<close>

theorem rand_bytes_panics_iff:
  "rand_bytes opened response buffer = None \<longleftrightarrow> opened \<and> (\<exists>random. response = RandomBytes random \<and> length random \<noteq> length buffer)"
  by (auto simp: rand_bytes_def split: nsm_random_response.splits)

text \<open>A certificate that ended before 1970 panics instead of being an error.\<close>

theorem old_expiry_panics:
  assumes "xp_cose X b = Some d" and "xp_doc X d = Some c" and "xp_not_after X c = Some na"
    and "parse_not_after_date_time X na = Inr t" and "- (2 ^ 63) \<le> t" and "t < 2 ^ 63"
  shows "get_expiry_time X b = (if t < 0 then None else Some (Inr (nat t)))"
proof -
  have "t mod 2 ^ 64 = (if t < 0 then t + 2 ^ 64 else t)"
  proof (cases "t < 0")
    case True
    have "t mod 2 ^ 64 = (t + 2 ^ 64) mod 2 ^ 64" by simp
    also have "\<dots> = t + 2 ^ 64" using assms(5) True by (intro mod_pos_pos_trivial) simp_all
    finally show ?thesis using True by simp
  next
    case False
    then show ?thesis using assms(6) by (simp add: mod_pos_pos_trivial)
  qed
  then show ?thesis using assms by (auto simp: get_expiry_time_def Let_def)
qed

end
