(* ===== verification/Health_Check.thy ===== *)
theory Health_Check
  imports Enclave_Prelude
begin

text \<open>
  Health checks: the shared data (\<open>shared/src/server/health.rs\<close>), the agent that probes the user process
  and the server of the data plane (\<open>data-plane/src/health/agent.rs\<close>, \<open>data-plane/src/health/mod.rs\<close>),
  and the service of the control plane (\<open>control-plane/src/health.rs\<close>). JSON values and their text are
  those of \<open>serde_json\<close>: a type parameter and a codec with what it keeps of a state as a locale. The HTTP client,
  the file system and the validity of a URI are parameters.
\<close>

section \<open>Shared data\<close>

datatype HealthCheckStatus = StIgnored | StOk | StUnknown | StErr | StUninitialized

definition hcs_status_code :: "HealthCheckStatus \<Rightarrow> nat" where
  "hcs_status_code s = (case s of StOk \<Rightarrow> 200 | StIgnored \<Rightarrow> 200 | _ \<Rightarrow> 500)"

definition hcs_display :: "HealthCheckStatus \<Rightarrow> string" where
  "hcs_display s = (case s of StIgnored \<Rightarrow> ''Ignored'' | StOk \<Rightarrow> ''Ok'' | StUnknown \<Rightarrow> ''Unknown''
     | StErr \<Rightarrow> ''Err'' | StUninitialized \<Rightarrow> ''Uninitialized'')"

record HealthCheckLog =
  hcl_status :: HealthCheckStatus
  hcl_message :: "string option"

datatype 'j UserProcessHealth = UpUnknown string | UpError string | UpResponse nat "'j option"

definition health_rank :: "'j UserProcessHealth \<Rightarrow> nat" where
  "health_rank h =
     (case h of
        UpUnknown _ \<Rightarrow> 0
      | UpError _ \<Rightarrow> 2
      | UpResponse status_code _ \<Rightarrow> if status_code \<ge> 200 \<and> status_code < 300 then 1 else 3)"

record 'j DataPlaneDiagnostic =
  user_process :: "'j UserProcessHealth"

definition is_healthy :: "'j DataPlaneDiagnostic \<Rightarrow> bool" where
  "is_healthy d =
     (case user_process d of
        UpUnknown _ \<Rightarrow> True
      | UpError _ \<Rightarrow> False
      | UpResponse status_code _ \<Rightarrow> 200 \<le> status_code \<and> status_code < 300)"

datatype 'j DataPlaneState =
    DpError string
  | DpUnknown string
  | Provisioning
  | Attesting
  | SourcingTlsCerts
  | Initialized "'j DataPlaneDiagnostic"

definition dps_status_code :: "'j DataPlaneState \<Rightarrow> nat" where
  "dps_status_code s = (case s of Initialized d \<Rightarrow> if is_healthy d then 200 else 500 | _ \<Rightarrow> 500)"

datatype 'j HealthCheckVersion = V0 HealthCheckLog | V1 "'j DataPlaneState"

definition hcv_status_code :: "'j HealthCheckVersion \<Rightarrow> nat" where
  "hcv_status_code v = (case v of V0 log \<Rightarrow> hcs_status_code (hcl_status log) | V1 s \<Rightarrow> dps_status_code s)"

datatype ControlPlaneState = CpDraining | CpOk

definition cps_status_code :: "ControlPlaneState \<Rightarrow> nat" where
  "cps_status_code s = (case s of CpOk \<Rightarrow> 200 | CpDraining \<Rightarrow> 500)"

section \<open>The agent of the data plane\<close>

datatype HealthcheckAgentState = AgInitializing | AgReady

record 'j HealthcheckAgent =
  customer_process_port :: nat
  healthcheck_path :: "string option"
  hc_buffer :: "'j UserProcessHealth list"
  agent_state :: HealthcheckAgentState
  buffer_size_limit :: nat
  proto :: string

definition DEFAULT_HEALTHCHECK_BUFFER_SIZE_LIMIT :: nat where
  "DEFAULT_HEALTHCHECK_BUFFER_SIZE_LIMIT = 10"

definition agent_new :: "nat \<Rightarrow> string option \<Rightarrow> string \<Rightarrow> 'j HealthcheckAgent" where
  "agent_new port path pr =
     \<lparr>customer_process_port = port, healthcheck_path = path, hc_buffer = [], agent_state = AgInitializing,
      buffer_size_limit = DEFAULT_HEALTHCHECK_BUFFER_SIZE_LIMIT, proto = pr\<rparr>"

definition build_tls_agent :: "nat \<Rightarrow> string option \<Rightarrow> 'j HealthcheckAgent" where
  "build_tls_agent port path = agent_new port path ''https''"

definition build_agent :: "nat \<Rightarrow> string option \<Rightarrow> 'j HealthcheckAgent" where
  "build_agent port path = agent_new port path ''http''"

definition spawn_customer_healthcheck_agent :: "nat \<Rightarrow> string option \<Rightarrow> bool \<Rightarrow> 'j HealthcheckAgent" where
  "spawn_customer_healthcheck_agent port healthcheck use_tls =
     (if use_tls then build_tls_agent port healthcheck else build_agent port healthcheck)"

definition record_result :: "'j UserProcessHealth \<Rightarrow> 'j HealthcheckAgent \<Rightarrow> 'j HealthcheckAgent" where
  "record_result h a =
     (let b = hc_buffer a @ [h] in
      a\<lparr>hc_buffer := (if length b \<ge> buffer_size_limit a then tl b else b)\<rparr>)"

text \<open>What the agent sees of the world during one check.\<close>

datatype env_file = FileContents string | FileNotFound | FileError string

record 'j hc_world =
  hw_customer_env :: env_file
  hw_context :: "(string, unit) result"
  hw_uri_valid :: "string \<Rightarrow> bool"
  hw_request :: "string \<Rightarrow> (string, nat \<times> bytes option) result"
  hw_json :: "bytes \<Rightarrow> 'j option"

definition check_user_process_initialized ::
  "'j hc_world \<Rightarrow> 'j HealthcheckAgent \<Rightarrow> 'j HealthcheckAgent \<times> (string, HealthcheckAgentState) result" where
  "check_user_process_initialized W a =
     (case hw_customer_env W of
        FileContents c \<Rightarrow>
          if sublist ''EV_INITIALIZED'' c
          then (case hw_context W of
                  Inl e \<Rightarrow> (a, Inl e)
                | Inr _ \<Rightarrow> (a\<lparr>agent_state := AgReady\<rparr>, Inr AgReady))
          else (a, Inr AgInitializing)
      | FileNotFound \<Rightarrow> (a, Inr AgInitializing)
      | FileError e \<Rightarrow> (a, Inl e))"

definition build_healthcheck_uri :: "'j HealthcheckAgent \<Rightarrow> string \<Rightarrow> string" where
  "build_healthcheck_uri a path = proto a @ ''://127.0.0.1:'' @ show_nat (customer_process_port a) @ path"

text \<open>\<open>None\<close> is the panic of \<open>expect\<close> on a request that cannot be built.\<close>

definition probe_user_process :: "'j hc_world \<Rightarrow> 'j HealthcheckAgent \<Rightarrow> string \<Rightarrow> 'j UserProcessHealth option" where
  "probe_user_process W a path =
     (let uri = build_healthcheck_uri a path in
      if \<not> hw_uri_valid W uri then None
      else Some (case hw_request W uri of
             Inr (status, body) \<Rightarrow> UpResponse status (Option.bind body (hw_json W))
           | Inl e \<Rightarrow> UpError e))"

definition healthcheck_outcome ::
  "'j hc_world \<Rightarrow> 'j HealthcheckAgent \<Rightarrow> 'j HealthcheckAgent \<times> 'j UserProcessHealth option" where
  "healthcheck_outcome W a =
     (let (a, hc_state) = (case agent_state a of
             AgInitializing \<Rightarrow> check_user_process_initialized W a
           | AgReady \<Rightarrow> (a, Inr AgReady));
          hc_result = (case hc_state of
             Inr AgReady \<Rightarrow>
               (case healthcheck_path a of
                  Some path \<Rightarrow> probe_user_process W a path
                | None \<Rightarrow> Some (UpUnknown ''No healthcheck path provided''))
           | Inr AgInitializing \<Rightarrow> Some (UpUnknown ''Enclave is not initialized yet'')
           | Inl e \<Rightarrow> Some (UpError (''Error reading init state from user process env - '' @ e)))
      in (a, hc_result))"

definition perform_healthcheck :: "'j hc_world \<Rightarrow> 'j HealthcheckAgent \<Rightarrow> 'j HealthcheckAgent option" where
  "perform_healthcheck W a =
     (let (a', hc_result) = healthcheck_outcome W a in map_option (\<lambda>r. record_result r a') hc_result)"

definition serve_healthcheck_request :: "'j HealthcheckAgent \<Rightarrow> 'j UserProcessHealth" where
  "serve_healthcheck_request a =
     (case max_by_rank health_rank (hc_buffer a) of
        None \<Rightarrow> UpUnknown ''Enclave is not initialized yet''
      | Some m \<Rightarrow> m)"

text \<open>
  \<open>run\<close>: requests and ticks in the order in which \<open>select!\<close> takes them. The agent is \<open>None\<close> once its task
  has panicked: the channel is closed then.
\<close>

datatype 'j agent_event = StatusRequest | IntervalTick "'j hc_world"

definition check_user_process_health :: "'j HealthcheckAgent option \<Rightarrow> 'j UserProcessHealth" where
  "check_user_process_health agent =
     (case agent of
        Some a \<Rightarrow> serve_healthcheck_request a
      | None \<Rightarrow> UpError ''Failed to send healthcheck to user process on channel'')"

fun agent_run ::
  "'j agent_event list \<Rightarrow> 'j HealthcheckAgent option \<Rightarrow> 'j HealthcheckAgent option \<times> 'j UserProcessHealth list" where
  "agent_run [] a = (a, [])"
| "agent_run (StatusRequest # evs) a =
     (let (a', rs) = agent_run evs a in (a', check_user_process_health a # rs))"
| "agent_run (IntervalTick W # evs) a = agent_run evs (Option.bind a (perform_healthcheck W))"

section \<open>The servers\<close>

record 'j state_codec =
  state_to_json :: "'j DataPlaneState \<Rightarrow> bytes"
  state_from_json :: "bytes \<Rightarrow> 'j DataPlaneState option"
  log_from_json :: "bytes \<Rightarrow> HealthCheckLog option"

text \<open>The answer of the data plane: status, content type and body.\<close>

definition data_plane_health_response ::
  "'j state_codec \<Rightarrow> 'j HealthcheckAgent option \<Rightarrow> nat \<times> string \<times> bytes" where
  "data_plane_health_response C agent =
     (200, ''application/json;version=1'',
      state_to_json C (Initialized \<lparr>user_process = check_user_process_health agent\<rparr>))"

text \<open>\<open>health_check_data_plane\<close>: \<open>None\<close> is a connection, handshake or request that failed.\<close>

definition health_check_data_plane ::
  "'j state_codec \<Rightarrow> (nat \<times> string option \<times> bytes) option \<Rightarrow> (string, 'j HealthCheckVersion) result" where
  "health_check_data_plane C answer =
     (case answer of
        None \<Rightarrow> Inl ''connection failed''
      | Some (_, content_type, body) \<Rightarrow>
         (if content_type = Some ''application/json;version=1''
          then map_sum id V1 (ok_or ''invalid json'' (state_from_json C body))
          else map_sum id V0 (ok_or ''invalid json'' (log_from_json C body))))"

record 'j CombinedHealthCheckLog =
  cl_control_plane :: ControlPlaneState
  cl_data_plane :: "'j HealthCheckVersion"

definition run_ecs_health_check_service ::
  "bool \<Rightarrow> (string, 'j HealthCheckVersion) result \<Rightarrow> nat \<times> 'j CombinedHealthCheckLog" where
  "run_ecs_health_check_service is_draining checked =
     (if is_draining
      then (500, \<lparr>cl_control_plane = CpDraining,
                  cl_data_plane = V1 (DpUnknown ''Enclave is draining, data-plane health will not be checked'')\<rparr>)
      else (let control_plane = CpOk;
                data_plane = (case checked of
                   Inr v \<Rightarrow> v
                 | Inl e \<Rightarrow> V1 (DpError (''Failed to contact data-plane for healthcheck: '' @ e)));
                status = max (cps_status_code control_plane) (hcv_status_code data_plane)
            in (status, \<lparr>cl_control_plane = control_plane, cl_data_plane = data_plane\<rparr>)))"

text \<open>The health check server: only the agent of ECS is answered.\<close>

definition health_check_service ::
  "bytes option \<Rightarrow> bool \<Rightarrow> (string, 'j HealthCheckVersion) result \<Rightarrow> nat \<times> 'j CombinedHealthCheckLog option" where
  "health_check_service user_agent is_draining checked =
     (if user_agent = Some ''ECS-HealthCheck''
      then map_prod id Some (run_ecs_health_check_service is_draining checked)
      else (400, None))"

section \<open>The buffer holds the last nine results\<close>

lemma record_result_last:
  assumes "buffer_size_limit a = Suc n" "0 < n" "hc_buffer a = drop (length rs - n) rs"
  shows "hc_buffer (record_result h a) = drop (length (rs @ [h]) - n) (rs @ [h])"
  using assms by (auto simp: record_result_def Let_def drop_Suc tl_drop Suc_diff_le)

lemma record_result_limit [simp]: "buffer_size_limit (record_result h a) = buffer_size_limit a"
  by (simp add: record_result_def Let_def)

lemma healthcheck_outcome_fields:
  assumes "healthcheck_outcome W a = (a', r)"
  shows "hc_buffer a' = hc_buffer a \<and> buffer_size_limit a' = buffer_size_limit a"
  using assms
  by (auto simp: healthcheck_outcome_def check_user_process_initialized_def Let_def
      split: HealthcheckAgentState.splits env_file.splits sum.splits if_splits)

text \<open>The results of the checks of a run, in order.\<close>

fun check_results :: "'j agent_event list \<Rightarrow> 'j HealthcheckAgent \<Rightarrow> 'j UserProcessHealth list" where
  "check_results [] a = []"
| "check_results (StatusRequest # evs) a = check_results evs a"
| "check_results (IntervalTick W # evs) a =
     (case healthcheck_outcome W a of
        (a', Some r) \<Rightarrow> r # check_results evs (record_result r a')
      | (a', None) \<Rightarrow> [])"

lemma agent_run_None [simp]: "fst (agent_run evs None) = None"
proof (induction evs)
  case (Cons ev evs)
  then show ?case by (cases ev) (auto split: prod.splits)
qed simp

lemma agent_run_buffer:
  assumes "buffer_size_limit a = Suc n" "0 < n" "hc_buffer a = drop (length rs - n) rs"
    and "fst (agent_run evs (Some a)) = Some a'"
  shows "hc_buffer a' = drop (length (rs @ check_results evs a) - n) (rs @ check_results evs a)"
  using assms
proof (induction evs arbitrary: a rs)
  case (Cons ev evs)
  show ?case
  proof (cases ev)
    case StatusRequest
    with Cons show ?thesis by (auto split: prod.splits)
  next
    case (IntervalTick W)
    obtain b r where o: "healthcheck_outcome W a = (b, r)" by fastforce
    with Cons.prems(4) IntervalTick obtain h where h: "r = Some h"
      by (cases r) (auto simp: perform_healthcheck_def)
    from healthcheck_outcome_fields [OF o] Cons.prems
    have b: "buffer_size_limit b = Suc n" "hc_buffer b = drop (length rs - n) rs" by simp_all
    from Cons.IH [of "record_result h b" "rs @ [h]"] Cons.prems(2,4) b
      record_result_last [OF b(1) Cons.prems(2) b(2), of h] o h IntervalTick
    show ?thesis by (simp add: perform_healthcheck_def)
  qed
qed simp

definition healthy :: "'j UserProcessHealth \<Rightarrow> bool" where
  "healthy h \<longleftrightarrow> is_healthy \<lparr>user_process = h\<rparr>"

lemma healthy_rank: "healthy h \<longleftrightarrow> health_rank h \<le> 1"
  by (cases h) (auto simp: healthy_def is_healthy_def health_rank_def)

lemma serve_worst:
  "hc_buffer a \<noteq> [] \<Longrightarrow> serve_healthcheck_request a \<in> set (hc_buffer a)
     \<and> (\<forall>h \<in> set (hc_buffer a). health_rank h \<le> health_rank (serve_healthcheck_request a))"
  by (cases "max_by_rank health_rank (hc_buffer a)")
    (auto simp: serve_healthcheck_request_def dest: max_by_rank_in max_by_rank_ge)

lemma serve_healthy_iff:
  "healthy (serve_healthcheck_request a) \<longleftrightarrow> (\<forall>h \<in> set (hc_buffer a). healthy h)"
proof (cases "hc_buffer a = []")
  case True
  then show ?thesis by (simp add: serve_healthcheck_request_def healthy_def is_healthy_def)
next
  case False
  from serve_worst [OF this] show ?thesis by (auto simp: healthy_rank intro: le_trans)
qed

section \<open>From the checks to the answer for ECS\<close>

text \<open>The answer of the data plane as it arrives: the content type is a header that is present.\<close>

definition delivered :: "nat \<times> string \<times> bytes \<Rightarrow> (nat \<times> string option \<times> bytes) option" where
  "delivered r = (case r of (status, content_type, body) \<Rightarrow> Some (status, Some content_type, body))"

text \<open>
  What reading back keeps of the health of the user process. The JSON body of a response need not survive: \<open>Some(Value::Null)\<close>
  is read back as \<open>None\<close>, and a body that is nested close to the depth limit of \<open>serde_json\<close> makes the text unreadable, because the
  state around it adds levels.
\<close>

fun same_health :: "'j UserProcessHealth \<Rightarrow> 'j UserProcessHealth \<Rightarrow> bool" where
  "same_health (UpUnknown s) h = (h = UpUnknown s)"
| "same_health (UpError s) h = (h = UpError s)"
| "same_health (UpResponse status_code _) h = (\<exists>body. h = UpResponse status_code body)"

definition has_body :: "'j UserProcessHealth \<Rightarrow> bool" where
  "has_body h = (case h of UpResponse _ (Some _) \<Rightarrow> True | _ \<Rightarrow> False)"

lemma same_health_healthy: "same_health h h' \<Longrightarrow> healthy h' \<longleftrightarrow> healthy h"
  by (cases h) (auto simp: healthy_def is_healthy_def)

locale state_json =
  fixes C :: "'j state_codec"
  assumes reads_health: "state_from_json C (state_to_json C (Initialized \<lparr>user_process = h\<rparr>)) = Some s \<Longrightarrow>
      \<exists>h'. s = Initialized \<lparr>user_process = h'\<rparr> \<and> same_health h h'"
    and reads_bodiless: "\<not> has_body h \<Longrightarrow> state_from_json C (state_to_json C (Initialized \<lparr>user_process = h\<rparr>)) \<noteq> None"
begin

lemma checked_status:
  fixes agent :: "'j HealthcheckAgent option"
  defines "body \<equiv> state_to_json C (Initialized \<lparr>user_process = check_user_process_health agent\<rparr>)"
  shows "fst (run_ecs_health_check_service False (health_check_data_plane C (delivered (data_plane_health_response C agent))))
    = (if state_from_json C body \<noteq> None \<and> healthy (check_user_process_health agent) then 200 else 500)"
proof (cases "state_from_json C body")
  case None
  then show ?thesis
    by (simp add: body_def health_check_data_plane_def delivered_def data_plane_health_response_def run_ecs_health_check_service_def
        hcv_status_code_def dps_status_code_def cps_status_code_def Let_def)
next
  case (Some s)
  then obtain h' where "s = Initialized \<lparr>user_process = h'\<rparr>" "same_health (check_user_process_health agent) h'"
    using reads_health [of "check_user_process_health agent"] by (auto simp: body_def)
  with Some same_health_healthy [of "check_user_process_health agent" h'] show ?thesis
    by (simp add: body_def health_check_data_plane_def delivered_def data_plane_health_response_def run_ecs_health_check_service_def
        hcv_status_code_def dps_status_code_def cps_status_code_def Let_def healthy_def)
qed

end

text \<open>
  (C16) ECS is told that the enclave is healthy exactly when the control plane is not draining, the answer of the data plane arrives
  and its JSON text can be read, the agent is alive and none of the last nine checks ended with an error or a status other than
  2xx; otherwise the status is 500. The text can be read whenever the reported result carries no JSON body. This holds after every
  sequence of checks and status requests, for every outcome of the checks. A connection, handshake or request to the data
  plane that fails is an answer that does not arrive.
\<close>

theorem ecs_status_reflects_checks:
  assumes "state_json C"
    and "fst (agent_run evs (Some (spawn_customer_healthcheck_agent port path tls))) = agent"
  defines "results \<equiv> check_results evs (spawn_customer_healthcheck_agent port path tls)"
    and "body \<equiv> state_to_json C (Initialized \<lparr>user_process = check_user_process_health agent\<rparr>)"
  shows "fst (health_check_service (Some ''ECS-HealthCheck'') draining
      (health_check_data_plane C (if arrives then delivered (data_plane_health_response C agent) else None)))
    = (if \<not> draining \<and> arrives \<and> state_from_json C body \<noteq> None
          \<and> agent \<noteq> None \<and> (\<forall>h \<in> set (drop (length results - 9) results). healthy h)
       then 200 else 500)
    \<and> (\<not> has_body (check_user_process_health agent) \<longrightarrow> state_from_json C body \<noteq> None)"
proof -
  have healthy: "healthy (check_user_process_health agent) \<longleftrightarrow>
      agent \<noteq> None \<and> (\<forall>h \<in> set (drop (length results - 9) results). healthy h)"
  proof (cases agent)
    case None
    then show ?thesis by (simp add: check_user_process_health_def healthy_def is_healthy_def)
  next
    case (Some a)
    have "hc_buffer a = drop (length results - 9) results"
      using agent_run_buffer [of "spawn_customer_healthcheck_agent port path tls" 9 "[]" evs a] assms(2) Some
      by (simp add: results_def spawn_customer_healthcheck_agent_def build_tls_agent_def build_agent_def agent_new_def
          DEFAULT_HEALTHCHECK_BUFFER_SIZE_LIMIT_def)
    with Some show ?thesis by (simp add: check_user_process_health_def serve_healthy_iff)
  qed
  have failed: "fst (run_ecs_health_check_service False (health_check_data_plane C None)) = 500"
    by (simp add: run_ecs_health_check_service_def health_check_data_plane_def hcv_status_code_def dps_status_code_def
        cps_status_code_def Let_def)
  have "fst (health_check_service (Some ''ECS-HealthCheck'') draining checked)
      = (if draining then 500 else fst (run_ecs_health_check_service False checked))" for checked :: "(string, 'a HealthCheckVersion) result"
    by (simp add: health_check_service_def run_ecs_health_check_service_def Let_def)
  then show ?thesis
    using state_json.checked_status [OF assms(1), of agent] state_json.reads_bodiless [OF assms(1)] failed healthy
    by (auto simp: body_def)
qed

section \<open>A concrete codec\<close>

fun enc_health :: "string UserProcessHealth \<Rightarrow> bytes" where
  "enc_health (UpUnknown s) = CHR ''U'' # s"
| "enc_health (UpError s) = CHR ''E'' # s"
| "enc_health (UpResponse n None) = CHR ''N'' # replicate n CHR ''i''"
| "enc_health (UpResponse n (Some j)) =
     (if j = ''null'' then CHR ''N'' # replicate n CHR ''i'' else CHR ''R'' # replicate n CHR ''i'' @ CHR '';'' # j)"

definition dec_health :: "bytes \<Rightarrow> string UserProcessHealth option" where
  "dec_health b =
     (case b of
        [] \<Rightarrow> None
      | c # s \<Rightarrow>
          if c = CHR ''U'' then Some (UpUnknown s)
          else if c = CHR ''E'' then Some (UpError s)
          else if c = CHR ''N'' then Some (UpResponse (length s) None)
          else if c = CHR ''R'' then Some (UpResponse (length (takeWhile (\<lambda>x. x = CHR ''i'') s))
             (Some (tl (dropWhile (\<lambda>x. x = CHR ''i'') s))))
          else None)"

fun enc_state :: "string DataPlaneState \<Rightarrow> bytes" where
  "enc_state (DpError s) = CHR ''e'' # s"
| "enc_state (DpUnknown s) = CHR ''u'' # s"
| "enc_state Provisioning = ''p''"
| "enc_state Attesting = ''a''"
| "enc_state SourcingTlsCerts = ''t''"
| "enc_state (Initialized d) = CHR ''i'' # enc_health (user_process d)"

definition dec_state :: "bytes \<Rightarrow> string DataPlaneState option" where
  "dec_state b =
     (case b of
        [] \<Rightarrow> None
      | c # s \<Rightarrow>
          if c = CHR ''e'' then Some (DpError s)
          else if c = CHR ''u'' then Some (DpUnknown s)
          else if c = CHR ''p'' then Some Provisioning
          else if c = CHR ''a'' then Some Attesting
          else if c = CHR ''t'' then Some SourcingTlsCerts
          else if c = CHR ''i'' then map_option (\<lambda>h. Initialized \<lparr>user_process = h\<rparr>) (dec_health s)
          else None)"

definition tagged_codec :: "string state_codec" where
  "tagged_codec = \<lparr>state_to_json = enc_state, state_from_json = dec_state, log_from_json = (\<lambda>_. None)\<rparr>"

lemma dec_enc_health: "\<exists>h'. dec_health (enc_health h) = Some h' \<and> same_health h h'"
  by (cases h rule: enc_health.cases) (auto simp: dec_health_def takeWhile_append dropWhile_append)

lemma null_body_is_lost: "dec_health (enc_health (UpResponse n (Some ''null''))) = Some (UpResponse n None)"
  by (simp add: dec_health_def)

interpretation tagged: state_json tagged_codec
proof
  fix h s
  show "state_from_json tagged_codec (state_to_json tagged_codec (Initialized \<lparr>user_process = h\<rparr>)) = Some s \<Longrightarrow>
      \<exists>h'. s = Initialized \<lparr>user_process = h'\<rparr> \<and> same_health h h'"
    "\<not> has_body h \<Longrightarrow> state_from_json tagged_codec (state_to_json tagged_codec (Initialized \<lparr>user_process = h\<rparr>)) \<noteq> None"
    using dec_enc_health [of h] by (auto simp: tagged_codec_def dec_state_def)
qed

definition sample_world :: "nat \<Rightarrow> string hc_world" where
  "sample_world status =
     \<lparr>hw_customer_env = FileContents ''EV_INITIALIZED=true'', hw_context = Inr (), hw_uri_valid = (\<lambda>_. True),
      hw_request = (\<lambda>_. Inr (status, None)), hw_json = (\<lambda>_. None)\<rparr>"

definition sample_events :: "string agent_event list" where
  "sample_events = [IntervalTick (sample_world 200), StatusRequest, IntervalTick (sample_world 503)]"

theorem ecs_status_reflects_checks_witness:
  "\<exists>agent. fst (agent_run sample_events (Some (spawn_customer_healthcheck_agent 8008 (Some ''/health'') False)))
       = Some agent
     \<and> fst (health_check_service (Some ''ECS-HealthCheck'') False
      (health_check_data_plane tagged_codec (if True then delivered (data_plane_health_response tagged_codec (Some agent)) else None))) = 500"
proof -
  let ?a = "spawn_customer_healthcheck_agent 8008 (Some ''/health'') False :: string HealthcheckAgent"
  have s: "sublist ''EV_INITIALIZED'' ''EV_INITIALIZED=true''" by (simp add: sublist_code)
  obtain agent where a: "fst (agent_run sample_events (Some ?a)) = Some agent"
    by (simp add: sample_events_def sample_world_def perform_healthcheck_def healthcheck_outcome_def Let_def
        spawn_customer_healthcheck_agent_def build_tls_agent_def build_agent_def agent_new_def check_user_process_initialized_def s
        probe_user_process_def record_result_def split: prod.splits)
  have "check_results sample_events ?a = [UpResponse 200 None, UpResponse 503 None]"
    by (simp add: sample_events_def sample_world_def healthcheck_outcome_def Let_def
        spawn_customer_healthcheck_agent_def build_tls_agent_def build_agent_def agent_new_def check_user_process_initialized_def s
        probe_user_process_def record_result_def)
  with ecs_status_reflects_checks [OF tagged.state_json_axioms a, of False True] a show ?thesis
    by (auto simp: healthy_def is_healthy_def)
qed

end
