(* ===== verification/Enclave_Startup.thy ===== *)
theory Enclave_Startup
  imports Crypto_Api Health_Check Cert_Resolver
begin

text \<open>
  How an enclave starts: the contexts of the process (\<open>data-plane/src/lib.rs\<close>), the client of the certificate
  provisioner (\<open>data-plane/src/cert_provisioner_client/mod.rs\<close>), the environment of the user process with its
  secrets (\<open>data-plane/src/env/mod.rs\<close>), and the intermediate certificate
  (\<open>data-plane/src/server/tls/inter_ca_retreiver.rs\<close>, \<open>tls_server.rs\<close>). It runs on the state of the E3 client; the file
  \<open>/etc/customer-env\<close>, which the health agent of \<open>Health_Check\<close> reads, is part of the state, and what happens to a
  write is an argument. JSON, base64 and OpenSSL are parameters.
\<close>

section \<open>Contexts\<close>

record ProvisionerContext =
  pcx_cage_uuid :: string
  pcx_cage_name :: string
  pcx_team_uuid :: string
  pcx_app_uuid :: string

definition enclave_context_from :: "ProvisionerContext \<Rightarrow> EnclaveContext" where
  "enclave_context_from c =
     \<lparr>ec_team_uuid = pcx_team_uuid c, ec_app_uuid = pcx_app_uuid c, ec_uuid = pcx_cage_uuid c, ec_name = pcx_cage_name c\<rparr>"

datatype ContextError = FailedToRead | FailedToParse | Uninitialized

definition context_get :: "'a option \<Rightarrow> (ContextError, 'a) result" where
  "context_get cell = ok_or Uninitialized cell"

text \<open>\<open>OnceCell::get_or_init\<close>: the first value stays.\<close>

definition context_set :: "'a \<Rightarrow> 'a option \<Rightarrow> 'a option" where
  "context_set ctx cell = (case cell of Some c \<Rightarrow> Some c | None \<Rightarrow> Some ctx)"

definition read_dataplane_context ::
  "(string \<Rightarrow> FeatureContext option) \<Rightarrow> (string \<Rightarrow> string) \<Rightarrow> string option \<Rightarrow> (ContextError, FeatureContext) result" where
  "read_dataplane_context from_str to_lowercase file =
     try_bind (ok_or FailedToRead file) (\<lambda>contents.
     try_bind (ok_or FailedToParse (from_str contents)) (\<lambda>feature_context.
       Inr (feature_context\<lparr>trusted_headers := map to_lowercase (trusted_headers feature_context)\<rparr>)))"

definition feature_context_set ::
  "(string \<Rightarrow> FeatureContext option) \<Rightarrow> (string \<Rightarrow> string) \<Rightarrow> string option \<Rightarrow> FeatureContext option \<Rightarrow> (ContextError, unit) result \<times> FeatureContext option" where
  "feature_context_set from_str to_lowercase file cell =
     (case read_dataplane_context from_str to_lowercase file of
        Inl e \<Rightarrow> (Inl e, cell)
      | Inr ctx \<Rightarrow> (Inr (), context_set ctx cell))"

section \<open>State\<close>

record Secret =
  sc_name :: string
  sc_secret :: string

record GetCertResponseDataPlane =
  gc_intermediate_cert :: string
  gc_key_pair :: string
  gc_secrets :: "Secret list option"
  gc_context :: ProvisionerContext

record GetSecretsResponseDataPlane =
  gs_secrets :: "Secret list"
  gs_context :: ProvisionerContext

record ('h, 'v, 'k) startup_lib =
  sl_crypto :: "('h, 'v) crypto_json"
  sl_doc_body :: "string \<Rightarrow> bytes option"
  sl_cert_response :: "bytes \<Rightarrow> GetCertResponseDataPlane option"
  sl_secrets_response :: "bytes \<Rightarrow> GetSecretsResponseDataPlane option"
  sl_secrets_json :: "Secret list \<Rightarrow> 'v"
  sl_secrets_from :: "'v \<Rightarrow> Secret list option"
  sl_b64_encode :: "bytes \<Rightarrow> string"
  sl_b64_decode :: "string \<Rightarrow> bytes option"
  sl_x509_from_pem :: "bytes \<Rightarrow> 'k option"
  sl_key_from_pem :: "bytes \<Rightarrow> 'k option"
  sl_show_attestation :: "AttestationError \<Rightarrow> string"

text \<open>The fate of writing a file anew: it cannot be created, the write stops after some bytes, or all is written.\<close>

datatype file_fate = CreateFails | WriteFails nat | Written

record ('h, 'c, 's, 'w, 'f) boot_state =
  bo_e3 :: "('h, 'c, 's, 'w, 'f) e3_state"
  bo_context :: "EnclaveContext option"
  bo_file :: "string option"
  bo_contents :: "string list"

section \<open>The certificate provisioner\<close>

definition provisioner_base_client :: BaseClient where
  "provisioner_base_client = \<lparr>bc_verifier = verify_cert_provisioner, bc_server_name = get_cert_provisioner_host, bc_port = ENCLAVE_CERT_PORT\<rparr>"

definition provisioner_uri :: "string \<Rightarrow> string" where
  "provisioner_uri path = ''https://'' @ get_cert_provisioner_host @ '':'' @ show_nat ENCLAVE_CERT_PORT @ path"

definition provisioner_attestation_doc :: "('h, 'v, 'k) startup_lib \<Rightarrow> nsm \<Rightarrow> string \<Rightarrow> (ClientError, string) result" where
  "provisioner_attestation_doc L M token =
     try_bind (map_err (\<lambda>err. General (sl_show_attestation L err)) (get_attestation_doc M (Some token) None)) (\<lambda>attestation_doc.
       Inr (sl_b64_encode L attestation_doc))"

definition provisioner_post ::
  "('h, 'c, 'w) e3_env \<Rightarrow> ('h, 'v, 'k) startup_lib \<Rightarrow> 's e3_moment \<Rightarrow> string \<Rightarrow> (bytes \<Rightarrow> 'a option) \<Rightarrow> string \<Rightarrow> ('h, 'c, 's, 'w, 'f) e3_state
   \<Rightarrow> (ClientError, 'a) result option \<times> ('h, 'c, 's, 'w, 'f) e3_state" where
  "provisioner_post E L mo path parse token st =
     (case provisioner_attestation_doc L (mo_nsm mo) token of
        Inl e \<Rightarrow> (Some (Inl e), st)
      | Inr attestation_doc \<Rightarrow>
         (case sl_doc_body L attestation_doc of
            None \<Rightarrow> (Some (Inl (General ''serialization failed'')), st)
          | Some body \<Rightarrow>
             (case base_send (ee_net E) provisioner_base_client None ''POST'' (provisioner_uri path) body None (es_world st) of
                (r, sent, w) \<Rightarrow>
                  (map_option (\<lambda>x. try_bind x (base_parse_response parse)) r,
                   st\<lparr>es_world := w, es_log := es_log st @ (case sent of None \<Rightarrow> [] | Some q \<Rightarrow> [RequestSent (mo_now mo) q])\<rparr>))))"

definition provisioner_get_cert ::
  "('h, 'c, 'w) e3_env \<Rightarrow> ('h, 'v, 'k) startup_lib \<Rightarrow> 's e3_moment \<Rightarrow> string \<Rightarrow> ('h, 'c, 's, 'w, 'f) e3_state
   \<Rightarrow> (ClientError, GetCertResponseDataPlane) result option \<times> ('h, 'c, 's, 'w, 'f) e3_state" where
  "provisioner_get_cert E L mo token st = provisioner_post E L mo ''/cert'' (sl_cert_response L) token st"

definition provisioner_get_secrets ::
  "('h, 'c, 'w) e3_env \<Rightarrow> ('h, 'v, 'k) startup_lib \<Rightarrow> 's e3_moment \<Rightarrow> string \<Rightarrow> ('h, 'c, 's, 'w, 'f) e3_state
   \<Rightarrow> (ClientError, GetSecretsResponseDataPlane) result option \<times> ('h, 'c, 's, 'w, 'f) e3_state" where
  "provisioner_get_secrets E L mo token st = provisioner_post E L mo ''/secrets'' (sl_secrets_response L) token st"

section \<open>The environment of the user process\<close>

datatype EnvError = EnvCrypto | EnvIo | EnvHyper | EnvSerde | EnvClient ClientError | EnvInvalidHeaderValue | EnvContext ContextError

definition env_string :: "Secret list \<Rightarrow> string" where
  "env_string secrets = concat (map (\<lambda>env. ''export '' @ sc_name env @ ''='' @ sc_secret env @ ''  '') secrets)"

definition write_env_file ::
  "Secret list \<Rightarrow> file_fate \<Rightarrow> ('h, 'c, 's, 'w, 'f) boot_state \<Rightarrow> (EnvError, unit) result \<times> ('h, 'c, 's, 'w, 'f) boot_state" where
  "write_env_file secrets fate st =
     (let c = env_string secrets; st' = st\<lparr>bo_contents := bo_contents st @ [c]\<rparr> in
      case fate of
        CreateFails \<Rightarrow> (Inl EnvIo, st')
      | WriteFails n \<Rightarrow> (Inl EnvIo, st'\<lparr>bo_file := Some (take n c)\<rparr>)
      | Written \<Rightarrow> (Inr (), st'\<lparr>bo_file := Some c\<rparr>))"

text \<open>Appending to the file: it has to exist; the write may stop after some bytes.\<close>

definition startup_marker :: string where "startup_marker = ''export EV_INITIALIZED=true''"

definition write_startup_complete_env_vars ::
  "file_fate \<Rightarrow> ('h, 'c, 's, 'w, 'f) boot_state \<Rightarrow> (EnvError, unit) result \<times> ('h, 'c, 's, 'w, 'f) boot_state" where
  "write_startup_complete_env_vars fate st =
     (case bo_file st of
        None \<Rightarrow> (Inl EnvIo, st)
      | Some c \<Rightarrow>
         (case fate of
            CreateFails \<Rightarrow> (Inl EnvIo, st)
          | WriteFails n \<Rightarrow> (Inl EnvIo, st\<lparr>bo_file := Some (c @ take n startup_marker)\<rparr>)
          | Written \<Rightarrow> (Inr (), st\<lparr>bo_file := Some (c @ startup_marker)\<rparr>)))"

definition is_encrypted :: "Secret \<Rightarrow> bool" where
  "is_encrypted env \<longleftrightarrow> prefix ''ev:'' (sc_secret env)"

definition env_init ::
  "('h, 'c, 'w) e3_env \<Rightarrow> ('h, 'v, 'k) startup_lib \<Rightarrow> 's e3_moment \<Rightarrow> file_fate \<Rightarrow> Secret list \<Rightarrow> ('h, 'c, 's, 'w, 'f) boot_state
   \<Rightarrow> (EnvError, unit) result option \<times> ('h, 'c, 's, 'w, 'f) boot_state" where
  "env_init E L mo fate secrets st =
     (let (encrypted_env, plaintext_env) = partition is_encrypted secrets in
      if encrypted_env \<noteq> [] then
        (case e3_decrypt E (cy_response (sl_crypto L)) (cy_request (sl_crypto L) (sl_secrets_json L encrypted_env))
                (mo\<lparr>mo_context := bo_context st\<rparr>) (bo_e3 st) of (r, e3) \<Rightarrow>
           (let st' = st\<lparr>bo_e3 := e3\<rparr> in
            case r of
              None \<Rightarrow> (None, st')
            | Some (Inl e) \<Rightarrow> (Some (Inl (EnvClient e)), st')
            | Some (Inr data) \<Rightarrow>
               (case sl_secrets_from L data of
                  None \<Rightarrow> (Some (Inl EnvSerde), st')
                | Some decrypted_env \<Rightarrow> apfst Some (write_env_file (decrypted_env @ plaintext_env) fate st'))))
      else apfst Some (write_env_file plaintext_env fate st))"

section \<open>Start without certificates\<close>

text \<open>\<open>init_without_certs\<close>: a token that cannot be obtained is a panic; the result of the last write is ignored.\<close>

definition init_without_certs ::
  "('h, 'c, 'w) e3_env \<Rightarrow> ('h, 'v, 'k) startup_lib \<Rightarrow> 's e3_moment \<Rightarrow> file_fate \<Rightarrow> file_fate \<Rightarrow> ('h, 'c, 's, 'w, 'f) boot_state
   \<Rightarrow> (EnvError, unit) result option \<times> ('h, 'c, 's, 'w, 'f) boot_state" where
  "init_without_certs E L mo fate fate' st =
     (case get_cert_token (mo_config mo) (mo_link mo) (es_config (bo_e3 st)) of (t, cs) \<Rightarrow>
       (let st1 = st\<lparr>bo_e3 := (bo_e3 st)\<lparr>es_config := cs\<rparr>\<rparr> in
        case t of
          Inl _ \<Rightarrow> (None, st1)
        | Inr token \<Rightarrow>
           (case provisioner_get_secrets E L mo token (bo_e3 st1) of (r, e3) \<Rightarrow>
             (let st2 = st1\<lparr>bo_e3 := e3\<rparr> in
              case r of
                None \<Rightarrow> (None, st2)
              | Some (Inl e) \<Rightarrow> (Some (Inl (EnvClient e)), st2)
              | Some (Inr secrets_response) \<Rightarrow>
                 (let st3 = st2\<lparr>bo_context := context_set (enclave_context_from (gs_context secrets_response)) (bo_context st2)\<rparr> in
                  case env_init E L mo fate (gs_secrets secrets_response) st3 of
                    (None, st4) \<Rightarrow> (None, st4)
                  | (Some (Inl e), st4) \<Rightarrow> (Some (Inl e), st4)
                  | (Some (Inr _), st4) \<Rightarrow> (Some (Inr ()), snd (write_startup_complete_env_vars fate' st4)))))))"

section \<open>The intermediate certificate\<close>

datatype InterCaError = IcToken DpError | IcCertServer ClientError | IcEnv EnvError | IcCrypto

definition parse_cert :: "('h, 'v, 'k) startup_lib \<Rightarrow> string \<Rightarrow> (InterCaError, 'k) result" where
  "parse_cert L raw_cert = try_bind (ok_or IcCrypto (sl_b64_decode L raw_cert)) (\<lambda>decoded_cert. ok_or IcCrypto (sl_x509_from_pem L decoded_cert))"

definition parse_key :: "('h, 'v, 'k) startup_lib \<Rightarrow> string \<Rightarrow> (InterCaError, 'k) result" where
  "parse_key L raw_key = try_bind (ok_or IcCrypto (sl_b64_decode L raw_key)) (\<lambda>decoded_key. ok_or IcCrypto (sl_key_from_pem L decoded_key))"

text \<open>A response without secrets is a panic (\<open>None\<close>).\<close>

definition get_intermediate_ca ::
  "('h, 'c, 'w) e3_env \<Rightarrow> ('h, 'v, 'k) startup_lib \<Rightarrow> 's e3_moment \<Rightarrow> file_fate \<Rightarrow> ('h, 'c, 's, 'w, 'f) boot_state
   \<Rightarrow> (InterCaError, 'k \<times> 'k) result option \<times> ('h, 'c, 's, 'w, 'f) boot_state" where
  "get_intermediate_ca E L mo fate st =
     (case get_cert_token (mo_config mo) (mo_link mo) (es_config (bo_e3 st)) of (t, cs) \<Rightarrow>
       (let st1 = st\<lparr>bo_e3 := (bo_e3 st)\<lparr>es_config := cs\<rparr>\<rparr> in
        case t of
          Inl e \<Rightarrow> (Some (Inl (IcToken e)), st1)
        | Inr token \<Rightarrow>
           (case provisioner_get_cert E L mo token (bo_e3 st1) of (r, e3) \<Rightarrow>
             (let st2 = st1\<lparr>bo_e3 := e3\<rparr> in
              case r of
                None \<Rightarrow> (None, st2)
              | Some (Inl err) \<Rightarrow> (Some (Inl (IcCertServer err)), st2)
              | Some (Inr cert_response) \<Rightarrow>
                 (let st3 = st2\<lparr>bo_context := context_set (enclave_context_from (gc_context cert_response)) (bo_context st2)\<rparr> in
                  case gc_secrets cert_response of
                    None \<Rightarrow> (None, st3)
                  | Some secrets \<Rightarrow>
                     (case env_init E L mo fate secrets st3 of
                        (None, st4) \<Rightarrow> (None, st4)
                      | (Some (Inl e), st4) \<Rightarrow> (Some (Inl (IcEnv e)), st4)
                      | (Some (Inr _), st4) \<Rightarrow>
                         (Some (try_bind (parse_cert L (gc_intermediate_cert cert_response)) (\<lambda>inter_ca_cert.
                                try_bind (parse_key L (gc_key_pair cert_response)) (\<lambda>inter_ca_key_pair.
                                  Inr (inter_ca_cert, inter_ca_key_pair)))), st4)))))))"

text \<open>The attempts of \<open>get_ca_with_retry\<close>, which goes on until one succeeds: their results, in order, unless one panics.\<close>

fun ca_attempts ::
  "('h, 'c, 'w) e3_env \<Rightarrow> ('h, 'v, 'k) startup_lib \<Rightarrow> ('s e3_moment \<times> file_fate) list \<Rightarrow> ('h, 'c, 's, 'w, 'f) boot_state
   \<Rightarrow> (InterCaError, 'k \<times> 'k) result list option \<times> ('h, 'c, 's, 'w, 'f) boot_state" where
  "ca_attempts E L [] st = (Some [], st)"
| "ca_attempts E L ((mo, fate) # as) st =
     (case get_intermediate_ca E L mo fate st of
        (None, st') \<Rightarrow> (None, st')
      | (Some (Inr ca), st') \<Rightarrow> (Some [Inr ca], st')
      | (Some (Inl e), st') \<Rightarrow> apfst (map_option (Cons (Inl e))) (ca_attempts E L as st'))"

text \<open>
  \<open>with_attestable_cert\<close> up to the mark: the certificate, then the trusted certificate (the process
  exits without it), then the mark in the environment. What follows, the certificate resolver and the configuration of TLS, is in
  \<open>Enclave_Server\<close> and can still fail. \<open>StillTrying\<close>: the attempts so far did not succeed.
\<close>

datatype 'k startup = StartupPanics | StillTrying | Exits | StartupFails EnvError | Started 'k 'k

definition with_attestable_cert ::
  "('h, 'c, 'w) e3_env \<Rightarrow> ('h, 'v, 'k) startup_lib \<Rightarrow> ('s e3_moment \<times> file_fate) list \<Rightarrow> bool \<Rightarrow> file_fate \<Rightarrow> ('h, 'c, 's, 'w, 'f) boot_state
   \<Rightarrow> 'k startup \<times> ('h, 'c, 's, 'w, 'f) boot_state" where
  "with_attestable_cert E L attempts trusted_cert fate st =
     (case ca_attempts E L attempts st of
        (None, st') \<Rightarrow> (StartupPanics, st')
      | (Some results, st') \<Rightarrow>
         (case snd (get_ca_with_retry 0 results) of
            None \<Rightarrow> (StillTrying, st')
          | Some (ca_cert, ca_private_key) \<Rightarrow>
             if \<not> trusted_cert then (Exits, st')
             else (case write_startup_complete_env_vars fate st' of
                     (Inl e, st'') \<Rightarrow> (StartupFails e, st'')
                   | (Inr _, st'') \<Rightarrow> (Started ca_cert ca_private_key, st''))))"

section \<open>What the health agent sees\<close>

text \<open>A check of the health agent reads the file and the context as they are.\<close>

definition sees_boot :: "'j hc_world \<Rightarrow> ('h, 'c, 's, 'w, 'f) boot_state \<Rightarrow> bool" where
  "sees_boot W st \<longleftrightarrow>
     hw_customer_env W = (case bo_file st of None \<Rightarrow> FileNotFound | Some c \<Rightarrow> FileContents c)
     \<and> (\<forall>c. bo_context st = Some c \<longrightarrow> hw_context W = Inr ())"

text \<open>Until the mark is appended, the file is missing or the beginning of an environment that was written.\<close>

definition file_ok :: "('h, 'c, 's, 'w, 'f) boot_state \<Rightarrow> bool" where
  "file_ok st \<longleftrightarrow> (\<forall>f. bo_file st = Some f \<longrightarrow> (\<exists>c \<in> set (bo_contents st). prefix f c))"

lemma file_okD: "file_ok st \<Longrightarrow> bo_file st = Some f \<Longrightarrow> \<exists>c \<in> set (bo_contents st). prefix f c"
  by (simp add: file_ok_def)

lemma file_ok_write:
  "write_env_file secrets fate st = (r, st') \<Longrightarrow> file_ok st \<Longrightarrow> file_ok st'"
  by (cases fate) (auto simp: write_env_file_def file_ok_def Let_def take_is_prefix)

lemma file_ok_same: "file_ok st \<Longrightarrow> bo_file st' = bo_file st \<Longrightarrow> bo_contents st' = bo_contents st \<Longrightarrow> file_ok st'"
  by (simp add: file_ok_def)

lemma file_ok_env_init:
  assumes "file_ok st" and "env_init E L mo fate secrets st = (r, st')"
  shows "file_ok st'"
proof (cases "filter is_encrypted secrets = []")
  case True
  then show ?thesis
    using assms file_ok_write [of _ fate st] by (auto simp: env_init_def Let_def apfst_def map_prod_def split: prod.splits)
next
  case False
  obtain x e3 where d: "e3_decrypt E (cy_response (sl_crypto L)) (cy_request (sl_crypto L) (sl_secrets_json L (filter is_encrypted secrets)))
      (mo\<lparr>mo_context := bo_context st\<rparr>) (bo_e3 st) = (x, e3)" by fastforce
  have ok: "file_ok (st\<lparr>bo_e3 := e3\<rparr>)" by (rule file_ok_same [OF assms(1)]) simp_all
  show ?thesis
    using assms(2) False d ok file_ok_write [OF _ ok, of _ fate]
    by (auto simp: env_init_def Let_def apfst_def map_prod_def split: option.splits sum.splits prod.splits)
qed

lemma file_ok_get_ca:
  assumes "file_ok st" and "get_intermediate_ca E L mo fate st = (r, st')"
  shows "file_ok st'"
proof -
  have same: "file_ok (st\<lparr>bo_e3 := e, bo_context := c\<rparr>)" "file_ok (st\<lparr>bo_e3 := e\<rparr>)" for e c
    by (rule file_ok_same [OF assms(1)]; simp)+
  show ?thesis
    using assms(2) same file_ok_env_init [OF same(1)]
    by (fastforce simp: get_intermediate_ca_def Let_def split: option.splits sum.splits prod.splits)
qed

lemma file_ok_attempts: "file_ok st \<Longrightarrow> ca_attempts E L as st = (r, st') \<Longrightarrow> file_ok st'"
proof (induction as arbitrary: st r)
  case (Cons a as)
  obtain mo fate where a: "a = (mo, fate)" by (cases a)
  obtain x st1 where g: "get_intermediate_ca E L mo fate st = (x, st1)" by fastforce
  have "file_ok st1" using file_ok_get_ca [OF Cons.prems(1) g] .
  with Cons show ?case by (auto simp: a g apfst_def map_prod_def split: option.splits sum.splits prod.splits)
qed simp

lemma write_env_file_success:
  "write_env_file secrets fate st = (Inr u, st') \<Longrightarrow> bo_file st' = Some (env_string secrets) \<and> bo_context st' = bo_context st"
  by (cases fate) (auto simp: write_env_file_def Let_def)

lemma env_init_success:
  assumes "env_init E L mo fate secrets st = (Some (Inr u), st')"
  shows "bo_context st' = bo_context st
    \<and> (\<exists>decrypted. bo_file st' = Some (env_string (decrypted @ filter (Not \<circ> is_encrypted) secrets)))"
proof -
  obtain decrypted e3 where "write_env_file (decrypted @ filter (Not \<circ> is_encrypted) secrets) fate (st\<lparr>bo_e3 := e3\<rparr>) = (Inr u, st')"
  proof (cases "filter is_encrypted secrets = []")
    case True
    with assms have "write_env_file ([] @ filter (Not \<circ> is_encrypted) secrets) fate (st\<lparr>bo_e3 := bo_e3 st\<rparr>) = (Inr u, st')"
      by (auto simp: env_init_def Let_def apfst_def map_prod_def split: prod.splits)
    with that show thesis by blast
  next
    case False
    with assms that show thesis
      by (auto simp: env_init_def Let_def apfst_def map_prod_def split: option.splits sum.splits prod.splits)
  qed
  from write_env_file_success [OF this] show ?thesis by auto
qed

text \<open>A certificate that was obtained left its context and a complete environment behind.\<close>

lemma get_ca_success:
  assumes "get_intermediate_ca E L mo fate st = (Some (Inr ca), st')"
  shows "bo_context st' \<noteq> None \<and> (\<exists>secrets. bo_file st' = Some (env_string secrets))"
proof -
  obtain secrets ctx e3 where "env_init E L mo fate secrets (st\<lparr>bo_e3 := e3, bo_context := context_set ctx (bo_context st)\<rparr>) = (Some (Inr ()), st')"
    using assms by (auto simp: get_intermediate_ca_def Let_def split: option.splits sum.splits prod.splits)
  from env_init_success [OF this] show ?thesis by (auto simp: context_set_def split: option.splits)
qed

lemma ca_attempts_results: "ca_attempts E L as st = (Some rs, st') \<Longrightarrow> snd (get_ca_with_retry n rs) = Some ca \<Longrightarrow>
  \<exists>mo fate st1. get_intermediate_ca E L mo fate st1 = (Some (Inr ca), st')"
proof (induction as arbitrary: st rs n)
  case (Cons a as)
  obtain mo fate where a: "a = (mo, fate)" by (cases a)
  obtain x st1 where g: "get_intermediate_ca E L mo fate st = (x, st1)" by fastforce
  show ?case
  proof (cases "\<exists>e. x = Some (Inl e)")
    case True
    then obtain e rs' where "ca_attempts E L as st1 = (Some rs', st')" "rs = Inl e # rs'"
      using Cons.prems(1) by (auto simp: a g apfst_def map_prod_def split: prod.splits)
    with Cons.IH Cons.prems(2) show ?thesis by (auto split: if_splits)
  next
    case False
    with Cons.prems have "x = Some (Inr ca)" "st1 = st'" by (auto simp: a g split: option.splits sum.splits)
    with g show ?thesis by blast
  qed
qed simp

lemma not_ready_without_mark:
  assumes "file_ok st" and "sees_boot W st" and "\<forall>c \<in> set (bo_contents st). \<not> sublist ''EV_INITIALIZED'' c"
  shows "check_user_process_initialized W a = (a, Inr AgInitializing)"
proof (cases "bo_file st")
  case None
  then show ?thesis using assms(2) by (simp add: check_user_process_initialized_def sees_boot_def)
next
  case (Some f)
  then obtain c where "c \<in> set (bo_contents st)" "prefix f c" using file_okD [OF assms(1)] by blast
  with assms(3) have "\<not> sublist ''EV_INITIALIZED'' f" by (meson prefix_imp_sublist sublist_order.order_trans)
  with Some assms(2) show ?thesis by (simp add: check_user_process_initialized_def sees_boot_def)
qed

lemma marker_has_mark: "sublist ''EV_INITIALIZED'' (c @ startup_marker)"
proof -
  have "c @ startup_marker = (c @ ''export '') @ ''EV_INITIALIZED'' @ ''=true''" by (simp add: startup_marker_def)
  then show ?thesis by (metis sublist_appendI)
qed

text \<open>The mark is in what was appended exactly when its first 21 bytes were written; it cannot begin in the environment before it.\<close>

lemma marker_prefix: "sublist ''EV_INITIALIZED'' (take n startup_marker) \<longleftrightarrow> 21 \<le> n"
proof
  assume m: "sublist ''EV_INITIALIZED'' (take n startup_marker)"
  have no: "\<not> sublist ''EV_INITIALIZED'' (take 20 startup_marker)" by (simp add: startup_marker_def sublist_code)
  show "21 \<le> n"
  proof (rule ccontr)
    assume "\<not> 21 \<le> n"
    then have "take n startup_marker = take n (take 20 startup_marker)" by (simp add: min_def)
    then have "sublist (take n startup_marker) (take 20 startup_marker)"
      using prefix_imp_sublist [OF take_is_prefix [of n "take 20 startup_marker"]] by simp
    from sublist_order.order_trans [OF m this] no show False by blast
  qed
next
  assume "21 \<le> n"
  then have l: "take n ''export EV_INITIALIZED'' = ''export EV_INITIALIZED''" by (intro take_all) simp
  have m: "startup_marker = ''export EV_INITIALIZED'' @ ''=true''" by (simp add: startup_marker_def)
  have "take n startup_marker = ''export EV_INITIALIZED'' @ take (n - 21) ''=true''" unfolding m take_append l by (simp add: eval_nat_numeral)
  also have "\<dots> = ''export '' @ ''EV_INITIALIZED'' @ take (n - 21) ''=true''" by simp
  finally show "sublist ''EV_INITIALIZED'' (take n startup_marker)" by (metis sublist_appendI)
qed

lemma mark_after:
  assumes "\<not> sublist ''EV_INITIALIZED'' c"
  shows "sublist ''EV_INITIALIZED'' (c @ take n startup_marker) \<longleftrightarrow> 21 \<le> n"
proof -
  have "xs2 = []" if "''EV_INITIALIZED'' = xs1 @ xs2" "prefix xs2 (take n startup_marker)" for xs1 xs2
  proof (cases xs2)
    case (Cons x xs)
    have "prefix xs2 startup_marker" using that(2) take_is_prefix prefix_order.order_trans by blast
    then have "x = CHR ''e''" using Cons by (simp add: startup_marker_def)
    moreover have "x \<in> set ''EV_INITIALIZED''" unfolding that(1) Cons by simp
    ultimately show ?thesis by simp
  qed
  with assms have "\<not> (\<exists>xs1 xs2. ''EV_INITIALIZED'' = xs1 @ xs2 \<and> suffix xs1 c \<and> prefix xs2 (take n startup_marker))"
    by (metis append_Nil2 suffix_imp_sublist)
  then show ?thesis using assms by (simp only: sublist_append marker_prefix simp_thms)
qed

text \<open>
  (C17) The health agent takes the enclave for initialised exactly when the mark got into the environment file. After a
  start that obtained the intermediate certificate and the trusted one and wrote the mark, a check makes the agent
  ready. After any number of failed attempts, after a panic, when the trusted certificate is missing, and when the file cannot be
  opened for the mark, it stays initialising. When writing the mark fails, and with it the start, the agent is ready all the same if
  the first 21 bytes, which hold the text it looks for, were written, and stays initialising otherwise. The condition is that no
  secret of the environment brings the text of the mark with it. The certificate resolver is made after the mark: nothing is
  said of it.
\<close>

theorem agent_ready_iff_started:
  assumes "with_attestable_cert E L attempts trusted fate \<lparr>bo_e3 = e3, bo_context = None, bo_file = None, bo_contents = []\<rparr> = (r, st)"
    and "sees_boot W st" and "\<forall>c \<in> set (bo_contents st). \<not> sublist ''EV_INITIALIZED'' c"
  shows "check_user_process_initialized W a =
    (case r of
       Started cert key \<Rightarrow> (a\<lparr>agent_state := AgReady\<rparr>, Inr AgReady)
     | StartupFails e \<Rightarrow>
        if \<exists>n \<ge> 21. fate = WriteFails n then (a\<lparr>agent_state := AgReady\<rparr>, Inr AgReady) else (a, Inr AgInitializing)
     | _ \<Rightarrow> (a, Inr AgInitializing))"
proof -
  let ?st0 = "\<lparr>bo_e3 = e3, bo_context = None, bo_file = None, bo_contents = []\<rparr>"
  obtain x st1 where x: "ca_attempts E L attempts ?st0 = (x, st1)" by fastforce
  have ok: "file_ok st1" using file_ok_attempts [OF _ x] by (simp add: file_ok_def)
  show ?thesis
  proof (cases "(\<exists>cert key. r = Started cert key) \<or> (\<exists>e. r = StartupFails e)")
    case True
    then obtain rs ca y where rs: "x = Some rs" "snd (get_ca_with_retry 0 rs) = Some ca"
      and w: "write_startup_complete_env_vars fate st1 = (y, st)"
      and r: "r = (case y of Inl e \<Rightarrow> StartupFails e | Inr _ \<Rightarrow> Started (fst ca) (snd ca))"
      using assms(1) by (auto simp: with_attestable_cert_def x split: option.splits prod.splits sum.splits if_splits)
    obtain secrets where c: "bo_context st1 \<noteq> None" "bo_file st1 = Some (env_string secrets)"
      using ca_attempts_results [OF x [unfolded rs(1)] rs(2)] get_ca_success by metis
    have "bo_contents st1 = bo_contents st" using w c(2)
      by (cases fate) (auto simp: write_startup_complete_env_vars_def)
    then obtain d where "d \<in> set (bo_contents st)" "prefix (env_string secrets) d" using file_okD [OF ok c(2)] by auto
    with assms(3) have no: "\<not> sublist ''EV_INITIALIZED'' (env_string secrets)"
      by (meson prefix_imp_sublist sublist_order.order_trans)
    have agent: "check_user_process_initialized W a
        = (if sublist ''EV_INITIALIZED'' f then (a\<lparr>agent_state := AgReady\<rparr>, Inr AgReady) else (a, Inr AgInitializing))"
      if "bo_file st = Some f" "bo_context st \<noteq> None" for f
      using assms(2) that by (auto simp: check_user_process_initialized_def sees_boot_def)
    show ?thesis
    proof (cases fate)
      case CreateFails
      with w c have "y = Inl EnvIo" "st = st1" by (simp_all add: write_startup_complete_env_vars_def)
      with agent [of "env_string secrets"] c no show ?thesis by (simp add: r CreateFails)
    next
      case (WriteFails n)
      with w c have "y = Inl EnvIo" "bo_file st = Some (env_string secrets @ take n startup_marker)" "bo_context st \<noteq> None"
        by (auto simp: write_startup_complete_env_vars_def)
      with agent mark_after [OF no, of n] show ?thesis by (simp add: r WriteFails)
    next
      case Written
      with w c have "y = Inr ()" "bo_file st = Some (env_string secrets @ startup_marker)" "bo_context st \<noteq> None"
        by (auto simp: write_startup_complete_env_vars_def)
      with agent marker_has_mark [of "env_string secrets"] show ?thesis by (simp add: r)
    qed
  next
    case False
    then have "st = st1"
      using assms(1) by (auto simp: with_attestable_cert_def x split: option.splits prod.splits sum.splits if_splits)
    with not_ready_without_mark [OF ok] assms(2,3) False show ?thesis by (auto split: startup.splits)
  qed
qed

text \<open>A secret whose name or text contains the mark makes the agent ready as soon as the environment is written.\<close>

theorem secret_with_mark_makes_ready:
  assumes "bo_file st = Some (env_string secrets)" and "s \<in> set secrets" and "sublist ''EV_INITIALIZED'' (sc_name s)"
    and "bo_context st = Some c" and "sees_boot W st"
  shows "check_user_process_initialized W a = (a\<lparr>agent_state := AgReady\<rparr>, Inr AgReady)"
proof -
  obtain xs ys where "secrets = xs @ s # ys" using split_list [OF assms(2)] by blast
  then have "env_string secrets = (env_string xs @ ''export '') @ sc_name s @ (''='' @ sc_secret s @ ''  '' @ env_string ys)"
    by (simp add: env_string_def)
  then have "sublist (sc_name s) (env_string secrets)" by (metis sublist_appendI)
  with assms(3) have "sublist ''EV_INITIALIZED'' (env_string secrets)" by (meson sublist_order.order_trans)
  then show ?thesis using assms by (simp add: check_user_process_initialized_def sees_boot_def)
qed

text \<open>
  The file quotes nothing: one secret whose text goes on with another assignment writes the same file as two
  secrets.
\<close>

theorem env_string_ambiguous:
  "env_string [\<lparr>sc_name = n, sc_secret = v @ ''  export '' @ n' @ ''='' @ v'\<rparr>]
    = env_string [\<lparr>sc_name = n, sc_secret = v\<rparr>, \<lparr>sc_name = n', sc_secret = v'\<rparr>]"
  by (simp add: env_string_def)

text \<open>Without TLS termination, a token that cannot be obtained once ends the process although its caller logs errors.\<close>

theorem missing_cert_token_panics:
  assumes "get_cert_token (mo_config mo) (mo_link mo) (es_config (bo_e3 st)) = (Inl e, cs)"
  shows "fst (init_without_certs E L mo fate fate' st) = None"
  using assms by (simp add: init_without_certs_def Let_def)

text \<open>Trusted headers are compared in lower case whatever the configuration says; the first context set stays.\<close>

lemma context_set_first: "context_set c' (context_set c cell) = context_set c cell"
  by (simp add: context_set_def split: option.splits)

section \<open>An example\<close>

definition sample_boot_lib :: "((string \<times> bytes) list, bytes, string) startup_lib" where
  "sample_boot_lib =
     \<lparr>sl_crypto = sample_crypto_json, sl_doc_body = Some,
      sl_cert_response = (\<lambda>_. Some \<lparr>gc_intermediate_cert = ''cert'', gc_key_pair = ''key'', gc_secrets = Some [\<lparr>sc_name = ''A'', sc_secret = ''1''\<rparr>],
         gc_context = \<lparr>pcx_cage_uuid = ''u'', pcx_cage_name = ''n'', pcx_team_uuid = ''t'', pcx_app_uuid = ''a''\<rparr>\<rparr>),
      sl_secrets_response = (\<lambda>_. None), sl_secrets_json = (\<lambda>_. []), sl_secrets_from = (\<lambda>_. None), sl_b64_encode = id, sl_b64_decode = Some,
      sl_x509_from_pem = Some, sl_key_from_pem = Some, sl_show_attestation = (\<lambda>_. [])\<rparr>"

definition sample_boot_moment :: "link \<Rightarrow> alist_store e3_moment" where
  "sample_boot_moment l =
     (sample_moment 0 l)\<lparr>mo_nsm := \<lparr>nsm_open = True, nsm_random = Some ''r'', nsm_attest = (\<lambda>_ n. NsmDocument n)\<rparr>,
        mo_config := sample_config\<lparr>cf_provisioner := (cf_provisioner sample_config)\<lparr>pv_send := (\<lambda>_ _. Inr (200, [])), pv_cert_token := (\<lambda>_. Some ''ct'')\<rparr>\<rparr>\<rparr>"

definition sample_boot :: "((string \<times> bytes) list, one_cache, alist_store, unit, nat) boot_state" where
  "sample_boot = \<lparr>bo_e3 = e3_start sample_e3 \<lparr>cs_store = (0, []), cs_logs = []\<rparr> (), bo_context = None, bo_file = None, bo_contents = []\<rparr>"

definition sample_started :: "string startup \<times> ((string \<times> bytes) list, one_cache, alist_store, unit, nat) boot_state" where
  "sample_started = with_attestable_cert sample_e3 sample_boot_lib
     [(sample_boot_moment NoConnection, Written), (sample_boot_moment Delivered, Written)] True Written sample_boot"

definition sample_hc_world :: "unit hc_world" where
  "sample_hc_world =
     \<lparr>hw_customer_env = FileContents ''export A=1  export EV_INITIALIZED=true'', hw_context = Inr (), hw_uri_valid = (\<lambda>_. True),
      hw_request = (\<lambda>_. Inl ''refused''), hw_json = (\<lambda>_. None)\<rparr>"

lemma sample_cert_token:
  "get_cert_token (mo_config (sample_boot_moment l)) Delivered cs = (Inr ''ct'', cs)"
  "get_cert_token (mo_config (sample_boot_moment l)) NoConnection cs = (Inl DpIo, cs)"
  using dec_enc_strs [of "[''ct'']"]
  by (simp_all add: get_cert_token_def then_parse_def client_send_def Let_def handle_incoming_request_def handle_token_request_def
      provisioner_get_token_def get_token_request_metadata_from_env_def provisioner_send_def sample_boot_moment_def sample_config_def
      is_success_def build_success_response_def parse_response_def ref_json_def one_field_def)

lemma sample_net_fields [simp]:
  "tt_valid_uri sample_net u" "tt_valid_method sample_net m" "tt_socket sample_net port w = (True, w)" "tt_handshake sample_net w = (True, w)"
  "tt_peer sample_net n w = (Some \<lparr>pc_end_entity = [], pc_intermediates = [], pc_server_name = n, pc_ocsp_response = []\<rparr>, w)"
  "tt_exchange sample_net q w = (Some \<lparr>cp_status = 200, cp_body = Some ''ok''\<rparr>, w)"
  by (simp_all add: sample_net_def)

lemma sample_post:
  "\<exists>e3. provisioner_post sample_e3 sample_boot_lib (sample_boot_moment l) path parse ''ct'' st
    = (Some (ok_or SerdeError (parse ''ok'')), e3)"
  using sample_values(4)
  by (simp add: provisioner_post_def provisioner_attestation_doc_def get_attestation_doc_def get_nonce_def base_send_def build_client_request_def
      Let_def sample_boot_moment_def sample_boot_lib_def provisioner_base_client_def verify_cert_provisioner_def get_conn_def base_parse_response_def
      is_success_def)

lemma sample_ca:
  "get_intermediate_ca sample_e3 sample_boot_lib (sample_boot_moment NoConnection) fate st = (Some (Inl (IcToken DpIo)), st)"
  "\<exists>e3. get_intermediate_ca sample_e3 sample_boot_lib (sample_boot_moment Delivered) Written st
    = (Some (Inr (''cert'', ''key'')), st\<lparr>bo_e3 := e3,
         bo_context := context_set \<lparr>ec_team_uuid = ''t'', ec_app_uuid = ''a'', ec_uuid = ''u'', ec_name = ''n''\<rparr> (bo_context st),
         bo_contents := bo_contents st @ [''export A=1  ''], bo_file := Some ''export A=1  ''\<rparr>)"
proof -
  have l: "mo_link (sample_boot_moment l) = l" for l by (simp add: sample_boot_moment_def sample_moment_def)
  show "get_intermediate_ca sample_e3 sample_boot_lib (sample_boot_moment NoConnection) fate st = (Some (Inl (IcToken DpIo)), st)"
    by (simp add: get_intermediate_ca_def sample_cert_token l Let_def)
  obtain e3 where "provisioner_post sample_e3 sample_boot_lib (sample_boot_moment Delivered) ''/cert'' (sl_cert_response sample_boot_lib) ''ct'' (bo_e3 st)
    = (Some (ok_or SerdeError (sl_cert_response sample_boot_lib ''ok'')), e3)" using sample_post by blast
  then show "\<exists>e3. get_intermediate_ca sample_e3 sample_boot_lib (sample_boot_moment Delivered) Written st
    = (Some (Inr (''cert'', ''key'')), st\<lparr>bo_e3 := e3,
         bo_context := context_set \<lparr>ec_team_uuid = ''t'', ec_app_uuid = ''a'', ec_uuid = ''u'', ec_name = ''n''\<rparr> (bo_context st),
         bo_contents := bo_contents st @ [''export A=1  ''], bo_file := Some ''export A=1  ''\<rparr>)"
    by (auto simp: get_intermediate_ca_def sample_cert_token l Let_def provisioner_get_cert_def sample_boot_lib_def env_init_def is_encrypted_def
        write_env_file_def env_string_def parse_cert_def parse_key_def enclave_context_from_def)
qed

lemma sample_boot_started:
  "\<exists>e3. sample_started = (Started ''cert'' ''key'', \<lparr>bo_e3 = e3,
     bo_context = Some \<lparr>ec_team_uuid = ''t'', ec_app_uuid = ''a'', ec_uuid = ''u'', ec_name = ''n''\<rparr>,
     bo_file = Some ''export A=1  export EV_INITIALIZED=true'', bo_contents = [''export A=1  '']\<rparr>)"
  using sample_ca(2) [of sample_boot]
  by (auto simp: sample_started_def with_attestable_cert_def sample_ca(1) write_startup_complete_env_vars_def sample_boot_def context_set_def
      startup_marker_def)

theorem agent_ready_iff_started_witness:
  "fst sample_started = Started ''cert'' ''key''
    \<and> check_user_process_initialized sample_hc_world (spawn_customer_healthcheck_agent 8008 None False)
      = ((spawn_customer_healthcheck_agent 8008 None False)\<lparr>agent_state := AgReady\<rparr>, Inr AgReady)"
proof -
  obtain e3 where s: "sample_started = (Started ''cert'' ''key'', \<lparr>bo_e3 = e3,
     bo_context = Some \<lparr>ec_team_uuid = ''t'', ec_app_uuid = ''a'', ec_uuid = ''u'', ec_name = ''n''\<rparr>,
     bo_file = Some ''export A=1  export EV_INITIALIZED=true'', bo_contents = [''export A=1  '']\<rparr>)" (is "_ = (_, ?st)")
    using sample_boot_started by blast
  have "sees_boot sample_hc_world ?st" by (simp add: sees_boot_def sample_hc_world_def)
  moreover have "\<forall>c \<in> set (bo_contents ?st). \<not> sublist ''EV_INITIALIZED'' c" by (simp add: sublist_code)
  ultimately have "check_user_process_initialized sample_hc_world (spawn_customer_healthcheck_agent 8008 None False)
      = ((spawn_customer_healthcheck_agent 8008 None False)\<lparr>agent_state := AgReady\<rparr>, Inr AgReady)"
    using agent_ready_iff_started [OF s [unfolded sample_started_def sample_boot_def], of sample_hc_world] by simp
  then show ?thesis by (simp only: s fst_conv simp_thms)
qed

end
