(* ===== verification/Proxy_Protocol.thy ===== *)
theory Proxy_Protocol
  imports Ip_Address
begin

text \<open>
  Incoming connections with a PROXY protocol header, \<open>shared/src/server/proxy_protocol.rs\<close> and the
  listeners of \<open>shared/src/server/tcp.rs\<close> and \<open>shared/src/server/vsock.rs\<close> that use it. A connection is
  the list of the outcomes of its reads, \<open>None\<close> for an I/O error; its end is the end of the stream. The
  header parser of \<open>ppp\<close> is a parameter; the locale \<open>pp_parser\<close> states that more input does not change
  the outcome once a header was recognised or excluded.
\<close>

section \<open>Connections\<close>

datatype Addresses = AddrIPv4 Ipv4Addr | AddrIPv6 Ipv6Addr | AddrOther

record PPHeader =
  pp_len :: nat
  pp_source :: Addresses

datatype pp_result = PpHeader PPHeader | PpIncomplete | PpPartial nat | PpInvalid

datatype SharedServerError = IoError | UnexpectedEOF

type_synonym inner_conn = "bytes option list"

record AcceptedConn =
  ac_inner :: inner_conn
  ac_proxy_protocol :: "PPHeader option"
  ac_preread :: "bytes option"

definition accepted_new :: "inner_conn \<Rightarrow> PPHeader option \<Rightarrow> bytes option \<Rightarrow> AcceptedConn" where
  "accepted_new inner hdr opt_preread =
     \<lparr>ac_inner = inner, ac_proxy_protocol = hdr,
      ac_preread = (case opt_preread of Some b \<Rightarrow> if b \<noteq> [] then Some b else None | None \<Rightarrow> None)\<rparr>"

text \<open>Reading from the underlying connection into a buffer with room for \<open>n\<close> bytes.\<close>

definition inner_read :: "nat \<Rightarrow> inner_conn \<Rightarrow> (SharedServerError, bytes) result \<times> inner_conn" where
  "inner_read n inner =
     (case inner of
        [] \<Rightarrow> (Inr [], [])
      | None # cs \<Rightarrow> (Inl IoError, cs)
      | Some c # cs \<Rightarrow> (Inr (take n c), if length c \<le> n then cs else Some (drop n c) # cs))"

definition poll_read :: "nat \<Rightarrow> AcceptedConn \<Rightarrow> (SharedServerError, bytes) result \<times> AcceptedConn" where
  "poll_read n conn =
     (case ac_preread conn of
        Some preread \<Rightarrow>
          (let len = min (length preread) n; rest = drop len preread in
           (Inr (take len preread), conn\<lparr>ac_preread := (if rest = [] then None else Some rest)\<rparr>))
      | None \<Rightarrow>
          (let (r, inner) = inner_read n (ac_inner conn) in (r, conn\<lparr>ac_inner := inner\<rparr>)))"

section \<open>Parsing the header\<close>

text \<open>
  The loop: read, parse all that was read, stop at a header, at something that is no header, or at the
  end of the stream. \<open>None\<close> is the panic of \<open>drain\<close> on a header longer than the buffer.
\<close>

fun parse_loop ::
  "(bytes \<Rightarrow> pp_result) \<Rightarrow> bytes \<Rightarrow> inner_conn \<Rightarrow> (SharedServerError, AcceptedConn) result option" where
  "parse_loop parse buf [] = Some (Inl UnexpectedEOF)"
| "parse_loop parse buf (None # cs) = Some (Inl IoError)"
| "parse_loop parse buf (Some c # cs) =
     (if c = [] then Some (Inl UnexpectedEOF)
      else (let buf = buf @ c in
        case parse buf of
          PpHeader h \<Rightarrow>
            if pp_len h \<le> length buf
            then Some (Inr (accepted_new cs (Some h) (Some (drop (pp_len h) buf)))) else None
        | PpIncomplete \<Rightarrow> parse_loop parse buf cs
        | PpPartial _ \<Rightarrow> parse_loop parse buf cs
        | PpInvalid \<Rightarrow> Some (Inr (accepted_new cs None (Some buf)))))"

definition try_parse_proxy_protocol ::
  "(bytes \<Rightarrow> pp_result) \<Rightarrow> inner_conn \<Rightarrow> (SharedServerError, AcceptedConn) result option" where
  "try_parse_proxy_protocol parse incoming = parse_loop parse [] incoming"

definition has_proxy_protocol :: "AcceptedConn \<Rightarrow> bool" where
  "has_proxy_protocol conn \<longleftrightarrow> ac_proxy_protocol conn \<noteq> None"

definition get_remote_addr :: "AcceptedConn \<Rightarrow> string option" where
  "get_remote_addr conn =
     Option.bind (ac_proxy_protocol conn) (\<lambda>h. case pp_source h of
        AddrIPv4 ip \<Rightarrow> Some (ipv4_to_string ip)
      | AddrIPv6 ip \<Rightarrow> Some (ipv6_to_string ip)
      | AddrOther \<Rightarrow> None)"

text \<open>\<open>accept\<close> of the listeners with proxy protocol; \<open>None\<close> as the connection is an accept error.\<close>

definition accept_with_proxy_protocol ::
  "(bytes \<Rightarrow> pp_result) \<Rightarrow> inner_conn option \<Rightarrow> (SharedServerError, AcceptedConn) result option" where
  "accept_with_proxy_protocol parse conn =
     (case conn of None \<Rightarrow> Some (Inl IoError) | Some c \<Rightarrow> try_parse_proxy_protocol parse c)"

section \<open>No byte is lost\<close>

text \<open>The bytes a reader can still get; a stream without errors and empty reads.\<close>

definition stream_of :: "inner_conn \<Rightarrow> bytes" where
  "stream_of cs = concat (List.map_filter id cs)"

definition remaining :: "AcceptedConn \<Rightarrow> bytes" where
  "remaining conn = (case ac_preread conn of Some b \<Rightarrow> b | None \<Rightarrow> []) @ stream_of (ac_inner conn)"

definition clean :: "inner_conn \<Rightarrow> bool" where
  "clean cs \<longleftrightarrow> (\<forall>c \<in> set cs. \<exists>b. c = Some b \<and> b \<noteq> [])"

lemma stream_of_simps [simp]:
  "stream_of [] = []" "stream_of (Some c # cs) = c @ stream_of cs" "stream_of (None # cs) = stream_of cs"
  by (simp_all add: stream_of_def List.map_filter_simps)

lemma clean_simps [simp]:
  "clean []" "clean (Some c # cs) \<longleftrightarrow> c \<noteq> [] \<and> clean cs" "\<not> clean (None # cs)"
  by (auto simp: clean_def)

lemma remaining_new [simp]: "remaining (accepted_new cs h (Some b)) = b @ stream_of cs"
  by (simp add: remaining_def accepted_new_def)

lemma poll_read_remaining:
  "poll_read n conn = (Inr b, conn') \<Longrightarrow> remaining conn = b @ remaining conn'"
  by (auto simp: poll_read_def remaining_def inner_read_def Let_def min_def
      split: option.splits list.splits if_splits prod.splits)

text \<open>Any sequence of reads, with buffers of any sizes.\<close>

fun read_sizes :: "nat list \<Rightarrow> AcceptedConn \<Rightarrow> (SharedServerError, bytes) result \<times> AcceptedConn" where
  "read_sizes [] conn = (Inr [], conn)"
| "read_sizes (n # ns) conn =
     (case poll_read n conn of
        (Inl e, conn') \<Rightarrow> (Inl e, conn')
      | (Inr b, conn') \<Rightarrow>
          (case read_sizes ns conn' of
             (Inl e, conn'') \<Rightarrow> (Inl e, conn'')
           | (Inr bs, conn'') \<Rightarrow> (Inr (b @ bs), conn'')))"

lemma read_sizes_remaining:
  "read_sizes ns conn = (Inr b, conn') \<Longrightarrow> remaining conn = b @ remaining conn'"
proof (induction ns arbitrary: conn b)
  case (Cons n ns)
  then show ?case
    by (auto split: prod.splits sum.splits dest!: poll_read_remaining)
qed simp

locale pp_parser =
  fixes parse :: "bytes \<Rightarrow> pp_result"
  assumes header_stable: "parse b = PpHeader h \<Longrightarrow> parse (b @ c) = PpHeader h"
    and invalid_stable: "parse b = PpInvalid \<Longrightarrow> parse (b @ c) = PpInvalid"
    and header_length: "parse b = PpHeader h \<Longrightarrow> pp_len h \<le> length b"
begin

text \<open>The outcome depends on the bytes of the stream only, not on how they arrive.\<close>

lemma parse_loop_stream:
  assumes "clean cs" "parse buf \<noteq> PpInvalid" "\<And>h. parse buf \<noteq> PpHeader h"
  shows "case parse (buf @ stream_of cs) of
      PpHeader h \<Rightarrow> \<exists>conn. parse_loop parse buf cs = Some (Inr conn) \<and> ac_proxy_protocol conn = Some h
        \<and> remaining conn = drop (pp_len h) (buf @ stream_of cs)
    | PpInvalid \<Rightarrow> \<exists>conn. parse_loop parse buf cs = Some (Inr conn) \<and> ac_proxy_protocol conn = None
        \<and> remaining conn = buf @ stream_of cs
    | _ \<Rightarrow> parse_loop parse buf cs = Some (Inl UnexpectedEOF)"
  using assms
proof (induction cs arbitrary: buf)
  case Nil
  then show ?case by (simp split: pp_result.splits)
next
  case (Cons r cs)
  then obtain c where c: "r = Some c" "c \<noteq> []" "clean cs" by (cases r) auto
  show ?case
  proof (cases "parse (buf @ c)")
    case (PpHeader h)
    with header_stable [of "buf @ c" h "stream_of cs"] header_length [OF PpHeader] c show ?thesis
      by (auto simp: Let_def accepted_new_def remaining_def)
  next
    case PpInvalid
    with invalid_stable [of "buf @ c" "stream_of cs"] c show ?thesis
      by (auto simp: Let_def accepted_new_def remaining_def)
  next
    case PpIncomplete
    then have "parse_loop parse buf (r # cs) = parse_loop parse (buf @ c) cs" using c by simp
    with Cons.IH [of "buf @ c"] PpIncomplete c show ?thesis by (simp del: parse_loop.simps split: pp_result.splits)
  next
    case (PpPartial n)
    then have "parse_loop parse buf (r # cs) = parse_loop parse (buf @ c) cs" using c by simp
    with Cons.IH [of "buf @ c"] PpPartial c show ?thesis by (simp del: parse_loop.simps split: pp_result.splits)
  qed
qed

end

text \<open>
  (C37) Accepting a connection consumes the header and nothing else, however the bytes arrive: when the
  stream starts with a header, the header is reported and what a reader gets, with buffers of any
  sizes, are the bytes behind it; when it does not, a reader gets every byte of the stream; when it
  ends inside a header, the connection is refused.
\<close>

theorem proxy_protocol_loses_no_byte:
  assumes "pp_parser parse" and "parse [] = PpIncomplete" and "clean cs"
  shows "case parse (stream_of cs) of
      PpHeader h \<Rightarrow> \<exists>conn. try_parse_proxy_protocol parse cs = Some (Inr conn) \<and> ac_proxy_protocol conn = Some h
        \<and> (\<forall>ns b conn'. read_sizes ns conn = (Inr b, conn') \<longrightarrow> drop (pp_len h) (stream_of cs) = b @ remaining conn')
    | PpInvalid \<Rightarrow> \<exists>conn. try_parse_proxy_protocol parse cs = Some (Inr conn) \<and> ac_proxy_protocol conn = None
        \<and> (\<forall>ns b conn'. read_sizes ns conn = (Inr b, conn') \<longrightarrow> stream_of cs = b @ remaining conn')
    | _ \<Rightarrow> try_parse_proxy_protocol parse cs = Some (Inl UnexpectedEOF)"
  using pp_parser.parse_loop_stream [OF assms(1,3), of "[]"] assms(2) read_sizes_remaining
  unfolding try_parse_proxy_protocol_def
  by (simp split: pp_result.splits) metis+

section \<open>The framing of version 2\<close>

text \<open>The header of version 2: the signature, two bytes, the length of the rest, the addresses.\<close>

definition pp_signature :: bytes where
  "pp_signature = [CHR 0x0D, CHR 0x0A, CHR 0x0D, CHR 0x0A, CHR 0x00, CHR 0x0D, CHR 0x0A,
     CHR 0x51, CHR 0x55, CHR 0x49, CHR 0x54, CHR 0x0A]"

definition byte_at :: "bytes \<Rightarrow> nat \<Rightarrow> nat" where
  "byte_at b i = of_char (b ! i)"

definition pp_v2 :: "bytes \<Rightarrow> pp_result" where
  "pp_v2 b =
     (if take 12 b \<noteq> take (length b) pp_signature then PpInvalid
      else if length b < 16 then PpIncomplete
      else (let len = byte_at b 14 * 256 + byte_at b 15 in
            if length b < 16 + len then PpPartial (16 + len - length b)
            else PpHeader \<lparr>pp_len = 16 + len,
              pp_source = (if byte_at b 13 = 0x11 \<and> 12 \<le> len
                 then AddrIPv4 (Ipv4 (of_nat (byte_at b 16)) (of_nat (byte_at b 17))
                                     (of_nat (byte_at b 18)) (of_nat (byte_at b 19)))
                 else AddrOther)\<rparr>))"

lemma byte_at_append: "i < length b \<Longrightarrow> byte_at (b @ c) i = byte_at b i"
  by (simp add: byte_at_def nth_append)

lemma signature_append:
  "take 12 (b @ c) = take (length (b @ c)) pp_signature \<Longrightarrow> take 12 b = take (length b) pp_signature"
proof -
  assume "take 12 (b @ c) = take (length (b @ c)) pp_signature"
  then have "take (length b) (take 12 (b @ c)) = take (length b) (take (length (b @ c)) pp_signature)" by simp
  then show ?thesis by (simp add: min_def take_append split: if_splits)
qed

interpretation pp_v2: pp_parser pp_v2
proof (unfold_locales, goal_cases)
  case (1 b h c)
  then have "take 12 (b @ c) = take (length (b @ c)) pp_signature"
    by (auto simp: pp_v2_def pp_signature_def split: if_splits)
  with 1 show ?case
    by (auto simp: pp_v2_def Let_def byte_at_append split: if_splits)
next
  case (2 b c)
  then show ?case
    using signature_append [of b c] by (auto simp: pp_v2_def Let_def split: if_splits)
next
  case (3 b h)
  then show ?case by (auto simp: pp_v2_def Let_def split: if_splits)
qed

definition sample_header :: bytes where
  "sample_header = pp_signature @ [CHR 0x21, CHR 0x11, CHR 0x00, CHR 0x0C,
     CHR 0x01, CHR 0x02, CHR 0x03, CHR 0x04, CHR 0x05, CHR 0x06, CHR 0x07, CHR 0x08,
     CHR 0x00, CHR 0x50, CHR 0x01, CHR 0xBB]"

definition sample_incoming :: inner_conn where
  "sample_incoming = [Some (take 5 sample_header), Some (drop 5 sample_header @ ''he''), Some ''llo'']"

theorem proxy_protocol_loses_no_byte_witness:
  "\<exists>conn. try_parse_proxy_protocol pp_v2 sample_incoming = Some (Inr conn)
     \<and> get_remote_addr conn = Some (ipv4_to_string (Ipv4 1 2 3 4))
     \<and> (\<forall>b conn'. read_sizes [1, 100, 100] conn = (Inr b, conn') \<longrightarrow> ''hello'' = b @ remaining conn')"
proof -
  have p: "pp_v2 (stream_of sample_incoming) = PpHeader \<lparr>pp_len = 28, pp_source = AddrIPv4 (Ipv4 1 2 3 4)\<rparr>"
    by (simp add: sample_incoming_def sample_header_def pp_v2_def pp_signature_def byte_at_def Let_def)
  have d: "drop 28 (stream_of sample_incoming) = ''hello''"
    by (simp add: sample_incoming_def sample_header_def pp_signature_def)
  have "pp_v2 [] = PpIncomplete" "clean sample_incoming"
    by (simp_all add: pp_v2_def sample_incoming_def sample_header_def pp_signature_def)
  from proxy_protocol_loses_no_byte [OF pp_v2.pp_parser_axioms this] p d show ?thesis
    by (auto simp: get_remote_addr_def simp del: read_sizes.simps)
qed

end
