(* ===== verification/Tls_Proxy.thy ===== *)
theory Tls_Proxy
  imports Egress_Proxy
begin

text \<open>
  The proxies of the control plane for the data plane's own TLS connections: the host name of a client
  hello (\<open>shared/src/server/sni.rs\<close>), the proxy to a fixed set of hosts
  (\<open>control-plane/src/tls_proxy.rs\<close>) and the proxy to E3 (\<open>control-plane/src/e3proxy.rs\<close>), with the
  choice of an address in \<open>control-plane/src/dns.rs\<close>. The TLS parser of \<open>tls_parser\<close>, the resolver and
  the sockets are parameters.
\<close>

section \<open>Server name indication\<close>

datatype SNIError = SniHostnameError | SniDomainNotAllowed string | ClientHelloMissing | ExtensionMissing

datatype TlsMessage = ClientHello "bytes option" | OtherMessage

datatype TlsExtension = SNI "(nat \<times> bytes) list" | OtherExtension

text \<open>The parsers stream: they can also ask for more input.\<close>

datatype 'a tls_parsed = TlsParsed 'a | TlsParseError | TlsIncomplete

record tls_parser =
  parse_tls_plaintext :: "bytes \<Rightarrow> TlsMessage list tls_parsed"
  parse_tls_extensions :: "bytes \<Rightarrow> TlsExtension list tls_parsed"

text \<open>\<open>finish()\<close> of nom, with the error of the caller; \<open>None\<close> is its panic on a parser that asks for more input.\<close>

definition nom_finish :: "'a tls_parsed \<Rightarrow> (SNIError, 'a) result option" where
  "nom_finish r = (case r of TlsParsed x \<Rightarrow> Some (Inr x) | TlsParseError \<Rightarrow> Some (Inl SniHostnameError) | TlsIncomplete \<Rightarrow> None)"

text \<open>The two nested loops: the last name that is valid UTF-8 wins.\<close>

fun sni_names :: "(nat \<times> bytes) list \<Rightarrow> string \<Rightarrow> string" where
  "sni_names [] destination = destination"
| "sni_names ((_, item) # rest) destination =
     sni_names rest (case from_utf8 item of Some hostname \<Rightarrow> hostname | None \<Rightarrow> destination)"

fun sni_extensions :: "TlsExtension list \<Rightarrow> string \<Rightarrow> string" where
  "sni_extensions [] destination = destination"
| "sni_extensions (SNI sni_vec # rest) destination = sni_extensions rest (sni_names sni_vec destination)"
| "sni_extensions (OtherExtension # rest) destination = sni_extensions rest destination"

text \<open>\<open>None\<close> is a panic: of \<open>finish()\<close>, or of the index \<open>msg[0]\<close> on a record without messages.\<close>

definition get_hostname :: "tls_parser \<Rightarrow> bytes \<Rightarrow> (SNIError, string) result option" where
  "get_hostname P data =
     (case nom_finish (parse_tls_plaintext P data) of
        None \<Rightarrow> None
      | Some (Inl e) \<Rightarrow> Some (Inl e)
      | Some (Inr []) \<Rightarrow> None
      | Some (Inr (ClientHello ext # _)) \<Rightarrow>
          (case ext of
             None \<Rightarrow> Some (Inl ExtensionMissing)
           | Some raw_extensions \<Rightarrow>
               (case nom_finish (parse_tls_extensions P raw_extensions) of
                  None \<Rightarrow> None
                | Some (Inl e) \<Rightarrow> Some (Inl e)
                | Some (Inr extensions) \<Rightarrow> Some (Inr (sni_extensions extensions ''''))))
      | Some (Inr (OtherMessage # _)) \<Rightarrow> Some (Inl ClientHelloMissing))"

section \<open>Choice of an address\<close>

text \<open>\<open>get_ip_for_host_with_dns_resolver\<close>: \<open>pick\<close> is the random choice among the addresses.\<close>

definition get_ip_for_host ::
  "(string \<Rightarrow> IpAddr list option) \<Rightarrow> (IpAddr list \<Rightarrow> IpAddr option) \<Rightarrow> string \<Rightarrow> u16 \<Rightarrow>
   (CpServerError, (IpAddr \<times> u16) option) result" where
  "get_ip_for_host lookup_ip pick host port =
     (case lookup_ip host of
        None \<Rightarrow> Inl CpDnsError
      | Some addrs \<Rightarrow> Inr (map_option (\<lambda>ip. (ip, port)) (pick addrs)))"

section \<open>The TLS proxy\<close>

record TlsProxy =
  hosts :: "string list"
  target_port :: u16

record tls_env =
  te_parser :: tls_parser
  te_lookup :: "string \<Rightarrow> IpAddr list option"
  te_pick :: "IpAddr list \<Rightarrow> IpAddr option"

text \<open>What happens to an accepted connection.\<close>

record tls_conn =
  tl_read :: "bytes option"
  tl_connect :: bool
  tl_write :: bool
  tl_copy :: copy_outcome

datatype tls_event = AcceptFails | Accepted tls_conn

text \<open>What the proxy does for a connection; \<open>Forward\<close> also records the host it was made for.\<close>

datatype tls_action =
    NoAction
  | ShutdownConn
  | Forward string "IpAddr \<times> u16" bytes "(unit, unit) result"

text \<open>
  The body of the loop: it stops the listener with the error of a failed read or by the panic of the
  host name parser, and continues otherwise.
\<close>

datatype 'e loop_step = Stops "'e option" | Continues tls_action

definition tls_handle :: "tls_env \<Rightarrow> TlsProxy \<Rightarrow> tls_event \<Rightarrow> CpServerError loop_step" where
  "tls_handle E P ev =
     (case ev of
        AcceptFails \<Rightarrow> Continues NoAction
      | Accepted conn \<Rightarrow>
         (case tl_read conn of
            None \<Rightarrow> Stops (Some CpIo)
          | Some available \<Rightarrow>
             (let initial_bytes = read_into 4096 available in
              case get_hostname (te_parser E) initial_bytes of
                None \<Rightarrow> Stops None
              | Some (Inl e) \<Rightarrow> Continues ShutdownConn
              | Some (Inr host) \<Rightarrow>
                  if host \<in> set (hosts P)
                  then (case get_ip_for_host (te_lookup E) (te_pick E) (host @ ''.'') (target_port P) of
                          Inl e \<Rightarrow> Continues ShutdownConn
                        | Inr None \<Rightarrow> Continues ShutdownConn
                        | Inr (Some addr) \<Rightarrow>
                            if \<not> tl_connect conn then Continues ShutdownConn
                            else if \<not> tl_write conn then Continues ShutdownConn
                            else Continues (Forward host addr initial_bytes (pipe_streams (tl_copy conn))))
                  else Continues ShutdownConn)))"

text \<open>\<open>TlsProxy::listen\<close> over the connections that arrive; the result of the loop if it stopped.\<close>

fun tls_listen :: "tls_env \<Rightarrow> TlsProxy \<Rightarrow> tls_event list \<Rightarrow> tls_action list \<times> CpServerError option option" where
  "tls_listen E P [] = ([], None)"
| "tls_listen E P (ev # evs) =
     (case tls_handle E P ev of
        Stops e \<Rightarrow> ([], Some e)
      | Continues a \<Rightarrow> (let (as, r) = tls_listen E P evs in (a # as, r)))"

section \<open>The proxy to E3\<close>

text \<open>The connection is accepted, the address looked up, the streams joined; nothing is read before.\<close>

definition e3_handle :: "tls_env \<Rightarrow> tls_event \<Rightarrow> tls_action" where
  "e3_handle E ev =
     (case ev of
        AcceptFails \<Rightarrow> NoAction
      | Accepted conn \<Rightarrow>
         (case get_ip_for_host (te_lookup E) (te_pick E) ''e3.cages-e3.internal.'' 443 of
            Inl e \<Rightarrow> ShutdownConn
          | Inr None \<Rightarrow> ShutdownConn
          | Inr (Some addr) \<Rightarrow>
              if \<not> tl_connect conn then ShutdownConn
              else Forward ''e3.cages-e3.internal'' addr [] (pipe_streams (tl_copy conn))))"

definition e3_listen :: "tls_env \<Rightarrow> tls_event list \<Rightarrow> tls_action list" where
  "e3_listen E evs = map (e3_handle E) evs"

section \<open>Properties\<close>

lemma tls_handle_forward:
  assumes "tls_handle E P ev = Continues (Forward host addr b r)"
  shows "host \<in> set (hosts P) \<and> snd addr = target_port P
    \<and> (\<exists>conn data. ev = Accepted conn \<and> tl_read conn = Some data \<and> b = take 4096 data
         \<and> get_hostname (te_parser E) b = Some (Inr host))
    \<and> (\<exists>addrs. te_lookup E (host @ ''.'') = Some addrs \<and> te_pick E addrs = Some (fst addr))"
  using assms
  by (auto simp: tls_handle_def get_ip_for_host_def Let_def read_into_def
      split: tls_event.splits option.splits sum.splits if_splits)

text \<open>
  (C36) The TLS proxy forwards a connection only to an address of a configured host, the one the client
  hello names, and starts with exactly the bytes it had read from the connection.
\<close>

theorem tls_proxy_forwards_to_named_host:
  assumes "Forward host addr b r \<in> set (fst (tls_listen E P evs))"
  shows "host \<in> set (hosts P) \<and> snd addr = target_port P
    \<and> (\<exists>conn data. Accepted conn \<in> set evs \<and> tl_read conn = Some data \<and> b = take 4096 data
         \<and> get_hostname (te_parser E) b = Some (Inr host))
    \<and> (\<exists>addrs. te_lookup E (host @ ''.'') = Some addrs \<and> te_pick E addrs = Some (fst addr))"
  using assms
proof (induction evs)
  case (Cons ev evs)
  show ?case
  proof (cases "tls_handle E P ev")
    case (Continues a)
    with Cons.prems consider "a = Forward host addr b r" | "Forward host addr b r \<in> set (fst (tls_listen E P evs))"
      by (auto split: prod.splits)
    then show ?thesis
    proof cases
      case 1
      with tls_handle_forward [of E P ev host addr b r] Continues show ?thesis by auto
    next
      case 2
      with Cons.IH show ?thesis by auto
    qed
  qed (use Cons in simp)
qed simp

text \<open>
  One connection whose first read fails ends the proxy: no connection after it is served.
\<close>

theorem tls_read_error_ends_proxy:
  assumes "tl_read conn = None"
  shows "tls_listen E P (Accepted conn # evs) = ([], Some (Some CpIo))
    \<and> length (e3_listen E (Accepted conn # evs)) = Suc (length evs)"
  using assms by (simp add: tls_handle_def e3_listen_def)

text \<open>
  A connection whose first read does not hold a whole record (it is cut, longer than the buffer, or closed at once) panics in the
  loop of the proxy, and with it the task that joins the services of the control plane.
\<close>

theorem cut_hello_panics:
  assumes "tl_read conn = Some available" and "parse_tls_plaintext (te_parser E) (read_into 4096 available) = TlsIncomplete"
  shows "tls_listen E P (Accepted conn # evs) = ([], Some None)"
  using assms by (simp add: tls_handle_def get_hostname_def nom_finish_def Let_def)

definition sample_tls :: tls_env where
  "sample_tls =
     \<lparr>te_parser = \<lparr>parse_tls_plaintext = (\<lambda>b. if b = ''hello'' then TlsParsed [ClientHello (Some ''ext'')]
                     else if prefix b ''hello'' then TlsIncomplete else TlsParseError),
                   parse_tls_extensions = (\<lambda>_. TlsParsed [OtherExtension, SNI [(0, ''a.com'')]])\<rparr>,
      te_lookup = (\<lambda>h. if h = ''a.com.'' then Some [V4 (Ipv4 9 9 9 9)] else None),
      te_pick = (\<lambda>l. case l of [] \<Rightarrow> None | x # _ \<Rightarrow> Some x)\<rparr>"

definition good_conn :: tls_conn where
  "good_conn = \<lparr>tl_read = Some ''hello'', tl_connect = True, tl_write = True, tl_copy = CopyDone\<rparr>"

definition bad_conn :: tls_conn where
  "bad_conn = \<lparr>tl_read = None, tl_connect = True, tl_write = True, tl_copy = CopyDone\<rparr>"

lemma sample_tls_forwards:
  "tls_listen sample_tls \<lparr>hosts = [''a.com''], target_port = 443\<rparr> [Accepted good_conn] =
   ([Forward ''a.com'' (V4 (Ipv4 9 9 9 9), 443) ''hello'' (Inr ())], None)"
  by code_simp

theorem tls_proxy_forwards_to_named_host_witness:
  "get_hostname (te_parser sample_tls) ''hello'' = Some (Inr ''a.com'')"
  using tls_proxy_forwards_to_named_host [of "''a.com''" "(V4 (Ipv4 9 9 9 9), 443)" "''hello''" "Inr ()" sample_tls
      "\<lparr>hosts = [''a.com''], target_port = 443\<rparr>" "[Accepted good_conn]",
      unfolded sample_tls_forwards]
  by auto

theorem tls_read_error_ends_proxy_witness:
  "tls_listen sample_tls \<lparr>hosts = [''a.com''], target_port = 443\<rparr> [Accepted bad_conn, Accepted good_conn]
     = ([], Some (Some CpIo))"
  using tls_read_error_ends_proxy [of bad_conn sample_tls _ "[Accepted good_conn]"] by (simp add: bad_conn_def)

end
