(* ===== verification/Plane_Main.thy ===== *)
theory Plane_Main
  imports Enclave_Startup Egress_Proxy Proxy_Protocol Tls_Proxy
begin

text \<open>
  The two processes: what the control plane reads from its environment (\<open>control-plane/src/configuration.rs\<close>,
  \<open>acme_account_details.rs\<close>, \<open>clients/mtls_config.rs\<close>), how it reaches the certificate provisioner
  (\<open>clients/cert_provisioner.rs\<close>), its listener for clients and its shutdown (\<open>control-plane/src/main.rs\<close>); the
  arguments of the data plane and its mode without TLS termination (\<open>data-plane/src/main.rs\<close>). The environment of a
  process is a map; PEM, keys and sockets are parameters. A panic is \<open>None\<close>.
\<close>

section \<open>Configuration of the control plane\<close>

type_synonym env_vars = "string \<rightharpoonup> string"

datatype Environment = Development | Staging | Production

definition environment_from_str :: "string \<Rightarrow> Environment" where
  "environment_from_str input =
     (if input = ''staging'' then Staging else if input = ''production'' then Production else Development)"

definition get_rust_env :: "env_vars \<Rightarrow> Environment" where
  "get_rust_env env = (case env ''RUST_ENV'' of Some e \<Rightarrow> environment_from_str e | None \<Rightarrow> Development)"

text \<open>The variables of \<open>configuration.rs\<close>; reading one that is not set is a panic where the value is needed.\<close>

abbreviation get_enclave_uuid :: "env_vars \<Rightarrow> string option" where
  "get_enclave_uuid env \<equiv> env ''CAGE_UUID''"

abbreviation get_enclave_version :: "env_vars \<Rightarrow> string option" where
  "get_enclave_version env \<equiv> env ''EV_CAGE_VERSION_ID''"

abbreviation get_enclave_name :: "env_vars \<Rightarrow> string option" where
  "get_enclave_name env \<equiv> env ''EV_CAGE_NAME''"

abbreviation get_app_uuid :: "env_vars \<Rightarrow> string option" where
  "get_app_uuid env \<equiv> env ''EV_APP_UUID''"

abbreviation get_team_uuid :: "env_vars \<Rightarrow> string option" where
  "get_team_uuid env \<equiv> env ''EV_TEAM_UUID''"

abbreviation get_acme_s3_bucket :: "env_vars \<Rightarrow> string option" where
  "get_acme_s3_bucket env \<equiv> env ''ACME_S3_BUCKET''"

abbreviation get_acme_hmac_key :: "env_vars \<Rightarrow> string option" where
  "get_acme_hmac_key env \<equiv> env ''ACME_ACCOUNT_HMAC_KEY''"

abbreviation get_acme_hmac_key_id :: "env_vars \<Rightarrow> string option" where
  "get_acme_hmac_key_id env \<equiv> env ''ACME_ACCOUNT_HMAC_KEY_ID''"

definition cp_context_from_env_vars :: "env_vars \<Rightarrow> CpEnclaveContext option" where
  "cp_context_from_env_vars env =
     Option.bind (get_enclave_uuid env) (\<lambda>uuid.
     Option.bind (get_enclave_version env) (\<lambda>version.
     Option.bind (get_enclave_name env) (\<lambda>name.
     Option.bind (get_app_uuid env) (\<lambda>app_uuid.
     Option.bind (get_team_uuid env) (\<lambda>team_uuid.
       Some \<lparr>cx_uuid = uuid, cx_version = version, cx_name = name, cx_app_uuid = app_uuid, cx_team_uuid = team_uuid\<rparr>)))))"

definition get_cert_provisoner_host :: "env_vars \<Rightarrow> string" where
  "get_cert_provisoner_host env =
     (if get_rust_env env \<in> {Staging, Production} then ''provisioner.cages.internal'' else ''localhost'')"

definition get_acme_hosts :: "string list" where
  "get_acme_hosts = [''acme-v02.api.letsencrypt.org'', ''acme.zerossl.com'']"

record key_lib =
  kl_ec_from_pem :: "bytes \<Rightarrow> PKey option"
  kl_b64_decode :: "string \<Rightarrow> bytes option"
  kl_hmac :: "bytes \<Rightarrow> PKey option"
  kl_certs :: "bytes \<Rightarrow> (string, bytes list) result"
  kl_pkcs8 :: "bytes \<Rightarrow> (string, bytes list) result"
  kl_root_ok :: "bytes \<Rightarrow> bool"
  kl_client_ok :: "bytes list \<Rightarrow> bytes \<Rightarrow> bool"

definition hmac_from_b64_string :: "key_lib \<Rightarrow> string \<Rightarrow> PKey option" where
  "hmac_from_b64_string K key = Option.bind (kl_b64_decode K key) (kl_hmac K)"

text \<open>\<open>new_from_env\<close>: a missing variable or a bad key panics, a bad HMAC key is an error.\<close>

definition get_acme_ec_key :: "key_lib \<Rightarrow> env_vars \<Rightarrow> PKey option" where
  "get_acme_ec_key K env = Option.bind (env ''ACME_ACCOUNT_EC_KEY'') (kl_ec_from_pem K)"

definition acme_details_new_from_env :: "key_lib \<Rightarrow> env_vars \<Rightarrow> (unit, AcmeAccountDetails) result option" where
  "acme_details_new_from_env K env =
     Option.bind (get_acme_ec_key K env) (\<lambda>ec_key.
     Option.bind (get_acme_hmac_key_id env) (\<lambda>hmac_key_id.
     Option.bind (get_acme_hmac_key env) (\<lambda>hmac_key_raw.
       Some (try_bind (ok_or () (hmac_from_b64_string K hmac_key_raw)) (\<lambda>hmac_key.
         Inr \<lparr>ad_account_ec_key = ec_key,
              ad_eab_config = Some \<lparr>eab_key_id = hmac_key_id, eab_private_key = hmac_key\<rparr>\<rparr>)))))"

section \<open>Certificates for mutual TLS\<close>

datatype MtlsError = MtlsEnv string | CertProvisionerMtls string

record CertProvisionerMtlsCerts =
  mt_root_certificate :: bytes
  mt_client_key_pair :: "bytes list \<times> bytes"

definition parse_client_certs :: "key_lib \<Rightarrow> bytes \<Rightarrow> (MtlsError, bytes list) result" where
  "parse_client_certs K client_cert_raw =
     try_bind (map_err (\<lambda>err. CertProvisionerMtls (''Couldn't parse cert-provisioner client cert. Error:   '' @ err)) (kl_certs K client_cert_raw))
       (\<lambda>certs. if certs = [] then Inl (CertProvisionerMtls ''No client certs present in input to parse.'') else Inr certs)"

definition parse_client_key :: "key_lib \<Rightarrow> bytes \<Rightarrow> (MtlsError, bytes) result" where
  "parse_client_key K client_key_raw =
     try_bind (map_err (\<lambda>err. CertProvisionerMtls (''Couldn't parse cert-provisioner client key from secrets. Error: '' @ err)) (kl_pkcs8 K client_key_raw))
       (\<lambda>parsed_keys. if parsed_keys = [] then Inl (CertProvisionerMtls ''No client key present in input to parse.'') else Inr (parsed_keys ! 0))"

definition parse_root_cert :: "key_lib \<Rightarrow> bytes \<Rightarrow> (MtlsError, bytes) result" where
  "parse_root_cert K root_cert_raw =
     try_bind (map_err (\<lambda>err. CertProvisionerMtls (''Couldn't parse cert-provisioner root cert. Error: '' @ err)) (kl_certs K root_cert_raw))
       (\<lambda>certs. if length certs \<noteq> 1 then Inl (CertProvisionerMtls ''Expected only a single root cert. '') else Inr (certs ! 0))"

definition mtls_from_env_vars :: "key_lib \<Rightarrow> env_vars \<Rightarrow> (MtlsError, CertProvisionerMtlsCerts) result" where
  "mtls_from_env_vars K env =
     (let var = (\<lambda>v. ok_or (MtlsEnv v) (env v)) in
      try_bind (var ''CERT_PROVISIONER_MTLS_CLIENT_CERT'') (\<lambda>client_certs_raw.
      try_bind (var ''CERT_PROVISIONER_MTLS_CLIENT_KEY'') (\<lambda>client_key_raw.
      try_bind (var ''CERT_PROVISIONER_MTLS_ROOT_CERT'') (\<lambda>root_certificate_raw.
      try_bind (parse_client_certs K client_certs_raw) (\<lambda>client_certs_parsed.
      try_bind (parse_client_key K client_key_raw) (\<lambda>client_key_parsed.
      try_bind (parse_root_cert K root_certificate_raw) (\<lambda>root_certificate_parsed.
        Inr \<lparr>mt_root_certificate = root_certificate_parsed, mt_client_key_pair = (client_certs_parsed, client_key_parsed)\<rparr>)))))))"

text \<open>The connector of the client panics on a root or a key pair that rustls refuses.\<close>

definition get_mtls_connector :: "key_lib \<Rightarrow> bytes \<Rightarrow> bytes list \<times> bytes \<Rightarrow> (bytes \<times> bytes list \<times> bytes) option" where
  "get_mtls_connector K root_certificate client_key_pair =
     (if \<not> kl_root_ok K root_certificate then None
      else (case client_key_pair of (chain, key) \<Rightarrow>
              if kl_client_ok K chain key then Some (root_certificate, chain, key) else None))"

definition CERT_PROVISIONER_MTLS_PORT :: nat where "CERT_PROVISIONER_MTLS_PORT = 3443"

definition construct_uri :: "env_vars \<Rightarrow> nat \<Rightarrow> string \<Rightarrow> string" where
  "construct_uri env port path = ''https://'' @ get_cert_provisoner_host env @ '':'' @ show_nat port @ path"

definition provisioner_connect :: "bool \<Rightarrow> bool \<Rightarrow> bool \<Rightarrow> (ConfigError, unit) result" where
  "provisioner_connect socket_ok tls_ok handshake_ok =
     (if \<not> socket_ok then Inl CfgIo else if \<not> tls_ok then Inl CfgIo else if \<not> handshake_ok then Inl CfgHyper else Inr ())"

text \<open>\<open>send\<close> up to the status: the request it builds and what comes back, which is \<open>pv_send\<close> of the configuration server.\<close>

record provisioner_request =
  pr_uri :: string
  pr_method :: string
  pr_headers :: "(string \<times> string) list"
  pr_body :: bytes

definition provisioner_transport ::
  "env_vars \<Rightarrow> string option \<Rightarrow> (bool \<times> bool \<times> bool) \<Rightarrow> (provisioner_request \<Rightarrow> (nat \<times> bytes) option) \<Rightarrow> string \<Rightarrow> bytes \<Rightarrow> (ConfigError, nat \<times> bytes) result" where
  "provisioner_transport env pkg conn server path body =
     (let request =
        \<lparr>pr_uri = construct_uri env CERT_PROVISIONER_MTLS_PORT path, pr_method = ''GET'',
         pr_headers = [(''Content-Type'', ''application/json''), (''User-Agent'', ''Cage-Control-Plane/'' @ CLIENT_VERSION pkg),
           (''Accept'', ''application/json;version='' @ CLIENT_MAJOR_VERSION pkg)],
         pr_body = body\<rparr> in
      try_bind (provisioner_connect (fst conn) (fst (snd conn)) (snd (snd conn))) (\<lambda>_.
        ok_or CfgHyper (server request)))"

section \<open>Clients of the control plane\<close>

text \<open>
  The accept loop: an accept that fails is skipped; the request is counted in the loop itself, before the task of
  the connection is spawned. \<open>None\<close>: the loop panicked, and with it the process. A task reaches the enclave or
  shuts its client down, and panics when that fails.
\<close>

record client_conn =
  cc_enclave :: bool
  cc_shutdown :: bool
  cc_copy :: copy_outcome

datatype conn_end = EnclavePiped "(unit, unit) result" | ClientShutDown | TaskPanicked

definition proxy_client :: "client_conn \<Rightarrow> conn_end" where
  "proxy_client c =
     (if \<not> cc_enclave c then (if cc_shutdown c then ClientShutDown else TaskPanicked)
      else EnclavePiped (pipe_streams (cc_copy c)))"

fun tcp_accept_loop :: "bool \<Rightarrow> env_vars \<Rightarrow> client_conn option list \<Rightarrow> (conn_end list \<times> 'f metric list) option" where
  "tcp_accept_loop client env [] = Some ([], [])"
| "tcp_accept_loop client env (None # cs) = tcp_accept_loop client env cs"
| "tcp_accept_loop client env (Some c # cs) =
     Option.bind (Option.bind (cp_context_from_env_vars env) (cp_record_request client)) (\<lambda>ms.
       map_option (map_prod (Cons (proxy_client c)) (append ms)) (tcp_accept_loop client env cs))"

definition tcp_server :: "bool \<Rightarrow> bool \<Rightarrow> env_vars \<Rightarrow> client_conn option list \<Rightarrow> (unit, conn_end list \<times> 'f metric list) result option" where
  "tcp_server bind_ok client env cs = (if \<not> bind_ok then Some (Inl ()) else map_option Inr (tcp_accept_loop client env cs))"

section \<open>Shutdown of the control plane\<close>

text \<open>
  What the task does and when, in milliseconds: nothing in development, nothing when the handler of the signal could
  not be installed (the channel is closed then), and otherwise after the first signal.
\<close>

datatype shutdown_action = SetDraining | TerminateEnclave

definition shutdown_actions :: "Environment \<Rightarrow> bool \<Rightarrow> nat option \<Rightarrow> (nat \<times> shutdown_action) list" where
  "shutdown_actions env handler_ok signalled =
     (if env = Development then []
      else if \<not> handler_ok then []
      else (case signalled of
              None \<Rightarrow> []
            | Some t \<Rightarrow> [(t, SetDraining), (t + 55000, TerminateEnclave)]))"

definition is_draining_at :: "(nat \<times> shutdown_action) list \<Rightarrow> nat \<Rightarrow> bool" where
  "is_draining_at actions now \<longleftrightarrow> (\<exists>(t, a) \<in> set actions. a = SetDraining \<and> t \<le> now)"

definition health_at ::
  "Environment \<Rightarrow> bool \<Rightarrow> nat option \<Rightarrow> nat \<Rightarrow> bytes option \<Rightarrow> (string, 'j HealthCheckVersion) result \<Rightarrow> nat \<times> 'j CombinedHealthCheckLog option" where
  "health_at env handler_ok signalled now agent checked =
     health_check_service agent (is_draining_at (shutdown_actions env handler_ok signalled) now) checked"

section \<open>The data plane\<close>

definition data_plane_port :: "string list \<Rightarrow> nat" where
  "data_plane_port args =
     (case args of _ # port_str # _ \<Rightarrow> (case parse_u16 port_str of Some p \<Rightarrow> p | None \<Rightarrow> 8008) | _ \<Rightarrow> 8008)"

text \<open>
  \<open>main\<close>: without a readable context the process ends; otherwise it serves the port, and the health check asks the
  port of the context if there is one.
\<close>

record data_plane_start =
  dp_port :: nat
  dp_agent_port :: nat
  dp_agent_path :: "string option"
  dp_agent_tls :: bool

definition data_plane_main ::
  "(string \<Rightarrow> FeatureContext option) \<Rightarrow> (string \<Rightarrow> string) \<Rightarrow> string option \<Rightarrow> string list \<Rightarrow> data_plane_start option" where
  "data_plane_main from_str to_lowercase file args =
     (let port = data_plane_port args in
      case feature_context_set from_str to_lowercase file None of
        (Inl _, _) \<Rightarrow> None
      | (Inr _, cell) \<Rightarrow>
         map_option (\<lambda>ctx. \<lparr>dp_port = port,
            dp_agent_port = (case healthcheck_port ctx of Some p \<Rightarrow> p | None \<Rightarrow> port),
            dp_agent_path = healthcheck ctx,
            dp_agent_tls = (case healthcheck_use_tls ctx of Some b \<Rightarrow> b | None \<Rightarrow> False)\<rparr>) cell)"

text \<open>The mode without TLS termination: a task per connection copies bytes between the client and the user process.\<close>

datatype passthrough_effect = WriteHeader PPHeader | CopyStreams AcceptedConn

record customer_conn =
  cu_connect :: bool
  cu_write :: bool

definition passthrough_connection :: "bool \<Rightarrow> customer_conn \<Rightarrow> AcceptedConn \<Rightarrow> passthrough_effect list" where
  "passthrough_connection forward_proxy c conn =
     (if \<not> cu_connect c then []
      else (case ac_proxy_protocol conn of
              Some h \<Rightarrow>
                if forward_proxy
                then (if cu_write c then [WriteHeader h, CopyStreams conn] else [])
                else [CopyStreams conn]
            | None \<Rightarrow> [CopyStreams conn]))"

text \<open>\<open>None\<close> as a result is a panic while a connection is accepted; errors of accept are skipped.\<close>

fun passthrough_loop ::
  "(bytes \<Rightarrow> pp_result) \<Rightarrow> bool \<Rightarrow> (inner_conn option \<times> customer_conn) list \<Rightarrow> passthrough_effect list list option" where
  "passthrough_loop parse forward_proxy [] = Some []"
| "passthrough_loop parse forward_proxy ((incoming, c) # cs) =
     (case accept_with_proxy_protocol parse incoming of
        None \<Rightarrow> None
      | Some (Inl _) \<Rightarrow> passthrough_loop parse forward_proxy cs
      | Some (Inr conn) \<Rightarrow>
          map_option (Cons (passthrough_connection forward_proxy c conn)) (passthrough_loop parse forward_proxy cs))"

definition run_tcp_passthrough ::
  "('h, 'c, 'w) e3_env \<Rightarrow> ('h, 'v, 'k) startup_lib \<Rightarrow> 's e3_moment \<Rightarrow> file_fate \<Rightarrow> file_fate \<Rightarrow> FeatureContext option
   \<Rightarrow> (bytes \<Rightarrow> pp_result) \<Rightarrow> (inner_conn option \<times> customer_conn) list \<Rightarrow> ('h, 'c, 's, 'w, 'f) boot_state
   \<Rightarrow> passthrough_effect list list option \<times> ('h, 'c, 's, 'w, 'f) boot_state" where
  "run_tcp_passthrough E L mo fate fate' cell parse cs st =
     (case context_get cell of
        Inl _ \<Rightarrow> (Some [], st)
      | Inr context \<Rightarrow>
         (case init_without_certs E L mo fate fate' st of
            (None, st') \<Rightarrow> (None, st')
          | (Some _, st') \<Rightarrow> (passthrough_loop parse (forward_proxy_protocol context) cs, st')))"

section \<open>Draining\<close>

text \<open>
  Outside development, from the moment a termination signal arrives, every health check of ECS is answered with
  status 500 and the state draining, whatever the data plane would say; before it, health checks are not affected.
  The enclave is terminated once, exactly 55 seconds after the signal, so that the answers change 55 seconds before
  the enclave is gone.
\<close>

theorem drained_before_termination:
  assumes "env \<noteq> Development"
  shows "(\<forall>now \<ge> t. \<forall>checked. health_at env True (Some t) now (Some ''ECS-HealthCheck'') checked
      = (500, Some \<lparr>cl_control_plane = CpDraining,
           cl_data_plane = V1 (DpUnknown ''Enclave is draining, data-plane health will not be checked'')\<rparr>))
    \<and> (\<forall>now < t. \<forall>ua checked. health_at env True (Some t) now ua checked = health_at env True None now ua checked)
    \<and> filter (\<lambda>(t', a). a = TerminateEnclave) (shutdown_actions env True (Some t)) = [(t + 55000, TerminateEnclave)]"
  using assms
  by (auto simp: health_at_def health_check_service_def run_ecs_health_check_service_def is_draining_at_def shutdown_actions_def)

theorem drained_before_termination_witness:
  "health_at Production True (Some 10) 11 (Some ''ECS-HealthCheck'') (Inl ''no enclave'')
    = (500, Some \<lparr>cl_control_plane = CpDraining,
         cl_data_plane = V1 (DpUnknown ''Enclave is draining, data-plane health will not be checked'')\<rparr>)"
proof -
  have "Production \<noteq> Development" "10 \<le> (11 :: nat)" by simp_all
  with drained_before_termination [of Production 10] show ?thesis by blast
qed

section \<open>Certificates\<close>

text \<open>
  The certificates for mutual TLS are complete when they are loaded: at least one client certificate, the first
  key, and exactly one root.
\<close>

theorem mtls_certs_complete:
  assumes "mtls_from_env_vars K env = Inr c"
  shows "\<exists>cert_raw key_raw root_raw key keys. env ''CERT_PROVISIONER_MTLS_CLIENT_CERT'' = Some cert_raw
    \<and> env ''CERT_PROVISIONER_MTLS_CLIENT_KEY'' = Some key_raw \<and> env ''CERT_PROVISIONER_MTLS_ROOT_CERT'' = Some root_raw
    \<and> kl_certs K cert_raw = Inr (fst (mt_client_key_pair c)) \<and> fst (mt_client_key_pair c) \<noteq> []
    \<and> kl_pkcs8 K key_raw = Inr (key # keys) \<and> snd (mt_client_key_pair c) = key
    \<and> kl_certs K root_raw = Inr [mt_root_certificate c]"
proof -
  obtain cert_raw key_raw root_raw certs keys roots where
    e: "env ''CERT_PROVISIONER_MTLS_CLIENT_CERT'' = Some cert_raw" "env ''CERT_PROVISIONER_MTLS_CLIENT_KEY'' = Some key_raw"
      "env ''CERT_PROVISIONER_MTLS_ROOT_CERT'' = Some root_raw"
    and k: "kl_certs K cert_raw = Inr certs" "kl_pkcs8 K key_raw = Inr keys" "kl_certs K root_raw = Inr roots"
    and n: "certs \<noteq> []" "keys \<noteq> []" "length roots = 1"
    and c: "c = \<lparr>mt_root_certificate = roots ! 0, mt_client_key_pair = (certs, keys ! 0)\<rparr>"
    using assms
    by (auto simp: mtls_from_env_vars_def parse_client_certs_def parse_client_key_def parse_root_cert_def Let_def result_simps
        split: if_splits)
  obtain key keys' where "keys = key # keys'" using n(2) by (cases keys) auto
  moreover obtain root where "roots = [root]" using n(3) by (auto simp: length_Suc_conv)
  ultimately show ?thesis using e k n c by auto
qed

section \<open>Connections\<close>

text \<open>
  Without the statsd client, or without one of the variables of the context, the first client ends the accept loop.
\<close>

theorem uncounted_request_panics:
  assumes "\<not> client \<or> cp_context_from_env_vars env = None"
  shows "tcp_accept_loop client env (Some c # cs) = None"
  using assms by (auto simp: cp_record_request_def publish_def bind_eq_None_conv)

text \<open>Otherwise every client has its task, whatever became of those before it, and is counted once.\<close>

theorem every_client_served:
  assumes "cp_context_from_env_vars env = Some ctx"
  shows "\<exists>ms. tcp_accept_loop True env cs = Some (map proxy_client (List.map_filter id cs), ms)
    \<and> length ms = length (List.map_filter id cs)"
proof (induction cs)
  case (Cons c cs)
  then show ?case
    using assms by (cases c) (auto simp: cp_record_request_def publish_def map_filter_simps)
qed (simp add: map_filter_simps)

text \<open>
  Without TLS termination, a connection with a proxy header hands it to the user process exactly when the
  configuration says so, before any byte of the client.
\<close>

theorem header_forwarded_iff_configured:
  assumes "cu_connect c" and "cu_write c"
  shows "passthrough_connection forward_proxy c conn
    = (case ac_proxy_protocol conn of Some h \<Rightarrow> if forward_proxy then [WriteHeader h] else [] | None \<Rightarrow> []) @ [CopyStreams conn]"
  using assms by (simp add: passthrough_connection_def split: option.splits)

text \<open>An environment that could not be initialised does not keep the data plane from serving connections.\<close>

theorem passthrough_serves_without_environment:
  assumes "init_without_certs E L mo fate fate' st = (Some (Inl e), st')"
  shows "run_tcp_passthrough E L mo fate fate' (Some ctx) parse cs st = (passthrough_loop parse (forward_proxy_protocol ctx) cs, st')"
  using assms by (simp add: run_tcp_passthrough_def context_get_def)

text \<open>A port argument that is no number of 16 bits is replaced by 8008 without a word.\<close>

theorem bad_port_is_default: "parse_u16 p = None \<Longrightarrow> data_plane_port (exe # p # args) = 8008"
  by (simp add: data_plane_port_def)

end
