(* ===== verification/Http_Server.thy ===== *)
theory Http_Server
  imports Service_Layers
begin

text \<open>
  A connection of the data plane's server: reading a request from the stream
  (\<open>data-plane/src/server/http/parse.rs\<close>), writing messages (\<open>data-plane/src/server/http/mod.rs\<close>) and the
  loop over the requests of a connection (\<open>data-plane/src/server/server.rs\<close>). The stream is the list of
  the outcomes of its reads. The head parser of \<open>httparse\<close>, the validity of methods and URIs and the
  reason phrases of \<open>http\<close> are parameters.
\<close>

section \<open>Reading a request\<close>

datatype read_event = Chunk bytes | ReadError | ReadTimeout

datatype ParseError = PeIo | PeUnexpectedEof | PeTimeout | PeHyper

record http_head =
  hh_method :: "string option"
  hh_path :: "string option"
  hh_headers :: "(string \<times> bytes) list"

datatype head_result = HeadComplete nat http_head | HeadPartial | HeadError

record 'h http_env =
  he_headers :: "'h headers_api"
  he_parse :: "bytes \<Rightarrow> head_result"
  he_uri :: "string \<Rightarrow> (string \<times> string option) option"
  he_method_valid :: "string \<Rightarrow> bool"
  he_reason :: "nat \<Rightarrow> string option"

datatype 'h Incoming = HttpRequest "'h trx_request" | NonHttpRequest bytes

definition is_websocket_request :: "'h http_env \<Rightarrow> ('h, 'x) http_request \<Rightarrow> bool" where
  "is_websocket_request E req \<longleftrightarrow> hm_get (he_headers E) (rq_headers req) ''upgrade'' = Some ''websocket''"

text \<open>\<open>append_or_insert_header\<close>: \<open>Inl\<close> is an invalid name; \<open>None\<close> the panic on an invalid value.\<close>

definition append_or_insert_header :: "'h headers_api \<Rightarrow> string \<Rightarrow> string \<Rightarrow> 'h \<Rightarrow> (unit, 'h) result option" where
  "append_or_insert_header H header value m =
     (case header_name H header of
        None \<Rightarrow> Some (Inl ())
      | Some name \<Rightarrow>
         (let new = (case Option.bind (hm_get H m name) (header_to_str H) of
                       Some header_val \<Rightarrow> header_val @ '', '' @ value | None \<Rightarrow> value)
          in map_option (\<lambda>v. Inr (hm_insert H name v m)) (header_value H new)))"

definition try_append :: "'h headers_api \<Rightarrow> string \<Rightarrow> string \<Rightarrow> 'h option \<Rightarrow> 'h option" where
  "try_append H header value m =
     Option.bind m (\<lambda>m. map_option (\<lambda>r. case r of Inr m' \<Rightarrow> m' | Inl _ \<Rightarrow> m) (append_or_insert_header H header value m))"

definition add_remote_ip_to_forwarded_for_header :: "'h headers_api \<Rightarrow> string \<Rightarrow> 'h \<Rightarrow> 'h option" where
  "add_remote_ip_to_forwarded_for_header H ip m =
     try_append H ''Forwarded'' (''for='' @ ip @ '';proto=https'')
       (try_append H ''X-Forwarded-Proto'' ''https''
         (try_append H ''X-Forwarded-For'' ip (Some m)))"

fun insert_headers :: "'h headers_api \<Rightarrow> (string \<times> bytes) list \<Rightarrow> 'h \<Rightarrow> (ParseError, 'h) result" where
  "insert_headers H [] m = Inr m"
| "insert_headers H ((n, v) # hs) m =
     (case header_name H n of
        None \<Rightarrow> Inl PeHyper
      | Some name \<Rightarrow>
         (case header_value H v of
            None \<Rightarrow> Inl PeHyper
          | Some val \<Rightarrow> insert_headers H hs (hm_insert H name val m)))"

definition build_header_map_for_request ::
  "'h headers_api \<Rightarrow> (string \<times> bytes) list \<Rightarrow> string option \<Rightarrow> (ParseError, 'h) result option" where
  "build_header_map_for_request H hs remote =
     (case insert_headers H hs (hm_empty H) of
        Inl e \<Rightarrow> Some (Inl e)
      | Inr m \<Rightarrow>
         (case remote of
            None \<Rightarrow> Some (Inr m)
          | Some ip \<Rightarrow> map_option Inr (add_remote_ip_to_forwarded_for_header H ip m)))"

definition get_content_length_from_headers :: "'h headers_api \<Rightarrow> 'h \<Rightarrow> nat option" where
  "get_content_length_from_headers H m =
     Option.bind (Option.bind (hm_get H m ''content-length'') (header_to_str H)) parse_usize"

text \<open>The loop that completes a body: it stops as soon as the buffer has the announced length.\<close>

fun read_incoming_body_from_stream ::
  "nat \<Rightarrow> read_event list \<Rightarrow> bytes \<Rightarrow> (ParseError, bytes) result \<times> read_event list" where
  "read_incoming_body_from_stream cl evs buf =
     (if cl \<le> length buf then (Inr buf, evs)
      else (case evs of
              [] \<Rightarrow> (Inl PeUnexpectedEof, [])
            | ReadTimeout # r \<Rightarrow> (Inl PeTimeout, r)
            | ReadError # r \<Rightarrow> (Inl PeIo, r)
            | Chunk c # r \<Rightarrow>
                if c = [] then (Inl PeUnexpectedEof, r)
                else read_incoming_body_from_stream cl r (buf @ c)))"

declare read_incoming_body_from_stream.simps [simp del]

text \<open>
  A complete head: headers, URI and method, and the body. \<open>None\<close> is a panic: an invalid forwarded
  header, or a reservation of more than \<open>isize::MAX\<close> bytes for the body.
\<close>

definition complete_request ::
  "'h http_env \<Rightarrow> nat \<Rightarrow> string option \<Rightarrow> bytes \<Rightarrow> nat \<Rightarrow> http_head \<Rightarrow> read_event list \<Rightarrow>
   ((ParseError, 'h Incoming) result \<times> read_event list) option" where
  "complete_request E target_port remote buffer body_offset head evs =
     (case build_header_map_for_request (he_headers E) (hh_headers head) remote of
        None \<Rightarrow> None
      | Some (Inl e) \<Rightarrow> Some (Inl e, evs)
      | Some (Inr m) \<Rightarrow>
         (let req_uri = ''http://127.0.0.1:'' @ show_nat target_port
                @ (case hh_path head of Some p \<Rightarrow> p | None \<Rightarrow> ''/'');
              meth = (case hh_method head of Some x \<Rightarrow> x | None \<Rightarrow> ''GET'');
              finish = (\<lambda>body evs.
                case (he_uri E req_uri, he_method_valid E meth) of
                  (Some (path, query), True) \<Rightarrow>
                    (Inr (HttpRequest \<lparr>rq_method = meth, rq_path = path, rq_query = query, rq_headers = m,
                       rq_body = Some body, rq_context = None, rq_remote_ip = remote\<rparr>), evs)
                | _ \<Rightarrow> (Inl PeHyper, evs))
          in case get_content_length_from_headers (he_headers E) m of
               None \<Rightarrow> Some (finish [] evs)
             | Some content_length \<Rightarrow>
                (let body_buffer = drop body_offset buffer in
                 if length body_buffer + content_length \<ge> 2 ^ 63 then None
                 else (case read_incoming_body_from_stream content_length evs body_buffer of
                         (Inl e, evs') \<Rightarrow> Some (Inl e, evs')
                       | (Inr body, evs') \<Rightarrow> Some (finish body evs')))))"

fun try_parse_http_request ::
  "'h http_env \<Rightarrow> nat \<Rightarrow> string option \<Rightarrow> bytes \<Rightarrow> read_event list \<Rightarrow>
   ((ParseError, 'h Incoming) result \<times> read_event list) option" where
  "try_parse_http_request E port remote buffer [] = Some (Inl PeUnexpectedEof, [])"
| "try_parse_http_request E port remote buffer (ReadError # evs) = Some (Inl PeIo, evs)"
| "try_parse_http_request E port remote buffer (ReadTimeout # evs) = try_parse_http_request E port remote buffer evs"
| "try_parse_http_request E port remote buffer (Chunk c # evs) =
     (if c = [] then Some (Inl PeUnexpectedEof, evs)
      else (let buffer = buffer @ c in
        case he_parse E buffer of
          HeadComplete body_offset head \<Rightarrow> complete_request E port remote buffer body_offset head evs
        | HeadPartial \<Rightarrow> try_parse_http_request E port remote buffer evs
        | HeadError \<Rightarrow> Some (Inr (NonHttpRequest buffer), evs)))"

section \<open>Writing messages\<close>

definition crlf :: string where "crlf = [CHR 0x0D, CHR 0x0A]"

definition header_lines :: "'h headers_api \<Rightarrow> 'h \<Rightarrow> bytes" where
  "header_lines H m = concat (map (\<lambda>(n, v). n @ '': '' @ (case header_to_str H v of Some s \<Rightarrow> s | None \<Rightarrow> []) @ crlf)
     (hm_iter H m))"

definition request_to_bytes :: "'h http_env \<Rightarrow> ('h, 'x) http_request \<Rightarrow> bytes" where
  "request_to_bytes E req =
     rq_method req @ '' '' @ rq_path req @ (case rq_query req of Some q \<Rightarrow> ''?'' @ q | None \<Rightarrow> [])
     @ '' HTTP/1.1'' @ crlf @ header_lines (he_headers E) (rq_headers req) @ crlf
     @ (case rq_body req of Some b \<Rightarrow> b | None \<Rightarrow> [])"

definition response_to_bytes :: "'h http_env \<Rightarrow> ('h, 'x) http_response \<Rightarrow> bytes" where
  "response_to_bytes E res =
     rs_version res @ '' '' @ show_nat (rs_status res) @ '' ''
     @ (case he_reason E (rs_status res) of Some r \<Rightarrow> r | None \<Rightarrow> []) @ crlf
     @ header_lines (he_headers E) (rs_headers res) @ crlf
     @ (case rs_body res of Some b \<Rightarrow> b | None \<Rightarrow> [])"

definition build_internal_error_response :: "'h headers_api \<Rightarrow> bytes \<Rightarrow> ('h, 'x) http_response" where
  "build_internal_error_response H body = json_response H 500 body None"

section \<open>A connection\<close>

text \<open>What the task of a connection does, in order.\<close>

datatype conn_effect =
    WriteClient bytes
  | PipeToProcess bytes
  | ShutdownClientConn
  | SendLog TrxContext
  | TaskPanics

record ('h, 'v) server_env =
  sv_http :: "'h http_env"
  sv_layers :: "'h layer_env"
  sv_decrypt :: "('h, 'v, TrxContextBuilder) decrypt_env"
  sv_context :: EnclaveContext
  sv_feature :: FeatureContext
  sv_clock :: trx_clock
  sv_internal_body :: bytes
  sv_port :: nat

text \<open>\<open>None\<close> is the panic of \<open>unwrap\<close> on a context that cannot be built.\<close>

definition log_non_http_trx ::
  "('h, 'v) server_env \<Rightarrow> bool \<Rightarrow> string option \<Rightarrow> TrxContextBuilder option \<Rightarrow> TrxContext option" where
  "log_non_http_trx S authorized remote context_builder =
     (let c = sv_context S;
          b = (case context_builder of
                 Some b \<Rightarrow> b
               | None \<Rightarrow> init_trx_context_with_enclave_details (tk_timestamp (sv_clock S)) (tk_trx_id (sv_clock S))
                           (ec_uuid c) (ec_name c) (ec_app_uuid c) (ec_team_uuid c) TCP)
      in build (add_httparse_to_trx (ly_log (sv_layers S)) authorized None remote b))"

text \<open>The log first, then what follows it; nothing follows a panic.\<close>

definition logged_then :: "TrxContext option \<Rightarrow> conn_effect list \<Rightarrow> conn_effect list" where
  "logged_then l effs = (case l of None \<Rightarrow> [TaskPanics] | Some log \<Rightarrow> SendLog log # effs)"

definition handle_websocket_request ::
  "('h, 'v) server_env \<Rightarrow> string option \<Rightarrow> 'h trx_request \<Rightarrow> conn_effect list" where
  "handle_websocket_request S remote request =
     (let E = sv_layers S; H = le_headers (ly_log E) in
      case init_request_context (ly_log E) (tk_timestamp (sv_clock S)) (tk_trx_id (sv_clock S)) (sv_context S)
             (sv_feature S) request of
        None \<Rightarrow> [TaskPanics]
      | Some context_builder \<Rightarrow>
         (case hm_get H (rq_headers request) ''api-key'' of
            None \<Rightarrow> logged_then (log_non_http_trx S False remote (Some context_builder))
                     [WriteClient (response_to_bytes (sv_http S) (auth_error_response E NoApiKeyGiven None))]
          | Some api_key \<Rightarrow>
             (case auth_request E (sv_context S) api_key of
                Inl err \<Rightarrow> logged_then (log_non_http_trx S False remote (Some context_builder))
                     [WriteClient (response_to_bytes (sv_http S) (auth_error_response E err None))]
              | Inr _ \<Rightarrow> logged_then (log_non_http_trx S True remote (Some context_builder))
                     [PipeToProcess (request_to_bytes (sv_http S) request)])))"

text \<open>An HTTP request goes through the services; the connection is kept unless the task panics.\<close>

definition answer_request :: "('h, 'v) server_env \<Rightarrow> 'h trx_request \<Rightarrow> conn_effect list \<times> bool" where
  "answer_request S request =
     (case data_plane_service (sv_layers S) (sv_decrypt S) (sv_clock S) (sv_context S) (sv_feature S) request of
        (Panic, logs) \<Rightarrow> (map SendLog logs @ [TaskPanics], False)
      | (Fails, logs) \<Rightarrow>
          (map SendLog logs @ [WriteClient (response_to_bytes (sv_http S)
              (build_internal_error_response (he_headers (sv_http S)) (sv_internal_body S) :: 'h trx_response))], True)
      | (Answers response, logs) \<Rightarrow>
          (map SendLog logs @ [WriteClient (response_to_bytes (sv_http S) response)], True))"

text \<open>One turn of the loop: the effects, and whether the loop goes on with the rest of the stream.\<close>

definition serve_turn ::
  "('h, 'v) server_env \<Rightarrow> string option \<Rightarrow> read_event list \<Rightarrow> conn_effect list \<times> read_event list option" where
  "serve_turn S remote evs =
     (case try_parse_http_request (sv_http S) (sv_port S) remote [] evs of
        None \<Rightarrow> ([TaskPanics], None)
      | Some (Inl e, _) \<Rightarrow> ([ShutdownClientConn], None)
      | Some (Inr (HttpRequest request), rest) \<Rightarrow>
          if is_websocket_request (sv_http S) request
          then (handle_websocket_request S remote request, None)
          else (case answer_request S request of (effs, goes_on) \<Rightarrow> (effs, if goes_on then Some rest else None))
      | Some (Inr (NonHttpRequest bytes), _) \<Rightarrow>
          if api_key_auth (sv_feature S)
          then (logged_then (log_non_http_trx S False remote None) [ShutdownClientConn], None)
          else (logged_then (log_non_http_trx S True remote None) [PipeToProcess bytes], None))"

lemma read_body_rest: "length (snd (read_incoming_body_from_stream cl evs buf)) \<le> length evs"
proof (induction cl evs buf rule: read_incoming_body_from_stream.induct)
  case (1 cl evs buf)
  then show ?case
    by (subst read_incoming_body_from_stream.simps)
      (auto split: list.split read_event.split simp: le_Suc_eq)
qed

lemma complete_request_rest:
  "complete_request E port remote buffer off head evs = Some (r, rest) \<Longrightarrow> length rest \<le> length evs"
  using read_body_rest
  by (auto simp: complete_request_def Let_def split: option.splits sum.splits prod.splits if_splits bool.splits)
    (metis snd_conv)+

lemma try_parse_rest:
  "try_parse_http_request E port remote buffer evs = Some (Inr i, rest) \<Longrightarrow> length rest < length evs"
proof (induction E port remote buffer evs rule: try_parse_http_request.induct)
  case (4 E port remote buffer c evs)
  then show ?case
    by (auto simp: Let_def split: if_splits head_result.splits dest!: complete_request_rest)
qed auto

lemma serve_turn_rest: "serve_turn S remote evs = (effs, Some rest) \<Longrightarrow> length rest < length evs"
  by (auto simp: serve_turn_def split: option.splits sum.splits Incoming.splits prod.splits if_splits outcome.splits
      dest: try_parse_rest)

function serve_connection :: "('h, 'v) server_env \<Rightarrow> string option \<Rightarrow> read_event list \<Rightarrow> conn_effect list" where
  "serve_connection S remote evs =
     (case serve_turn S remote evs of
        (effs, None) \<Rightarrow> effs
      | (effs, Some rest) \<Rightarrow> effs @ serve_connection S remote rest)"
  by pat_completeness auto

termination
  by (relation "measure (\<lambda>(S, remote, evs). length evs)") (auto dest: serve_turn_rest [OF sym])

declare serve_connection.simps [simp del]

section \<open>Requests are reassembled\<close>

text \<open>The head parser: complete at the end of the head whatever follows, partial before it.\<close>

locale http_head_parser =
  fixes parse :: "bytes \<Rightarrow> head_result"
  assumes complete_append: "parse h = HeadComplete (length h) hdr \<Longrightarrow> parse (h @ x) = HeadComplete (length h) hdr"
    and partial_prefix: "parse h = HeadComplete (length h) hdr \<Longrightarrow> n < length h \<Longrightarrow> parse (take n h) = HeadPartial"
begin

lemma head_in_stream:
  assumes "parse h = HeadComplete (length h) hdr" "buf @ x = h @ body"
  shows "parse buf = (if length buf < length h then HeadPartial else HeadComplete (length h) hdr)"
proof (cases "length buf < length h")
  case True
  with assms(2) have "buf = take (length buf) h"
    by (metis append_eq_append_conv_if append_take_drop_id less_imp_le_nat take_all_iff append.right_neutral)
  with True partial_prefix [OF assms(1) True] show ?thesis by simp
next
  case False
  with assms(2) have "buf = h @ drop (length h) buf"
    by (metis append_eq_append_conv_if append_take_drop_id leI)
  with False complete_append [OF assms(1), of "drop (length h) buf"] show ?thesis by simp
qed

end

lemma read_body_exact:
  assumes "\<forall>c \<in> set cs. c \<noteq> []" "length (buf @ concat cs) = cl"
  shows "read_incoming_body_from_stream cl (map Chunk cs @ rest) buf = (Inr (buf @ concat cs), rest)"
  using assms
proof (induction cs arbitrary: buf)
  case Nil
  then show ?case by (simp add: read_incoming_body_from_stream.simps)
next
  case (Cons c cs)
  then have "length buf < cl" "c \<noteq> []" by (auto simp: length_greater_0_conv [symmetric] simp del: length_greater_0_conv)
  with Cons show ?case by (subst read_incoming_body_from_stream.simps) simp
qed

text \<open>The head is usable: its headers, target and method are valid and it announces a length.\<close>

definition head_ok ::
  "'h http_env \<Rightarrow> nat \<Rightarrow> string option \<Rightarrow> http_head \<Rightarrow> nat \<Rightarrow> 'h \<Rightarrow> string \<Rightarrow> string \<Rightarrow> string option \<Rightarrow> bool" where
  "head_ok E port remote head cl m meth path query \<longleftrightarrow>
     build_header_map_for_request (he_headers E) (hh_headers head) remote = Some (Inr m)
     \<and> get_content_length_from_headers (he_headers E) m = Some cl
     \<and> hh_method head = Some meth \<and> he_method_valid E meth
     \<and> he_uri E (''http://127.0.0.1:'' @ show_nat port @ (case hh_path head of Some p \<Rightarrow> p | None \<Rightarrow> ''/''))
         = Some (path, query)"

definition parsed_request ::
  "string \<Rightarrow> string \<Rightarrow> string option \<Rightarrow> 'h \<Rightarrow> bytes \<Rightarrow> string option \<Rightarrow> 'h trx_request" where
  "parsed_request meth path query m body remote =
     \<lparr>rq_method = meth, rq_path = path, rq_query = query, rq_headers = m, rq_body = Some body,
      rq_context = None, rq_remote_ip = remote\<rparr>"

lemma complete_request_body:
  assumes "head_ok E port remote head cl m meth path query"
    and "read_incoming_body_from_stream cl evs (drop off buffer) = (Inr body, rest)"
    and "length (drop off buffer) + cl < 2 ^ 63"
  shows "complete_request E port remote buffer off head evs =
    Some (Inr (HttpRequest (parsed_request meth path query m body remote)), rest)"
  using assms by (simp add: complete_request_def head_ok_def parsed_request_def Let_def)

lemma try_parse_reassembles:
  assumes "http_head_parser (he_parse E)" and "he_parse E h = HeadComplete (length h) head"
    and "head_ok E port remote head (length body) m meth path query"
    and "length body < 2 ^ 62" and "\<forall>c \<in> set cs. c \<noteq> []" and "buf @ concat cs = h @ body"
    and "length buf < length h"
  shows "try_parse_http_request E port remote buf (map Chunk cs @ rest) =
    Some (Inr (HttpRequest (parsed_request meth path query m body remote)), rest)"
  using assms(5-7)
proof (induction cs arbitrary: buf)
  case Nil
  then have "length buf = length (h @ body)" by simp
  with Nil show ?case by simp
next
  case (Cons c cs)
  note head = http_head_parser.head_in_stream [OF assms(1,2), of "buf @ c" "concat cs" body]
  show ?case
  proof (cases "length (buf @ c) < length h")
    case True
    with Cons head show ?thesis by simp
  next
    case False
    have eq: "(buf @ c) @ concat cs = h @ body" using Cons.prems(2) by simp
    then have body: "drop (length h) (buf @ c) @ concat cs = body"
      using False by (metis append_eq_conv_conj drop_append drop_all diff_is_0_eq drop0 linorder_not_less)
    then have l: "length (drop (length h) (buf @ c)) \<le> length body" by (metis length_append le_add1)
    have "read_incoming_body_from_stream (length body) (map Chunk cs @ rest) (drop (length h) (buf @ c)) = (Inr body, rest)"
      using read_body_exact [of cs "drop (length h) (buf @ c)" "length body"] Cons.prems(1) body
      by (metis list.set_intros(2))
    moreover have "length (drop (length h) (buf @ c)) + length body < 2 ^ 63" using l assms(4) by simp
    ultimately have "complete_request E port remote (buf @ c) (length h) head (map Chunk cs @ rest)
      = Some (Inr (HttpRequest (parsed_request meth path query m body remote)), rest)"
      using complete_request_body [OF assms(3)] by blast
    with Cons.prems(1) head eq False show ?thesis by simp
  qed
qed

text \<open>
  A request with a content length is reassembled from whatever pieces it arrives in: the method, the
  target, the headers and exactly the announced body are what the services get, and what the stream
  carries after it is left for the next request.
\<close>

theorem http_request_reassembled:
  assumes "http_head_parser (he_parse E)" and "he_parse E h = HeadComplete (length h) head"
    and "head_ok E port remote head (length body) m meth path query"
    and "length body < 2 ^ 62" and "\<forall>c \<in> set cs. c \<noteq> []" and "concat cs = h @ body" and "h \<noteq> []"
  shows "try_parse_http_request E port remote [] (map Chunk cs @ rest) =
    Some (Inr (HttpRequest (parsed_request meth path query m body remote)), rest)"
  using try_parse_reassembles [OF assms(1-5), of "[]"] assms(6,7) by simp

text \<open>
  Bytes behind the announced body that arrive in the same read are not kept for the next request:
  a pipelined request becomes part of the body of the one before it.
\<close>

theorem pipelined_bytes_enter_body:
  assumes "http_head_parser (he_parse E)" and "he_parse E h = HeadComplete (length h) head"
    and "head_ok E port remote head (length body) m meth path query"
    and "length (h @ body @ next_request) \<le> 1024" and "h \<noteq> []"
  shows "try_parse_http_request E port remote [] [Chunk (h @ body @ next_request)] =
    Some (Inr (HttpRequest (parsed_request meth path query m (body @ next_request) remote)), [])"
proof -
  have "read_incoming_body_from_stream (length body) [] (body @ next_request) = (Inr (body @ next_request), [])"
    by (simp add: read_incoming_body_from_stream.simps)
  from complete_request_body [OF assms(3), of "[]" "length h" "h @ body @ next_request" "body @ next_request" "[]"] this assms(4)
  have "complete_request E port remote (h @ body @ next_request) (length h) head []
      = Some (Inr (HttpRequest (parsed_request meth path query m (body @ next_request) remote)), [])" by simp
  with assms(5) http_head_parser.complete_append [OF assms(1,2)] show ?thesis by simp
qed

section \<open>Connections\<close>

text \<open>A request arrives in these pieces.\<close>

definition arrives :: "'h http_env \<Rightarrow> nat \<Rightarrow> string option \<Rightarrow> bytes list \<Rightarrow> 'h trx_request \<Rightarrow> bool" where
  "arrives E port remote cs req \<longleftrightarrow>
     (\<exists>h head body m meth path query.
        he_parse E h = HeadComplete (length h) head \<and> head_ok E port remote head (length body) m meth path query
        \<and> length body < 2 ^ 62 \<and> (\<forall>c \<in> set cs. c \<noteq> []) \<and> concat cs = h @ body \<and> h \<noteq> []
        \<and> req = parsed_request meth path query m body remote)"

lemma serve_turn_arrives:
  assumes "http_head_parser (he_parse (sv_http S))" and "arrives (sv_http S) (sv_port S) remote cs req"
    and "\<not> is_websocket_request (sv_http S) req" and "snd (answer_request S req)"
  shows "serve_turn S remote (map Chunk cs @ rest) = (fst (answer_request S req), Some rest)"
proof -
  from assms(2) obtain h head body m meth path query where
    h: "he_parse (sv_http S) h = HeadComplete (length h) head"
      "head_ok (sv_http S) (sv_port S) remote head (length body) m meth path query"
      "length body < 2 ^ 62" "\<forall>c \<in> set cs. c \<noteq> []" "[] @ concat cs = h @ body" "length ([] :: bytes) < length h"
    and req: "req = parsed_request meth path query m body remote"
    unfolding arrives_def by auto
  have "try_parse_http_request (sv_http S) (sv_port S) remote [] (map Chunk cs @ rest)
      = Some (Inr (HttpRequest req), rest)"
    unfolding req by (rule try_parse_reassembles [OF assms(1) h])
  with assms(3,4) show ?thesis by (cases "answer_request S req") (simp add: serve_turn_def)
qed

text \<open>
  (C14) A connection answers its requests one by one and in order: when they arrive one after the other,
  whatever pieces each of them comes in, the effects of the connection are exactly the logs and the
  response of each request, and the end of the stream closes it.
\<close>

theorem connection_answers_requests_in_order:
  assumes "http_head_parser (he_parse (sv_http S))"
    and "list_all2 (arrives (sv_http S) (sv_port S) remote) css reqs"
    and "list_all (\<lambda>req. \<not> is_websocket_request (sv_http S) req \<and> snd (answer_request S req)) reqs"
  shows "serve_connection S remote (concat (map (map Chunk) css))
    = concat (map (\<lambda>req. fst (answer_request S req)) reqs) @ [ShutdownClientConn]"
  using assms(2,3)
proof (induction css reqs rule: list_all2_induct)
  case Nil
  show ?case by (subst serve_connection.simps) (simp add: serve_turn_def)
next
  case (Cons cs css req reqs)
  with serve_turn_arrives [OF assms(1) Cons.hyps(1), of "concat (map (map Chunk) css)"] show ?case
    by (subst serve_connection.simps) simp
qed

text \<open>
  A websocket request is connected to the user process only when it has an API key that E3 accepted,
  whether or not API key authentication is enabled for the enclave.
\<close>

theorem websocket_requires_api_key:
  assumes "PipeToProcess b \<in> set (handle_websocket_request S remote request)"
  shows "\<exists>key. hm_get (le_headers (ly_log (sv_layers S))) (rq_headers request) ''api-key'' = Some key
    \<and> auth_request (sv_layers S) (sv_context S) key = Inr () \<and> b = request_to_bytes (sv_http S) request"
  using assms
  by (auto simp: handle_websocket_request_def logged_then_def Let_def split: option.splits sum.splits)

text \<open>
  Traffic that is not HTTP never reaches the user process, also when authentication is disabled: the
  log record for it is built without a target and a method, which the builder requires, and the task
  panics before the streams are joined.
\<close>

theorem non_http_traffic_panics:
  assumes "try_parse_http_request (sv_http S) (sv_port S) remote [] evs = Some (Inr (NonHttpRequest bs), rest)"
  shows "serve_connection S remote evs = [TaskPanics]"
proof -
  have "log_non_http_trx S authorized remote None = None" for authorized
    by (simp add: log_non_http_trx_def build_init [OF refl])
  with assms have "serve_turn S remote evs = ([TaskPanics], None)"
    by (simp add: serve_turn_def logged_then_def)
  then show ?thesis by (subst serve_connection.simps) simp
qed

section \<open>A concrete server\<close>

text \<open>An executable head parser: the head ends at the first empty line.\<close>

fun head_end :: "bytes \<Rightarrow> nat option" where
  "head_end (a # b # c # d # r) =
     (if [a, b, c, d] = crlf @ crlf then Some 4 else map_option Suc (head_end (b # c # d # r)))"
| "head_end _ = None"

fun lines_of :: "bytes \<Rightarrow> bytes list" where
  "lines_of [] = []"
| "lines_of (c # r) = (if c = CHR 0x0A then [] # lines_of r
     else (case lines_of r of [] \<Rightarrow> [[c]] | l # ls \<Rightarrow> (c # l) # ls))"

definition ref_head :: "bytes \<Rightarrow> http_head" where
  "ref_head b =
     (let ls = lines_of b; sp = (\<lambda>c. c \<noteq> CHR '' ''); target = tl (dropWhile sp (hd ls)) in
      \<lparr>hh_method = Some (takeWhile sp (hd ls)), hh_path = Some (takeWhile sp target),
       hh_headers = map (\<lambda>l. (takeWhile (\<lambda>c. c \<noteq> CHR '':'') l,
                               takeWhile (\<lambda>c. c \<noteq> CHR 0x0D) (drop 2 (dropWhile (\<lambda>c. c \<noteq> CHR '':'') l))))
                      (filter (\<lambda>l. CHR '':'' \<in> set l) (tl ls))\<rparr>)"

definition ref_parse_head :: "bytes \<Rightarrow> head_result" where
  "ref_parse_head b =
     (case head_end b of
        None \<Rightarrow> if list_ex (byte_in 128 255) b then HeadError else HeadPartial
      | Some n \<Rightarrow> if list_ex (byte_in 128 255) (take n b) then HeadError else HeadComplete n (ref_head (take n b)))"

lemma head_end_le: "head_end b = Some n \<Longrightarrow> n \<le> length b"
  by (induction b arbitrary: n rule: head_end.induct) (auto split: if_splits)

lemma head_end_append: "head_end b = Some n \<Longrightarrow> head_end (b @ x) = Some n"
  by (induction b arbitrary: n rule: head_end.induct) (auto split: if_splits)

lemma head_end_take:
  assumes "head_end b = Some n" "k < n"
  shows "head_end (take k b) = None"
proof (rule ccontr)
  assume "head_end (take k b) \<noteq> None"
  then obtain m where m: "head_end (take k b) = Some m" by auto
  from head_end_append [OF m, of "drop k b"] head_end_le [OF m] assms show False by simp
qed

lemma ref_parse_complete:
  "ref_parse_head b = HeadComplete n hdr \<longleftrightarrow>
     head_end b = Some n \<and> \<not> (list_ex (byte_in 128 255) (take n b)) \<and> hdr = ref_head (take n b)"
  by (auto simp: ref_parse_head_def split: option.splits if_splits)

interpretation ref_http: http_head_parser ref_parse_head
proof (unfold_locales, goal_cases)
  case (1 h hdr x)
  then show ?case by (simp add: ref_parse_complete head_end_append)
next
  case (2 h hdr n)
  then have "head_end (take n h) = None" by (auto simp: ref_parse_complete intro: head_end_take)
  moreover have "\<not> list_ex (byte_in 128 255) (take n h)"
    using 2 by (auto simp: ref_parse_complete list_ex_iff dest: in_set_takeD)
  ultimately show ?case by (simp add: ref_parse_head_def)
qed

definition sample_http :: "(string \<times> bytes) list http_env" where
  "sample_http = \<lparr>he_headers = ref_headers, he_parse = ref_parse_head,
     he_uri = (\<lambda>u. Some (drop 19 u, None)), he_method_valid = (\<lambda>m. m = ''GET'' \<or> m = ''POST''),
     he_reason = (\<lambda>n. if n = 200 then Some ''OK'' else None)\<rparr>"

definition sample_head :: bytes where
  "sample_head = ''POST /.well-known/attestation HTTP/1.1'' @ crlf @ ''Content-Length: 5'' @ crlf @ crlf"

definition sample_server :: "((string \<times> bytes) list, string) server_env" where
  "sample_server = \<lparr>sv_http = sample_http, sv_layers = sample_layers, sv_decrypt = sample_decrypt,
     sv_context = sample_enclave, sv_feature = sample_feature\<lparr>api_key_auth := False\<rparr>, sv_clock = sample_clock,
     sv_internal_body = ''{}'', sv_port = 80\<rparr>"

lemma sample_head_parsed:
  "he_parse sample_http sample_head = HeadComplete (length sample_head)
     \<lparr>hh_method = Some ''POST'', hh_path = Some ''/.well-known/attestation'', hh_headers = [(''Content-Length'', ''5'')]\<rparr>"
  by code_simp

lemma sample_head_ok:
  "head_ok sample_http 80 None \<lparr>hh_method = Some ''POST'', hh_path = Some ''/.well-known/attestation'', hh_headers = [(''Content-Length'', ''5'')]\<rparr>
     (length ''hello'') [(''content-length'', ''5'')] ''POST'' ''/.well-known/attestation'' None"
proof -
  have "build_header_map_for_request ref_headers [(''Content-Length'', ''5'')] None = Some (Inr [(''content-length'', ''5'')])"
    and "hm_get ref_headers [(''content-length'', ''5'')] ''content-length'' = Some ''5''"
    and "header_to_str ref_headers ''5'' = Some ''5''" and "show_nat 80 = ''80''" by code_simp+
  moreover have "parse_usize ''5'' = Some 5" by (simp add: parse_unsigned_def is_ascii_digit_def byte_in_def)
  ultimately show ?thesis by (simp add: head_ok_def sample_http_def get_content_length_from_headers_def)
qed

theorem http_request_reassembled_witness:
  "try_parse_http_request sample_http 80 None [] (map Chunk [take 10 sample_head, drop 10 sample_head @ ''he'', ''llo''] @ [Chunk ''GET'']) =
    Some (Inr (HttpRequest (parsed_request ''POST'' ''/.well-known/attestation'' None [(''content-length'', ''5'')] ''hello'' None)), [Chunk ''GET''])"
proof -
  have p: "http_head_parser (he_parse sample_http)"
    by (simp add: sample_http_def ref_http.http_head_parser_axioms)
  have "sample_head = take 10 sample_head @ drop 10 sample_head" by simp
  moreover have "take 10 sample_head \<noteq> []" "sample_head \<noteq> []" by (simp_all add: sample_head_def)
  ultimately show ?thesis
    by (intro http_request_reassembled [OF p sample_head_parsed sample_head_ok]) auto
qed

theorem pipelined_bytes_enter_body_witness:
  "try_parse_http_request sample_http 80 None [] [Chunk (sample_head @ ''hello'' @ ''GET / HTTP/1.1'')] =
    Some (Inr (HttpRequest (parsed_request ''POST'' ''/.well-known/attestation'' None [(''content-length'', ''5'')] (''hello'' @ ''GET / HTTP/1.1'') None)), [])"
proof -
  have p: "http_head_parser (he_parse sample_http)"
    by (simp add: sample_http_def ref_http.http_head_parser_axioms)
  show ?thesis
    by (rule pipelined_bytes_enter_body [OF p sample_head_parsed sample_head_ok]) (simp_all add: sample_head_def crlf_def)
qed

theorem websocket_requires_api_key_witness:
  "auth_request sample_layers sample_enclave ''good'' = Inr ()"
proof -
  have "PipeToProcess (request_to_bytes sample_http (sample_trx_request [(''api-key'', ''good'')]))
      \<in> set (handle_websocket_request sample_server None (sample_trx_request [(''api-key'', ''good'')]))" by code_simp
  from websocket_requires_api_key [OF this]
  obtain key where k: "hm_get (le_headers (ly_log (sv_layers sample_server)))
      (rq_headers (sample_trx_request [(''api-key'', ''good'')])) ''api-key'' = Some key"
    "auth_request (sv_layers sample_server) (sv_context sample_server) key = Inr ()" by blast
  have "hm_get (le_headers (ly_log (sv_layers sample_server)))
      (rq_headers (sample_trx_request [(''api-key'', ''good'')])) ''api-key'' = Some ''good''" by code_simp
  with k show ?thesis by (simp add: sample_server_def)
qed

theorem non_http_traffic_panics_witness:
  "serve_connection sample_server None [Chunk [CHR 0xFF]] = [TaskPanics]"
proof -
  have "try_parse_http_request (sv_http sample_server) (sv_port sample_server) None [] [Chunk [CHR 0xFF]]
      = Some (Inr (NonHttpRequest [CHR 0xFF]), [])" by code_simp
  then show ?thesis by (rule non_http_traffic_panics)
qed

theorem connection_answers_requests_in_order_witness:
  "serve_connection sample_server None (concat (map (map Chunk) [[sample_head, ''hello''], [sample_head @ ''hello'']]))
    = concat (map (\<lambda>req. fst (answer_request sample_server req))
        [parsed_request ''POST'' ''/.well-known/attestation'' None [(''content-length'', ''5'')] ''hello'' None,
         parsed_request ''POST'' ''/.well-known/attestation'' None [(''content-length'', ''5'')] ''hello'' None]) @ [ShutdownClientConn]"
proof -
  let ?req = "parsed_request ''POST'' ''/.well-known/attestation'' None [(''content-length'', ''5'')] ''hello'' None"
  have p: "http_head_parser (he_parse (sv_http sample_server))"
    by (simp add: sample_http_def sample_server_def ref_http.http_head_parser_axioms)
  have ne: "sample_head \<noteq> []" by (simp add: sample_head_def)
  have a: "arrives (sv_http sample_server) (sv_port sample_server) None cs ?req"
    if "concat cs = sample_head @ ''hello''" "\<forall>c \<in> set cs. c \<noteq> []" for cs
    unfolding arrives_def
    by (intro exI [of _ sample_head] exI [of _ "''hello''"] exI [of _ "[(''content-length'', ''5'')]"]
        exI [of _ "''POST''"] exI [of _ "''/.well-known/attestation''"] exI [of _ None]
        exI [of _ "\<lparr>hh_method = Some ''POST'', hh_path = Some ''/.well-known/attestation'', hh_headers = [(''Content-Length'', ''5'')]\<rparr>"])
      (use that ne sample_head_parsed sample_head_ok in \<open>simp add: sample_server_def\<close>)
  have "\<not> is_websocket_request (sv_http sample_server) ?req" by code_simp
  moreover have "snd (answer_request sample_server ?req)"
    by (simp add: answer_request_def data_plane_service_def attest_call_def is_attestation_request_def parsed_request_def Let_def
        split: sum.split)
  ultimately show ?thesis
    using a ne by (intro connection_answers_requests_in_order [OF p]) auto
qed

end
