(* ===== verification/Enclave_Server.thy ===== *)
theory Enclave_Server
  imports Http_Server Enclave_Startup Proxy_Protocol
begin

text \<open>
  The server of the enclave, \<open>run\<close> of \<open>data-plane/src/server/server.rs\<close>: it starts as in \<open>Enclave_Startup\<close>, makes the
  certificate resolver of \<open>Cert_Resolver\<close> (the rest of \<open>data-plane/src/server/tls/tls_server.rs\<close>), and accepts
  connections: the PROXY protocol of \<open>Proxy_Protocol\<close>, the TLS handshake with the certificate of the resolver, and a
  task that serves the connection as in \<open>Http_Server\<close>. TLS is a parameter: which server name the bytes of a
  connection ask for, and what the client sends over the session. Accepting is done in the loop itself and has no time limit, so a
  client that falls silent before its handshake is complete keeps the loop waiting; serving is done in tasks of their own.
\<close>

section \<open>Accepting\<close>

text \<open>A step of the handshake is done, fails, or waits for bytes that the client does not send.\<close>

datatype 'a tls_step = TlsDone 'a | TlsFails | TlsWaits

record tls_lib =
  tl_base64 :: "string \<Rightarrow> bytes option"
  tl_hello :: "AcceptedConn \<Rightarrow> string option tls_step"
  tl_session :: "CertifiedKey \<Rightarrow> AcceptedConn \<Rightarrow> read_event list tls_step"

datatype accept_error = AcceptServerError SharedServerError | AcceptIoError

record tls_stream =
  ts_conn :: AcceptedConn
  ts_server_name :: "string option"
  ts_cert :: CertifiedKey
  ts_reads :: "read_event list"

text \<open>
  A connection that arrives: its bytes (\<open>None\<close>: accepting fails), whether the client keeps it open behind them (a read there
  never returns) or has closed it, what the resolver finds outside, the trusted
  certificate store, and the services and the clock that its requests meet.
\<close>

record ('h, 'v) incoming_conn =
  ic_conn :: "inner_conn option"
  ic_stays_open :: bool
  ic_resolver :: resolver_env
  ic_trusted :: "CertifiedKey option option"
  ic_server :: "('h, 'v) server_env"

text \<open>The loop of \<open>try_parse_proxy_protocol\<close> has used up the bytes and is still without a header.\<close>

fun wants_header :: "(bytes \<Rightarrow> pp_result) \<Rightarrow> bytes \<Rightarrow> inner_conn \<Rightarrow> bool" where
  "wants_header parse buf [] = True"
| "wants_header parse buf (None # cs) = False"
| "wants_header parse buf (Some c # cs) =
     (c \<noteq> [] \<and> (case parse (buf @ c) of PpHeader _ \<Rightarrow> False | PpInvalid \<Rightarrow> False | _ \<Rightarrow> wants_header parse (buf @ c) cs))"

definition waits_for_header :: "(bytes \<Rightarrow> pp_result) \<Rightarrow> ('h, 'v) incoming_conn \<Rightarrow> bool" where
  "waits_for_header parse ic \<longleftrightarrow> ic_stays_open ic \<and> (\<exists>cs. ic_conn ic = Some cs \<and> wants_header parse [] cs)"

text \<open>\<open>accept\<close> of \<open>TlsServer\<close>: it panics, in the PROXY protocol or in the certificate resolver, it waits, or it returns.\<close>

datatype accept_end = AcceptPanics | AcceptWaits | Accepts "(accept_error, tls_stream) result"

definition tls_accept ::
  "(bytes \<Rightarrow> pp_result) \<Rightarrow> tls_lib \<Rightarrow> ('h, 'v) incoming_conn \<Rightarrow> AttestableCertResolver \<Rightarrow> accept_end \<times> AttestableCertResolver" where
  "tls_accept parse T ic R =
     (if waits_for_header parse ic then (AcceptWaits, R)
      else (case accept_with_proxy_protocol parse (ic_conn ic) of
        None \<Rightarrow> (AcceptPanics, R)
      | Some (Inl e) \<Rightarrow> (Accepts (Inl (AcceptServerError e)), R)
      | Some (Inr conn) \<Rightarrow>
         (case tl_hello T conn of
            TlsFails \<Rightarrow> (Accepts (Inl AcceptIoError), R)
          | TlsWaits \<Rightarrow> (AcceptWaits, R)
          | TlsDone server_name \<Rightarrow>
             (case resolve_cert_using_sni (tl_base64 T) (ic_resolver ic) (ic_trusted ic) R server_name of
                (None, R') \<Rightarrow> (AcceptPanics, R')
              | (Some None, R') \<Rightarrow> (Accepts (Inl AcceptIoError), R')
              | (Some (Some cert), R') \<Rightarrow>
                 (case tl_session T cert conn of
                    TlsFails \<Rightarrow> (Accepts (Inl AcceptIoError), R')
                  | TlsWaits \<Rightarrow> (AcceptWaits, R')
                  | TlsDone reads \<Rightarrow>
                     (Accepts (Inr \<lparr>ts_conn = conn, ts_server_name = server_name, ts_cert = cert, ts_reads = reads\<rparr>), R'))))))"

text \<open>
  The loop over the connections that arrive: the streams it accepts, each with what its task does, and whether
  it panics. A connection that is not accepted is logged and the loop goes on; while a connection waits, none behind it is
  accepted.
\<close>

fun accept_loop ::
  "(bytes \<Rightarrow> pp_result) \<Rightarrow> tls_lib \<Rightarrow> (('h, 'v) server_env \<Rightarrow> ('h, 'v) server_env) \<Rightarrow> AttestableCertResolver \<Rightarrow> ('h, 'v) incoming_conn list
   \<Rightarrow> (tls_stream \<times> conn_effect list) list \<times> bool" where
  "accept_loop parse T conf R [] = ([], False)"
| "accept_loop parse T conf R (ic # ics) =
     (case tls_accept parse T ic R of
        (AcceptPanics, R') \<Rightarrow> ([], True)
      | (AcceptWaits, R') \<Rightarrow> ([], False)
      | (Accepts (Inl e), R') \<Rightarrow> accept_loop parse T conf R' ics
      | (Accepts (Inr stream), R') \<Rightarrow>
         apfst (Cons (stream, serve_connection (conf (ic_server ic)) (get_remote_addr (ts_conn stream)) (ts_reads stream)))
           (accept_loop parse T conf R' ics))"

section \<open>Running\<close>

text \<open>
  \<open>run\<close>. A start that fails is a panic (\<open>expect\<close>). \<open>x509_of\<close> reads the fields of the CA certificate that the
  provisioner sent. The streams come with what their tasks do; \<open>True\<close>: the loop, and with it the process, has
  panicked.
\<close>

datatype server_end = RunPanics | RunStarting | RunExits | RunReturns | RunServes "(tls_stream \<times> conn_effect list) list" bool

definition configured :: "EnclaveContext \<Rightarrow> FeatureContext \<Rightarrow> nat \<Rightarrow> ('h, 'v) server_env \<Rightarrow> ('h, 'v) server_env" where
  "configured ctx feature port S = S\<lparr>sv_context := ctx, sv_feature := feature, sv_port := port\<rparr>"

definition attestable_resolver ::
  "('k \<Rightarrow> x509) \<Rightarrow> resolver_env \<Rightarrow> 'k \<Rightarrow> EnclaveContext option \<Rightarrow> AttestableCertResolver option" where
  "attestable_resolver x509_of V ca_cert cell =
     (case context_get cell of
        Inl e \<Rightarrow> None
      | Inr ctx \<Rightarrow> (case resolver_new V ctx (x509_of ca_cert) of Some (Inr R) \<Rightarrow> Some R | _ \<Rightarrow> None))"

definition server_run ::
  "('h, 'c, 'w) e3_env \<Rightarrow> ('h, 'j, 'k) startup_lib \<Rightarrow> ('k \<Rightarrow> x509) \<Rightarrow> (bytes \<Rightarrow> pp_result) \<Rightarrow> tls_lib
   \<Rightarrow> FeatureContext \<Rightarrow> nat \<Rightarrow> ('s e3_moment \<times> file_fate) list \<Rightarrow> bool \<Rightarrow> file_fate \<Rightarrow> resolver_env \<Rightarrow> ('h, 'v) incoming_conn list
   \<Rightarrow> ('h, 'c, 's, 'w, 'f) boot_state \<Rightarrow> server_end \<times> ('h, 'c, 's, 'w, 'f) boot_state" where
  "server_run E L x509_of parse T feature port attempts trusted fate V incoming st =
     (case with_attestable_cert E L attempts trusted fate st of
        (Started ca_cert ca_private_key, st') \<Rightarrow>
          (case attestable_resolver x509_of V ca_cert (bo_context st') of
             None \<Rightarrow> (RunPanics, st')
           | Some R \<Rightarrow>
              (case context_get (bo_context st') of
                 Inl e \<Rightarrow> (RunReturns, st')
               | Inr ctx \<Rightarrow> (case accept_loop parse T (configured ctx feature port) R incoming of
                               (tasks, panicked) \<Rightarrow> (RunServes tasks panicked, st'))))
      | (StillTrying, st') \<Rightarrow> (RunStarting, st')
      | (Exits, st') \<Rightarrow> (RunExits, st')
      | (_, st') \<Rightarrow> (RunPanics, st'))"

section \<open>Sessions\<close>

text \<open>
  A stream and the effects of its task belong to a connection that arrived: its PROXY header was read, the
  certificate of the session is one the resolver may serve for it, and the task served what the client sent over
  that session.
\<close>

definition session_of ::
  "(bytes \<Rightarrow> pp_result) \<Rightarrow> tls_lib \<Rightarrow> (('h, 'v) server_env \<Rightarrow> ('h, 'v) server_env) \<Rightarrow> resolver_env list \<Rightarrow> EnclaveContext \<Rightarrow> x509
   \<Rightarrow> ('h, 'v) incoming_conn \<Rightarrow> tls_stream \<times> conn_effect list \<Rightarrow> bool" where
  "session_of parse T conf Vs ctx ca ic = (\<lambda>(stream, effs).
     accept_with_proxy_protocol parse (ic_conn ic) = Some (Inr (ts_conn stream))
     \<and> tl_hello T (ts_conn stream) = TlsDone (ts_server_name stream)
     \<and> may_serve Vs ctx ca (ic_resolver ic, ic_trusted ic, ts_server_name stream) (Some (Some (ts_cert stream)))
     \<and> tl_session T (ts_cert stream) (ts_conn stream) = TlsDone (ts_reads stream)
     \<and> effs = serve_connection (conf (ic_server ic)) (get_remote_addr (ts_conn stream)) (ts_reads stream))"

lemma session_of_mono:
  "session_of parse T conf Vs ctx ca ic s \<Longrightarrow> set Vs \<subseteq> set Us \<Longrightarrow> session_of parse T conf Us ctx ca ic s"
  by (auto simp: session_of_def elim: may_serve_mono)

text \<open>What holds of the resolver between two connections: its certificate attests the enclave.\<close>

definition resolver_inv :: "resolver_env list \<Rightarrow> EnclaveContext \<Rightarrow> x509 \<Rightarrow> AttestableCertResolver \<Rightarrow> bool" where
  "resolver_inv Vs ctx ca R \<longleftrightarrow> ar_context R = ctx \<and> ar_internal_ca R = ca
     \<and> attests Vs ca (get_cert_names ctx) (cc_cert (ar_container R))"

lemma resolver_inv_mono: "resolver_inv Vs ctx ca R \<Longrightarrow> set Vs \<subseteq> set Us \<Longrightarrow> resolver_inv Us ctx ca R"
  by (auto simp: resolver_inv_def elim: attests_mono)

lemma resolver_new_inv:
  assumes "resolver_new V ctx ca = Some (Inr R)"
  shows "resolver_inv [V] ctx ca R \<and> \<not> cc_poisoned (ar_container R)"
  using assms generate_attests
  by (auto simp: resolver_new_def resolver_inv_def container_new_def elim!: map_sum_eq_Inr)

lemma resolve_inv:
  assumes "resolver_inv Vs ctx ca R" and "resolve_cert_using_sni base64_decode V trusted R server_name = (r, R')"
  shows "resolver_inv (V # Vs) ctx ca R' \<and> may_serve (V # Vs) ctx ca (V, trusted, server_name) r"
  using assms(1) resolve_step [OF _ assms(2), of Vs] by (simp add: resolver_inv_def)

lemma tls_accept_inv:
  assumes "resolver_inv Vs ctx ca R" and "tls_accept parse T ic R = (r, R')"
  shows "resolver_inv (ic_resolver ic # Vs) ctx ca R'"
proof -
  have "R' = R \<or> (\<exists>server_name r'. resolve_cert_using_sni (tl_base64 T) (ic_resolver ic) (ic_trusted ic) R server_name = (r', R'))"
    using assms(2) by (auto simp: tls_accept_def split: if_splits option.splits sum.splits prod.splits tls_step.splits)
  then show ?thesis
    using resolve_inv [OF assms(1)] resolver_inv_mono [OF assms(1), of "ic_resolver ic # Vs"] by auto
qed

lemma tls_accept_session:
  assumes "resolver_inv Vs ctx ca R" and "tls_accept parse T ic R = (Accepts (Inr stream), R')"
  shows "session_of parse T conf (ic_resolver ic # Vs) ctx ca ic
    (stream, serve_connection (conf (ic_server ic)) (get_remote_addr (ts_conn stream)) (ts_reads stream))"
  using assms(2)
  by (auto simp: tls_accept_def session_of_def dest!: resolve_inv [OF assms(1)] split: if_splits option.splits sum.splits prod.splits tls_step.splits)

lemma accept_loop_sessions:
  assumes "resolver_inv Vs ctx ca R" and "accept_loop parse T conf R ics = (tasks, panicked)" and "s \<in> set tasks"
  shows "\<exists>ic \<in> set ics. session_of parse T conf (Vs @ map ic_resolver ics) ctx ca ic s"
  using assms
proof (induction ics arbitrary: R Vs tasks panicked)
  case (Cons ic ics)
  obtain r R' where a: "tls_accept parse T ic R = (r, R')" by fastforce
  obtain ts p where l: "accept_loop parse T conf R' ics = (ts, p)" by fastforce
  note inv = tls_accept_inv [OF Cons.prems(1) a]
  show ?case
  proof (cases "s \<in> set ts")
    case True
    from Cons.IH [OF inv l this] obtain ic' where "ic' \<in> set ics"
      "session_of parse T conf ((ic_resolver ic # Vs) @ map ic_resolver ics) ctx ca ic' s" by blast
    then show ?thesis by (intro bexI [of _ ic']) (auto elim!: session_of_mono)
  next
    case False
    with Cons.prems a l obtain stream where "r = Accepts (Inr stream)"
      "s = (stream, serve_connection (conf (ic_server ic)) (get_remote_addr (ts_conn stream)) (ts_reads stream))"
      by (auto split: accept_end.splits sum.splits)
    with tls_accept_session [OF Cons.prems(1), of parse T ic stream R' conf] a show ?thesis
      by (auto elim!: session_of_mono)
  qed
qed simp

lemma server_run_serves:
  assumes "server_run E L x509_of parse T feature port attempts trusted fate V incoming st = (RunServes tasks panicked, st')"
  obtains ca_cert key R ctx where "with_attestable_cert E L attempts trusted fate st = (Started ca_cert key, st')"
    and "bo_context st' = Some ctx" and "resolver_new V ctx (x509_of ca_cert) = Some (Inr R)"
    and "accept_loop parse T (configured ctx feature port) R incoming = (tasks, panicked)"
proof -
  from assms obtain ca_cert key R ctx where
    w: "with_attestable_cert E L attempts trusted fate st = (Started ca_cert key, st')"
    and R: "attestable_resolver x509_of V ca_cert (bo_context st') = Some R"
    and c: "context_get (bo_context st') = Inr ctx"
    and l: "accept_loop parse T (configured ctx feature port) R incoming = (tasks, panicked)"
    by (auto simp: server_run_def split: startup.splits option.splits sum.splits prod.splits)
  have "bo_context st' = Some ctx" using c by (simp add: context_get_def result_simps)
  moreover from R c have "resolver_new V ctx (x509_of ca_cert) = Some (Inr R)"
    by (auto simp: attestable_resolver_def split: option.splits sum.splits)
  ultimately show thesis using that w l by blast
qed

text \<open>
  (C9) Every request is received over a session with the enclave: when the server runs, whatever clients arrive, each
  stream it serves belongs to one of them, its PROXY header is consumed, and the certificate of its TLS session is
  the trusted one (for a trusted domain) or is signed by the CA certificate of this very start and bound to its
  key by an attestation document of the security module; the task serves what the client sent over that session,
  and nothing else. The names in the certificate are those of the context that the start received.
\<close>

theorem requests_only_over_attested_tls:
  assumes "server_run E L x509_of parse T feature port attempts trusted fate V incoming st = (RunServes tasks panicked, st')"
    and "s \<in> set tasks"
  shows "\<exists>ca_cert key ctx. with_attestable_cert E L attempts trusted fate st = (Started ca_cert key, st')
    \<and> bo_context st' = Some ctx
    \<and> (\<exists>ic \<in> set incoming. session_of parse T (configured ctx feature port) (V # map ic_resolver incoming) ctx (x509_of ca_cert) ic s)"
proof -
  from server_run_serves [OF assms(1)] obtain ca_cert key R ctx where
    w: "with_attestable_cert E L attempts trusted fate st = (Started ca_cert key, st')" "bo_context st' = Some ctx"
    and R: "resolver_new V ctx (x509_of ca_cert) = Some (Inr R)"
    and l: "accept_loop parse T (configured ctx feature port) R incoming = (tasks, panicked)" .
  from accept_loop_sessions [OF conjunct1 [OF resolver_new_inv [OF R]] l assms(2)] w show ?thesis by simp
qed

section \<open>What clients do to each other\<close>

text \<open>A client that falls silent before the PROXY header or the hello is complete; one that may do so later in the handshake too.\<close>

definition falls_silent :: "(bytes \<Rightarrow> pp_result) \<Rightarrow> tls_lib \<Rightarrow> ('h, 'v) incoming_conn \<Rightarrow> bool" where
  "falls_silent parse T ic \<longleftrightarrow> waits_for_header parse ic
     \<or> (\<exists>conn. accept_with_proxy_protocol parse (ic_conn ic) = Some (Inr conn) \<and> tl_hello T conn = TlsWaits)"

definition may_stall :: "(bytes \<Rightarrow> pp_result) \<Rightarrow> tls_lib \<Rightarrow> ('h, 'v) incoming_conn \<Rightarrow> bool" where
  "may_stall parse T ic \<longleftrightarrow> falls_silent parse T ic
     \<or> (\<exists>conn cert. accept_with_proxy_protocol parse (ic_conn ic) = Some (Inr conn) \<and> tl_session T cert conn = TlsWaits)"

lemma tls_accept_waits: "falls_silent parse T ic \<Longrightarrow> tls_accept parse T ic R = (AcceptWaits, R)"
  by (auto simp: falls_silent_def tls_accept_def)

lemma tls_accept_returns: "\<not> may_stall parse T ic \<Longrightarrow> fst (tls_accept parse T ic R) \<noteq> AcceptWaits"
  by (auto simp: may_stall_def falls_silent_def tls_accept_def split: option.splits sum.splits prod.splits tls_step.splits)

text \<open>Nobody behind a silent client is accepted.\<close>

lemma accept_loop_stuck:
  assumes "falls_silent parse T c"
  shows "fst (accept_loop parse T conf R (xs @ c # ys)) = fst (accept_loop parse T conf R xs)"
proof (induction xs arbitrary: R)
  case Nil
  then show ?case by (simp add: tls_accept_waits [OF assms])
next
  case (Cons x xs)
  then show ?case by (auto split: prod.split accept_end.split sum.split)
qed

lemma accept_loop_length: "length (fst (accept_loop parse T conf R ics)) \<le> length ics"
  by (induction ics arbitrary: R) (auto simp: le_SucI split: prod.split accept_end.split sum.split)


definition attestation_available :: "resolver_env \<Rightarrow> bool" where
  "attestation_available V \<longleftrightarrow> (\<forall>challenge nonce. \<exists>doc. get_attestation_doc (rv_nsm V) challenge nonce = Inr doc)"

lemma generate_no_panic: "attestation_available V \<Longrightarrow> generate_self_signed_cert V ca hostnames nonce \<noteq> None"
  by (metis attestation_available_def generate_panics sum.distinct(1))

lemma resolve_cert_no_panic:
  assumes "create \<noteq> None" and "\<not> cc_poisoned c"
  shows "fst (resolve_cert now create c) \<noteq> None \<and> \<not> cc_poisoned (snd (resolve_cert now create c))"
  using assms by (auto simp: resolve_cert_def rotate_cert_def split: option.splits sum.splits)

text \<open>With a working security module a handshake panics never, and without a nonce in the server name it gets a certificate.\<close>

lemma resolve_no_panic:
  assumes "attestation_available V" and "\<not> cc_poisoned (ar_container R)"
    and "resolve_cert_using_sni base64_decode V trusted R server_name = (r, R')"
  shows "r \<noteq> None \<and> \<not> cc_poisoned (ar_container R')
    \<and> (Option.bind server_name (extract_nonce_from_servername base64_decode) = None \<longrightarrow> r \<noteq> Some None)"
proof -
  obtain cert c where b: "resolve_cert (rv_now V)
      (generate_self_signed_cert V (ar_internal_ca R) (get_cert_names (ar_context R)) None) (ar_container R) = (cert, c)" by fastforce
  with resolve_cert_no_panic [OF generate_no_panic [OF assms(1)] assms(2)] have "cert \<noteq> None" "\<not> cc_poisoned c"
    by (metis fst_conv, metis snd_conv)
  then show ?thesis
    using assms(2,3) b generate_no_panic [OF assms(1)]
    by (auto simp: resolve_cert_using_sni_def Let_def split: option.splits if_splits)
qed

context pp_parser
begin

lemma parse_loop_no_panic: "parse_loop parse buf cs \<noteq> None"
proof (induction cs arbitrary: buf)
  case (Cons c cs)
  then show ?case by (cases c) (auto simp: Let_def dest: header_length split: pp_result.split)
qed simp

lemma accept_no_panic: "accept_with_proxy_protocol parse conn \<noteq> None"
  using parse_loop_no_panic by (simp add: accept_with_proxy_protocol_def try_parse_proxy_protocol_def split: option.split)

lemma tls_accept_no_panic:
  assumes "attestation_available (ic_resolver ic)" and "\<not> cc_poisoned (ar_container R)" and "tls_accept parse T ic R = (r, R')"
  shows "r \<noteq> AcceptPanics \<and> \<not> cc_poisoned (ar_container R')"
  using assms(2,3) accept_no_panic [of "ic_conn ic"]
  by (auto simp: tls_accept_def dest!: resolve_no_panic [OF assms(1,2)] split: if_splits option.splits sum.splits prod.splits tls_step.splits)

lemma accept_loop_no_panic:
  assumes "\<forall>ic \<in> set ics. attestation_available (ic_resolver ic)" and "\<not> cc_poisoned (ar_container R)"
  shows "\<not> snd (accept_loop parse T conf R ics)"
  using assms
proof (induction ics arbitrary: R)
  case (Cons ic ics)
  obtain r R' where a: "tls_accept parse T ic R = (r, R')" by fastforce
  with tls_accept_no_panic [OF _ Cons.prems(2) a] Cons show ?case by (auto split: accept_end.splits sum.splits)
qed simp

text \<open>A connection behind others that do not stall is accepted with some resolver that is not poisoned.\<close>

lemma accept_loop_reaches:
  assumes "\<forall>c \<in> set before. attestation_available (ic_resolver c) \<and> \<not> may_stall parse T c" and "\<not> cc_poisoned (ar_container R)"
  shows "\<exists>R'. \<not> cc_poisoned (ar_container R')
    \<and> set (fst (accept_loop parse T conf R' ics)) \<subseteq> set (fst (accept_loop parse T conf R (before @ ics)))"
  using assms
proof (induction before arbitrary: R)
  case (Cons c before)
  obtain r R1 where a: "tls_accept parse T c R = (r, R1)" by fastforce
  with tls_accept_no_panic [OF _ Cons.prems(2) a] Cons.prems have ok: "r \<noteq> AcceptPanics" "\<not> cc_poisoned (ar_container R1)" by auto
  have waits: "r \<noteq> AcceptWaits" using tls_accept_returns [of parse T c R] Cons.prems(1) a by simp
  from Cons.IH [OF _ ok(2)] Cons.prems(1) obtain R' where "\<not> cc_poisoned (ar_container R')"
    "set (fst (accept_loop parse T conf R' ics)) \<subseteq> set (fst (accept_loop parse T conf R1 (before @ ics)))" by auto
  with a ok(1) waits show ?case by (intro exI [of _ R']) (auto split: accept_end.splits sum.splits)
qed auto

lemma accept_loop_serves:
  assumes "\<forall>c \<in> set (before @ [ic]). attestation_available (ic_resolver c)" and "\<not> cc_poisoned (ar_container R)"
    and "\<forall>c \<in> set before. \<not> may_stall parse T c" and "\<not> waits_for_header parse ic"
    and "accept_with_proxy_protocol parse (ic_conn ic) = Some (Inr conn)" and "tl_hello T conn = TlsDone server_name"
    and "Option.bind server_name (extract_nonce_from_servername (tl_base64 T)) = None"
    and "\<And>cert. \<exists>reads. tl_session T cert conn = TlsDone reads"
  shows "\<exists>stream. ts_conn stream = conn \<and> tl_session T (ts_cert stream) conn = TlsDone (ts_reads stream)
    \<and> (stream, serve_connection (conf (ic_server ic)) (get_remote_addr conn) (ts_reads stream))
        \<in> set (fst (accept_loop parse T conf R (before @ ic # after)))"
proof -
  have "\<forall>c \<in> set before. attestation_available (ic_resolver c) \<and> \<not> may_stall parse T c" using assms(1,3) by simp
  from accept_loop_reaches [OF this assms(2), of conf "ic # after"] obtain R1 where
    R1: "\<not> cc_poisoned (ar_container R1)"
      "set (fst (accept_loop parse T conf R1 (ic # after))) \<subseteq> set (fst (accept_loop parse T conf R (before @ ic # after)))" by blast
  obtain r R2 where a: "resolve_cert_using_sni (tl_base64 T) (ic_resolver ic) (ic_trusted ic) R1 server_name = (r, R2)" by fastforce
  from resolve_no_panic [OF _ R1(1) a] assms(1,7) have "r \<noteq> None" "r \<noteq> Some None" by auto
  then obtain cert where "r = Some (Some cert)" by (cases r) auto
  moreover obtain reads where "tl_session T cert conn = TlsDone reads" using assms(8) by blast
  ultimately show ?thesis
    using R1(2) a assms(4-6)
    by (intro exI [of _ "\<lparr>ts_conn = conn, ts_server_name = server_name, ts_cert = cert, ts_reads = reads\<rparr>"])
      (auto simp: tls_accept_def)
qed

end

text \<open>
  (C21) What clients can do to each other while the security module attests: the loop never panics, whatever they send. A client
  whose PROXY header and handshake are in order is served when no client before it stalls, however the handshakes and requests
  of those clients fail otherwise. A client that falls silent before its PROXY header or its hello is complete, and keeps the
  connection open, blocks everyone behind it: no more streams are accepted than clients came before it.
\<close>

theorem clients_served_despite_failures:
  assumes "pp_parser parse"
    and "server_run E L x509_of parse T feature port attempts trusted fate V (before @ ic # after) st = (RunServes tasks panicked, st')"
    and "\<forall>c \<in> set (before @ ic # after). attestation_available (ic_resolver c)"
    and "\<not> waits_for_header parse ic"
    and "accept_with_proxy_protocol parse (ic_conn ic) = Some (Inr conn)" and "tl_hello T conn = TlsDone server_name"
    and "Option.bind server_name (extract_nonce_from_servername (tl_base64 T)) = None"
    and "\<And>cert. \<exists>reads. tl_session T cert conn = TlsDone reads"
  shows "\<not> panicked
    \<and> ((\<forall>c \<in> set before. \<not> may_stall parse T c) \<longrightarrow>
        (\<exists>stream ctx. bo_context st' = Some ctx \<and> ts_conn stream = conn
          \<and> tl_session T (ts_cert stream) conn = TlsDone (ts_reads stream)
          \<and> (stream, serve_connection (configured ctx feature port (ic_server ic)) (get_remote_addr conn) (ts_reads stream)) \<in> set tasks))
    \<and> (\<forall>xs c ys. before = xs @ c # ys \<longrightarrow> falls_silent parse T c \<longrightarrow> length tasks \<le> length xs)"
proof -
  from server_run_serves [OF assms(2)] obtain ca_cert key R ctx where
    c: "bo_context st' = Some ctx" and R: "resolver_new V ctx (x509_of ca_cert) = Some (Inr R)"
    and l: "accept_loop parse T (configured ctx feature port) R (before @ ic # after) = (tasks, panicked)" .
  have p: "\<not> cc_poisoned (ar_container R)" using resolver_new_inv [OF R] by simp
  have "\<not> panicked" using pp_parser.accept_loop_no_panic [OF assms(1,3) p] l by (metis snd_conv)
  moreover have "\<forall>c \<in> set (before @ [ic]). attestation_available (ic_resolver c)" using assms(3) by simp
  note served = pp_parser.accept_loop_serves [OF assms(1) this p _ assms(4-8), of "configured ctx feature port" after]
  have "\<exists>stream ctx. bo_context st' = Some ctx \<and> ts_conn stream = conn \<and> tl_session T (ts_cert stream) conn = TlsDone (ts_reads stream)
      \<and> (stream, serve_connection (configured ctx feature port (ic_server ic)) (get_remote_addr conn) (ts_reads stream)) \<in> set tasks"
    if "\<forall>c \<in> set before. \<not> may_stall parse T c"
    using served [OF that] l c by auto
  moreover have "length tasks \<le> length xs" if "before = xs @ c # ys" "falls_silent parse T c" for xs c ys
  proof -
    have "tasks = fst (accept_loop parse T (configured ctx feature port) R xs)"
      using accept_loop_stuck [OF that(2), of "configured ctx feature port" R xs "ys @ ic # after"] l that(1) by simp
    then show ?thesis by (simp add: accept_loop_length)
  qed
  ultimately show ?thesis by blast
qed

text \<open>
  The security module failing once ends the server for all clients: the certificate resolver unwraps the document
  inside the accept loop, and any client can have a document made by asking for a name with a nonce.
\<close>

theorem attestation_failure_ends_server:
  assumes "accept_with_proxy_protocol parse (ic_conn ic) = Some (Inr conn)"
    and "\<not> waits_for_header parse ic" and "tl_hello T conn = TlsDone (Some (encoded @ ''.attest.'' @ domain))"
    and "tl_base64 T encoded = Some nonce" and "CHR ''.'' \<notin> set encoded"
    and "rv_key_pair (ic_resolver ic) = Some key" and "10 \<le> rv_now (ic_resolver ic)"
    and "get_attestation_doc (rv_nsm (ic_resolver ic)) (Some key) (Some nonce) = Inl e"
  shows "accept_loop parse T conf R (ic # ics) = ([], True)"
proof -
  let ?s = "encoded @ ''.attest.'' @ domain"
  have "fst (resolve_cert_using_sni (tl_base64 T) (ic_resolver ic) (ic_trusted ic) R (Some ?s)) = None"
    using nonce_of_servername [where base64_decode = "tl_base64 T" and domain = domain, OF assms(4,5)] assms(6-8)
    by (auto simp: resolve_cert_using_sni_def generate_panics Let_def)
  with assms(1-3) show ?thesis by (auto simp: tls_accept_def split: prod.splits option.splits)
qed

section \<open>Logs\<close>

text \<open>The channel of the log records: the records the tasks send, and the handler that reads it when logging is enabled.\<close>

definition sent_logs :: "conn_effect list \<Rightarrow> TrxContext list" where
  "sent_logs effs = List.map_filter (\<lambda>e. case e of SendLog l \<Rightarrow> Some l | _ \<Rightarrow> None) effs"

definition log_reader :: "FeatureContext \<Rightarrow> TrxContext LogHandlerMessage list \<Rightarrow> TrxContext log_handler option" where
  "log_reader feature msgs = (if trx_logging_enabled feature then Some (start_log_handler msgs) else None)"

text \<open>
  The log of a websocket does not ask whether logging is enabled. When it is not, nobody reads the channel: every
  websocket leaves a record that is kept as long as the process lives.
\<close>

theorem websocket_logs_unread:
  assumes "PipeToProcess b \<in> set (handle_websocket_request S remote request)" and "\<not> trx_logging_enabled (sv_feature S)"
  shows "length (sent_logs (handle_websocket_request S remote request)) = 1 \<and> log_reader (sv_feature S) msgs = None"
  using assms
  by (auto simp: handle_websocket_request_def logged_then_def log_reader_def sent_logs_def List.map_filter_def Let_def
      split: option.splits sum.splits)

section \<open>An example\<close>

text \<open>TLS that sends plain text: the server name is fixed, and the session carries the bytes behind the PROXY header.\<close>

definition sample_tls_lib :: tls_lib where
  "sample_tls_lib = \<lparr>tl_base64 = (\<lambda>_. None), tl_hello = (\<lambda>_. TlsDone (Some ''n.a.cages.evervault.com'')),
     tl_session = (\<lambda>_ conn. TlsDone (map Chunk (case ac_preread conn of Some b \<Rightarrow> [b] | None \<Rightarrow> [])))\<rparr>"

definition sample_client :: "bytes option list option \<Rightarrow> ((string \<times> bytes) list, string) incoming_conn" where
  "sample_client conn = \<lparr>ic_conn = conn, ic_stays_open = False, ic_resolver = sample_resolver_env, ic_trusted = None, ic_server = sample_server\<rparr>"

definition sample_clients :: "((string \<times> bytes) list, string) incoming_conn list" where
  "sample_clients = [sample_client None, sample_client (Some [None]), sample_client (Some [Some (sample_header @ ''GET'')])]"

definition sample_run :: "server_end \<times> ((string \<times> bytes) list, one_cache, alist_store, unit, nat) boot_state" where
  "sample_run = server_run sample_e3 sample_boot_lib (\<lambda>_. Cert_Resolver.sample_ca) pp_v2 sample_tls_lib sample_feature 8008
     [(sample_boot_moment NoConnection, Written), (sample_boot_moment Delivered, Written)] True Written sample_resolver_env
     sample_clients sample_boot"

lemma sample_attestation: "attestation_available sample_resolver_env"
  by (auto simp: attestation_available_def sample_resolver_env_def get_attestation_doc_def get_nonce_def split: option.split)

lemma sample_resolver_starts: "\<exists>R. resolver_new sample_resolver_env ctx ca = Some (Inr R)"
  by (simp add: sample_resolver_env_def resolver_new_def generate_self_signed_cert_def append_attestation_info_def
      get_cert_names_def get_attestation_doc_def get_nonce_def Let_def)

lemma sample_runs:
  "\<exists>tasks panicked st. sample_run = (RunServes tasks panicked, st)
    \<and> bo_context st = Some \<lparr>ec_team_uuid = ''t'', ec_app_uuid = ''a'', ec_uuid = ''u'', ec_name = ''n''\<rparr>"
proof -
  let ?ctx = "\<lparr>ec_team_uuid = ''t'', ec_app_uuid = ''a'', ec_uuid = ''u'', ec_name = ''n''\<rparr>"
  obtain e3 where s: "sample_started = (Started ''cert'' ''key'', \<lparr>bo_e3 = e3, bo_context = Some ?ctx,
     bo_file = Some ''export A=1  export EV_INITIALIZED=true'', bo_contents = [''export A=1  '']\<rparr>)"
    using sample_boot_started by blast
  obtain R where R: "resolver_new sample_resolver_env ?ctx Cert_Resolver.sample_ca = Some (Inr R)"
    using sample_resolver_starts by blast
  show ?thesis
    using s R by (auto simp: sample_run_def server_run_def sample_started_def attestable_resolver_def context_get_def result_simps
        split: prod.split)
qed

lemma sample_accepted:
  "accept_with_proxy_protocol pp_v2 (Some [Some (sample_header @ ''GET'')])
    = Some (Inr \<lparr>ac_inner = [], ac_proxy_protocol = Some \<lparr>pp_len = 28, pp_source = AddrIPv4 (Ipv4 1 2 3 4)\<rparr>, ac_preread = Some ''GET''\<rparr>)"
proof -
  have "pp_v2 (sample_header @ ''GET'') = PpHeader \<lparr>pp_len = 28, pp_source = AddrIPv4 (Ipv4 1 2 3 4)\<rparr>"
    by (simp add: sample_header_def pp_v2_def pp_signature_def byte_at_def Let_def)
  then show ?thesis
    by (simp add: accept_with_proxy_protocol_def try_parse_proxy_protocol_def accepted_new_def Let_def)
      (simp add: sample_header_def pp_signature_def)
qed

theorem clients_served_despite_failures_witness:
  "\<exists>tasks st stream. sample_run = (RunServes tasks False, st) \<and> stream \<in> set tasks \<and> ac_preread (ts_conn (fst stream)) = Some ''GET''"
proof -
  obtain tasks panicked st where r: "sample_run = (RunServes tasks panicked, st)" using sample_runs by blast
  have c: "sample_clients = [sample_client None, sample_client (Some [None])] @ sample_client (Some [Some (sample_header @ ''GET'')]) # []"
    by (simp add: sample_clients_def)
  let ?conn = "\<lparr>ac_inner = [], ac_proxy_protocol = Some \<lparr>pp_len = 28, pp_source = AddrIPv4 (Ipv4 1 2 3 4)\<rparr>, ac_preread = Some ''GET''\<rparr>"
  let ?before = "[sample_client None, sample_client (Some [None])]" and ?ic = "sample_client (Some [Some (sample_header @ ''GET'')])"
  have "accept_with_proxy_protocol pp_v2 (ic_conn ?ic) = Some (Inr ?conn)"
    and "tl_hello sample_tls_lib ?conn = TlsDone (Some ''n.a.cages.evervault.com'')"
    and "Option.bind (Some ''n.a.cages.evervault.com'') (extract_nonce_from_servername (tl_base64 sample_tls_lib)) = None"
    and "\<exists>reads. tl_session sample_tls_lib cert ?conn = TlsDone reads" for cert
    using sample_accepted by (auto simp: sample_client_def sample_tls_lib_def extract_nonce_from_servername_def split: list.splits)
  note ok = this
  have sample: "\<forall>c \<in> set (?before @ ?ic # []). attestation_available (ic_resolver c)" "\<not> waits_for_header pp_v2 ?ic"
    "\<forall>c \<in> set ?before. \<not> may_stall pp_v2 sample_tls_lib c"
    using sample_attestation by (auto simp: sample_client_def sample_tls_lib_def may_stall_def falls_silent_def waits_for_header_def)
  have "\<not> panicked \<and> (\<exists>stream ctx. bo_context st = Some ctx \<and> ts_conn stream = ?conn
      \<and> tl_session sample_tls_lib (ts_cert stream) ?conn = TlsDone (ts_reads stream)
      \<and> (stream, serve_connection (configured ctx sample_feature 8008 (ic_server ?ic)) (get_remote_addr ?conn) (ts_reads stream)) \<in> set tasks)"
    using clients_served_despite_failures [OF pp_v2.pp_parser_axioms r [unfolded sample_run_def c] sample(1,2) ok] sample(3) by blast
  then show ?thesis using r by (cases panicked) fastforce+
qed

lemma silent_client_stalls: "falls_silent pp_v2 sample_tls_lib ((sample_client (Some []))\<lparr>ic_stays_open := True\<rparr>)"
  by (simp add: falls_silent_def waits_for_header_def sample_client_def)

lemma sample_served:
  assumes "sample_run = (RunServes tasks panicked, st)"
  shows "tasks \<noteq> []"
proof -
  let ?before = "[sample_client None, sample_client (Some [None])]" and ?ic = "sample_client (Some [Some (sample_header @ ''GET'')])"
  from server_run_serves [OF assms [unfolded sample_run_def]] obtain R ctx where
    R: "resolver_new sample_resolver_env ctx Cert_Resolver.sample_ca = Some (Inr R)"
    and l: "accept_loop pp_v2 sample_tls_lib (configured ctx sample_feature 8008) R (?before @ ?ic # []) = (tasks, panicked)"
    unfolding sample_clients_def append.simps .
  have "\<exists>s. s \<in> set (fst (accept_loop pp_v2 sample_tls_lib (configured ctx sample_feature 8008) R (?before @ ?ic # [])))"
    by (rule exE [OF pp_v2.accept_loop_serves [of ?before ?ic R]])
      (use sample_attestation sample_accepted resolver_new_inv [OF R] in
        \<open>auto simp: sample_client_def sample_tls_lib_def extract_nonce_from_servername_def may_stall_def falls_silent_def
          waits_for_header_def split: list.splits\<close>)
  with l show ?thesis by auto
qed

theorem requests_only_over_attested_tls_witness:
  "\<exists>tasks panicked st s. sample_run = (RunServes tasks panicked, st) \<and> s \<in> set tasks
    \<and> (\<exists>ic \<in> set sample_clients. accept_with_proxy_protocol pp_v2 (ic_conn ic) = Some (Inr (ts_conn (fst s))))"
proof -
  obtain tasks panicked st where r: "sample_run = (RunServes tasks panicked, st)" using sample_runs by blast
  obtain s where "s \<in> set tasks" using sample_served [OF r] by (cases tasks) auto
  with requests_only_over_attested_tls [OF r [unfolded sample_run_def], of s] r show ?thesis
    by (fastforce simp: session_of_def)
qed

end
