(* ===== verification/Plane_Wiring.thy ===== *)
theory Plane_Wiring
  imports Plane_Main Enclave_Server Acme_State
begin

text \<open>
  How the control plane is put together: \<open>main\<close> (\<open>control-plane/src/main.rs\<close>) up to its services, with what it needs of its
  environment, the TLS proxies it makes, and the client of ACME providers in the data plane (\<open>data-plane/src/acme/client.rs\<close>) whose
  connections one of them forwards.
\<close>

definition ENCLAVE_ACME_PORT :: nat where "ENCLAVE_ACME_PORT = 7780"

section \<open>The control plane\<close>

text \<open>
  What \<open>main\<close> makes before it serves; \<open>None\<close> is a panic, by one of the \<open>expect\<close>s. The health check server is bound
  before all others and its error ends the process.
\<close>

record control_plane =
  cm_provisioner_proxy :: TlsProxy
  cm_acme_proxy :: TlsProxy
  cm_connector :: "bytes \<times> bytes list \<times> bytes"
  cm_bucket :: string
  cm_account :: AcmeAccountDetails
  cm_context :: CpEnclaveContext
  cm_dns_servers :: "IpAddr list"

definition provisioner_proxy :: "env_vars \<Rightarrow> TlsProxy" where
  "provisioner_proxy env = \<lparr>hosts = [get_cert_provisoner_host env], target_port = 3000\<rparr>"

definition acme_proxy :: TlsProxy where
  "acme_proxy = \<lparr>hosts = get_acme_hosts, target_port = 443\<rparr>"

definition cert_provisioner_client_new :: "key_lib \<Rightarrow> CertProvisionerMtlsCerts \<Rightarrow> (bytes \<times> bytes list \<times> bytes) option" where
  "cert_provisioner_client_new K mtls = get_mtls_connector K (mt_root_certificate mtls) (mt_client_key_pair mtls)"

definition config_server_new :: "key_lib \<Rightarrow> env_vars \<Rightarrow> (AcmeAccountDetails \<times> CpEnclaveContext) option" where
  "config_server_new K env =
     (case acme_details_new_from_env K env of
        Some (Inr acme_account_details) \<Rightarrow>
          map_option (\<lambda>enclave_context. (acme_account_details, enclave_context)) (cp_context_from_env_vars env)
      | _ \<Rightarrow> None)"

definition control_plane_main ::
  "key_lib \<Rightarrow> (string \<Rightarrow> IpAddr option) \<Rightarrow> env_vars \<Rightarrow> bool \<Rightarrow> (SharedServerError, control_plane) result option" where
  "control_plane_main K parse_ip env health_bound =
     (case mtls_from_env_vars K env of
        Inl _ \<Rightarrow> None
      | Inr mtls_config \<Rightarrow>
         Option.bind (cert_provisioner_client_new K mtls_config) (\<lambda>connector.
         Option.bind (get_acme_s3_bucket env) (\<lambda>bucket.
         Option.bind (config_server_new K env) (\<lambda>(account, context).
           Some (if \<not> health_bound then Inl IoError
                 else Inr \<lparr>cm_provisioner_proxy = provisioner_proxy env, cm_acme_proxy = acme_proxy, cm_connector = connector,
                   cm_bucket = bucket, cm_account = account, cm_context = context,
                   cm_dns_servers = (case read_dns_server_ips_from_env_var parse_ip (env ''EV_CONTROL_PLANE_DNS_SERVER'') of
                     Some dns_ips \<Rightarrow> dns_ips | None \<Rightarrow> DNS_SERVERS)\<rparr>)))))"

section \<open>The client of ACME providers\<close>

text \<open>\<open>AcmeClient\<close>: verified by the roots of the browsers, which are a parameter.\<close>

record AcmeClient =
  al_server_name :: string
  al_port :: nat

definition acme_client_new :: "string \<Rightarrow> AcmeClient" where
  "acme_client_new server_name = \<lparr>al_server_name = server_name, al_port = ENCLAVE_ACME_PORT\<rparr>"

definition acme_client_default :: AcmeClient where
  "acme_client_default = acme_client_new ''acme-v02.api.letsencrypt.org''"

definition acme_get_conn ::
  "('h, 'w) tls_transport \<Rightarrow> (peer_certificate \<Rightarrow> (unit, unit) result) \<Rightarrow> AcmeClient \<Rightarrow> 'w \<Rightarrow> (AcmeError, unit) result \<times> 'w" where
  "acme_get_conn N webpki_roots client w =
     (case tt_socket N (al_port client) w of (sock, w1) \<Rightarrow>
       if \<not> sock then (Inl AcIoError, w1)
       else (case tt_peer N (al_server_name client) w1 of
               (None, w2) \<Rightarrow> (Inl AcIoError, w2)
             | (Some p, w2) \<Rightarrow>
                 (case webpki_roots p of
                    Inl _ \<Rightarrow> (Inl AcIoError, w2)
                  | Inr _ \<Rightarrow> (case tt_handshake N w2 of (ok, w3) \<Rightarrow> (if ok then Inr () else Inl AcHyperError, w3)))))"

definition acme_client_send ::
  "('h, 'w) tls_transport \<Rightarrow> (peer_certificate \<Rightarrow> (unit, unit) result) \<Rightarrow> AcmeClient \<Rightarrow> 'h client_request \<Rightarrow> 'w
   \<Rightarrow> (AcmeError, client_response) result \<times> 'w" where
  "acme_client_send N webpki_roots client request w =
     (case acme_get_conn N webpki_roots client w of
        (Inl e, w1) \<Rightarrow> (Inl e, w1)
      | (Inr _, w1) \<Rightarrow> (case tt_exchange N request w1 of (response, w2) \<Rightarrow> (ok_or AcHyperError response, w2)))"

section \<open>Targets of TLS\<close>

lemma forwards_iff_target:
  assumes "tl_read conn = Some available" and "get_hostname (te_parser E) (read_into 4096 available) = Some (Inr host)"
    and "te_lookup E (host @ ''.'') = Some addrs" and "te_pick E addrs = Some ip" and "tl_connect conn" and "tl_write conn"
  shows "tls_handle E P (Accepted conn) =
    (if host \<in> set (hosts P)
     then Continues (Forward host (ip, target_port P) (read_into 4096 available) (pipe_streams (tl_copy conn))) else Continues ShutdownConn)"
  using assms by (simp add: tls_handle_def get_ip_for_host_def Let_def)

text \<open>
  The proxies forward what the data plane sends: a connection to an ACME provider always; one to the certificate
  provisioner only when the control plane runs as staging or production, because in every other environment it
  takes the provisioner to be on its own machine.
\<close>

theorem outgoing_tls_forwarded:
  assumes "tl_read conn = Some available" and "get_hostname (te_parser E) (read_into 4096 available) = Some (Inr host)"
    and "te_lookup E (host @ ''.'') = Some addrs" and "te_pick E addrs = Some ip" and "tl_connect conn" and "tl_write conn"
  shows "host = bc_server_name provisioner_base_client \<Longrightarrow> tls_handle E (provisioner_proxy env) (Accepted conn) =
      (if get_rust_env env = Development then Continues ShutdownConn
       else Continues (Forward host (ip, 3000) (read_into 4096 available) (pipe_streams (tl_copy conn))))"
    and "host = al_server_name (acme_client_new (hostname provider)) \<Longrightarrow> tls_handle E acme_proxy (Accepted conn) =
      Continues (Forward host (ip, 443) (read_into 4096 available) (pipe_streams (tl_copy conn)))"
proof -
  have "get_rust_env env = Development \<longleftrightarrow> get_rust_env env \<notin> {Staging, Production}" by (cases "get_rust_env env") auto
  then show "host = bc_server_name provisioner_base_client \<Longrightarrow> tls_handle E (provisioner_proxy env) (Accepted conn) =
      (if get_rust_env env = Development then Continues ShutdownConn
       else Continues (Forward host (ip, 3000) (read_into 4096 available) (pipe_streams (tl_copy conn))))"
    by (simp add: forwards_iff_target [OF assms] provisioner_proxy_def provisioner_base_client_def get_cert_provisioner_host_def
        get_cert_provisoner_host_def)
  show "host = al_server_name (acme_client_new (hostname provider)) \<Longrightarrow> tls_handle E acme_proxy (Accepted conn) =
      Continues (Forward host (ip, 443) (read_into 4096 available) (pipe_streams (tl_copy conn)))"
    by (cases provider) (simp_all add: forwards_iff_target [OF assms] acme_proxy_def acme_client_new_def get_acme_hosts_def)
qed

text \<open>An ACME request is written only to a peer that the roots of the browsers vouch for, under the name of the provider.\<close>

lemma acme_request_verified:
  assumes "acme_client_send N webpki_roots client request w = (Inr response, w')"
  shows "\<exists>w1 p w2 w3. tt_socket N (al_port client) w = (True, w1) \<and> tt_peer N (al_server_name client) w1 = (Some p, w2)
    \<and> webpki_roots p = Inr () \<and> tt_handshake N w2 = (True, w3) \<and> tt_exchange N request w3 = (Some response, w')"
  using assms
  by (auto simp: acme_client_send_def acme_get_conn_def result_simps split: prod.splits sum.splits option.splits if_splits)

section \<open>What the control plane needs\<close>

text \<open>What \<open>main\<close> reads from the environment before it serves.\<close>

definition complete_environment :: "key_lib \<Rightarrow> env_vars \<Rightarrow> bool" where
  "complete_environment K env \<longleftrightarrow>
     (\<exists>c. mtls_from_env_vars K env = Inr c \<and> kl_root_ok K (mt_root_certificate c)
        \<and> kl_client_ok K (fst (mt_client_key_pair c)) (snd (mt_client_key_pair c)))
     \<and> env ''ACME_S3_BUCKET'' \<noteq> None
     \<and> (\<exists>pem key. env ''ACME_ACCOUNT_EC_KEY'' = Some pem \<and> kl_ec_from_pem K pem = Some key)
     \<and> env ''ACME_ACCOUNT_HMAC_KEY_ID'' \<noteq> None
     \<and> (\<exists>raw key. env ''ACME_ACCOUNT_HMAC_KEY'' = Some raw \<and> hmac_from_b64_string K raw = Some key)
     \<and> env ''CAGE_UUID'' \<noteq> None \<and> env ''EV_CAGE_VERSION_ID'' \<noteq> None \<and> env ''EV_CAGE_NAME'' \<noteq> None
     \<and> env ''EV_APP_UUID'' \<noteq> None \<and> env ''EV_TEAM_UUID'' \<noteq> None"

text \<open>
  (C27) The control plane comes up exactly when its health check server can be bound and its environment is complete: the client
  certificates for the provisioner and their root, accepted by rustls, the bucket, the keys of the ACME account and the five
  variables that identify the enclave. An environment that is not complete is a panic before the health check server is bound; a
  health check server that cannot be bound is an error of \<open>main\<close>.
\<close>

theorem control_plane_starts_iff_configured:
  "((\<exists>cp. control_plane_main K parse_ip env health_bound = Some (Inr cp)) \<longleftrightarrow> health_bound \<and> complete_environment K env)
   \<and> (control_plane_main K parse_ip env health_bound = None \<longleftrightarrow> \<not> complete_environment K env)
   \<and> (control_plane_main K parse_ip env health_bound = Some (Inl IoError) \<longleftrightarrow> \<not> health_bound \<and> complete_environment K env)"
proof -
  have variables: "cp_context_from_env_vars env \<noteq> None \<longleftrightarrow>
      env ''CAGE_UUID'' \<noteq> None \<and> env ''EV_CAGE_VERSION_ID'' \<noteq> None \<and> env ''EV_CAGE_NAME'' \<noteq> None
      \<and> env ''EV_APP_UUID'' \<noteq> None \<and> env ''EV_TEAM_UUID'' \<noteq> None"
    by (auto simp: cp_context_from_env_vars_def Option.bind_eq_Some_conv)
  have account: "(\<exists>d. acme_details_new_from_env K env = Some (Inr d)) \<longleftrightarrow>
      (\<exists>pem key. env ''ACME_ACCOUNT_EC_KEY'' = Some pem \<and> kl_ec_from_pem K pem = Some key)
      \<and> env ''ACME_ACCOUNT_HMAC_KEY_ID'' \<noteq> None
      \<and> (\<exists>raw key. env ''ACME_ACCOUNT_HMAC_KEY'' = Some raw \<and> hmac_from_b64_string K raw = Some key)"
    by (auto simp: acme_details_new_from_env_def get_acme_ec_key_def Option.bind_eq_Some_conv result_simps)
  have config: "config_server_new K env \<noteq> None \<longleftrightarrow>
      (\<exists>d. acme_details_new_from_env K env = Some (Inr d)) \<and> cp_context_from_env_vars env \<noteq> None"
    by (auto simp: config_server_new_def split: option.splits sum.splits)
  have connector: "cert_provisioner_client_new K c \<noteq> None \<longleftrightarrow>
      kl_root_ok K (mt_root_certificate c) \<and> kl_client_ok K (fst (mt_client_key_pair c)) (snd (mt_client_key_pair c))" for c
    by (auto simp: cert_provisioner_client_new_def get_mtls_connector_def split: prod.splits)
  have "control_plane_main K parse_ip env health_bound \<noteq> None \<longleftrightarrow>
      (\<exists>c. mtls_from_env_vars K env = Inr c \<and> cert_provisioner_client_new K c \<noteq> None)
      \<and> env ''ACME_S3_BUCKET'' \<noteq> None \<and> config_server_new K env \<noteq> None"
    by (cases "mtls_from_env_vars K env"; cases health_bound)
      (auto simp: control_plane_main_def Option.bind_eq_Some_conv)
  then have "control_plane_main K parse_ip env health_bound \<noteq> None \<longleftrightarrow> complete_environment K env"
    by (simp only: connector config account variables conj_assoc complete_environment_def)
  then have none: "control_plane_main K parse_ip env health_bound = None \<longleftrightarrow> \<not> complete_environment K env" by blast
  have some: "control_plane_main K parse_ip env health_bound = Some r \<Longrightarrow> (\<exists>cp. r = Inr cp) = health_bound \<and> (r = Inl IoError) = (\<not> health_bound)" for r
    by (auto simp: control_plane_main_def Option.bind_eq_Some_conv split: sum.splits if_splits)
  show ?thesis
    using none some by (cases "control_plane_main K parse_ip env health_bound") auto
qed

text \<open>An override of the DNS servers in which no address can be read leaves the control plane without any.\<close>

theorem bad_dns_override_leaves_no_server:
  assumes "control_plane_main K parse_ip env True = Some (Inr cp)" and "env ''EV_CONTROL_PLANE_DNS_SERVER'' = Some servers"
    and "\<forall>s \<in> set (split_on CHR '','' servers). parse_ip s = None"
  shows "cm_dns_servers cp = []"
proof -
  have "List.map_filter parse_ip (split_on CHR '','' servers) = []"
    using assms(3) by (auto simp: List.map_filter_def filter_empty_conv)
  then show ?thesis
    using assms(1,2)
    by (auto simp: control_plane_main_def read_dns_server_ips_from_env_var_def Option.bind_eq_Some_conv split: sum.splits)
qed

end
