(* ===== verification/Plane_Tasks.thy ===== *)
theory Plane_Tasks
  imports Plane_Wiring
begin

text \<open>
  The tasks that the two processes run side by side with \<open>tokio::join!\<close>: \<open>start\<close> and \<open>main\<close> of the data plane
  (\<open>data-plane/src/main.rs\<close>) and the end of \<open>main\<close> of the control plane (\<open>control-plane/src/main.rs\<close>), with the listeners they
  join as far as it decides whether these end. The branches of a join are polled by one task: a panic in one of them ends
  the process, and the join is over when every branch has ended. The errors are logged after that. The lemmas
  show when a process goes down with one of its services, and that an error of a service is not logged as long as another
  one runs, which is always for the data plane.
\<close>

section \<open>Joined tasks\<close>

text \<open>What has become of a branch so far, and of the join.\<close>

datatype fate = Runs | Ended "(unit, unit) result" | TaskPanicked

datatype 't join_outcome = ProcessDied | StillWaits | AllEnded "('t \<times> (unit, unit) result) list"

fun ended :: "fate \<Rightarrow> (unit, unit) result option" where
  "ended (Ended r) = Some r"
| "ended _ = None"

definition join_tasks :: "('t \<Rightarrow> fate) \<Rightarrow> 't list \<Rightarrow> 't join_outcome" where
  "join_tasks f tasks =
     (if list_ex (\<lambda>t. f t = TaskPanicked) tasks then ProcessDied
      else if list_ex (\<lambda>t. f t = Runs) tasks then StillWaits
      else AllEnded (List.map_filter (\<lambda>t. map_option (Pair t) (ended (f t))) tasks))"

text \<open>The \<open>if let Err(..)\<close>s behind a join, for the tasks whose results are looked at.\<close>

fun errors_logged :: "'t list \<Rightarrow> 't join_outcome \<Rightarrow> 't list" where
  "errors_logged reported (AllEnded rs) = filter (\<lambda>t. (t, Inl ()) \<in> set rs) reported"
| "errors_logged reported _ = []"

lemma join_tasks_Died: "join_tasks f tasks = ProcessDied \<longleftrightarrow> (\<exists>t \<in> set tasks. f t = TaskPanicked)"
  by (simp add: join_tasks_def list_ex_iff)

lemma join_tasks_Done: "join_tasks f tasks = AllEnded rs \<Longrightarrow> t \<in> set tasks \<Longrightarrow> \<exists>r. f t = Ended r"
  by (cases "f t") (auto simp: join_tasks_def list_ex_iff split: if_splits)

lemma join_tasks_Runs: "t \<in> set tasks \<Longrightarrow> f t = Runs \<Longrightarrow> join_tasks f tasks \<in> {ProcessDied, StillWaits}"
  by (auto simp: join_tasks_def list_ex_iff)

lemma error_logged_all_ended:
  assumes "e \<in> set (errors_logged reported (join_tasks f tasks))" and "t \<in> set tasks"
  shows "\<exists>r. f t = Ended r"
  using assms join_tasks_Done [of f tasks _ t] by (cases "join_tasks f tasks") auto

section \<open>The data plane\<close>

datatype dp_task = ServerTask | DnsTask | CryptoTask | EgressTask | StatsTask | ClockTask

text \<open>
  What decides the fates: whether each listener could bind its address, whether the contexts were there when \<open>start\<close> and the
  egress proxy read them, and what the server of the enclave and \<open>hyper\<close>'s server of the API do once they are bound.
\<close>

record dp_world =
  dw_context :: bool
  dw_egress_context :: bool
  dw_bound :: "dp_task \<Rightarrow> bool"
  dw_health_bound :: bool
  dw_server :: fate
  dw_api_server :: bool

definition start_data_plane :: "dp_world \<Rightarrow> fate" where
  "start_data_plane W = (if dw_bound W ServerTask then dw_server W else Ended (Inr ()))"

text \<open>\<open>Server::bind\<close> of \<open>hyper\<close> panics when it cannot bind; the result of serving is dropped.\<close>

definition crypto_api_listen :: "dp_world \<Rightarrow> fate" where
  "crypto_api_listen W =
     (if \<not> dw_bound W CryptoTask then TaskPanicked else if dw_api_server W then Runs else Ended (Inr ()))"

text \<open>Listeners whose loop has no exit: an error before it is their result.\<close>

definition endless_listener :: "bool \<Rightarrow> fate" where
  "endless_listener started = (if started then Runs else Ended (Inl ()))"

fun dp_fate :: "dp_world \<Rightarrow> dp_task \<Rightarrow> fate" where
  "dp_fate W ServerTask = start_data_plane W"
| "dp_fate W DnsTask = endless_listener (dw_bound W DnsTask)"
| "dp_fate W CryptoTask = crypto_api_listen W"
| "dp_fate W EgressTask = endless_listener (dw_egress_context W \<and> dw_bound W EgressTask)"
| "dp_fate W StatsTask = endless_listener (dw_bound W StatsTask)"
| "dp_fate W ClockTask = Runs"

definition data_plane_tasks :: "bool \<Rightarrow> dp_task list" where
  "data_plane_tasks network_egress =
     (if network_egress then [ServerTask, DnsTask, CryptoTask, EgressTask, StatsTask, ClockTask]
      else [ServerTask, CryptoTask, StatsTask, ClockTask])"

definition data_plane_reported :: "bool \<Rightarrow> dp_task list" where
  "data_plane_reported network_egress = (if network_egress then [DnsTask, EgressTask, CryptoTask, StatsTask] else [CryptoTask, StatsTask])"

text \<open>\<open>start\<close>: without its context it ends at once, before any service.\<close>

definition start_plane :: "bool \<Rightarrow> dp_world \<Rightarrow> dp_task join_outcome" where
  "start_plane network_egress W =
     (if \<not> dw_context W then AllEnded [] else join_tasks (dp_fate W) (data_plane_tasks network_egress))"

definition start_health_check_server :: "dp_world \<Rightarrow> fate" where
  "start_health_check_server W = (if dw_health_bound W then Runs else TaskPanicked)"

text \<open>\<open>block_on\<close> of \<open>main\<close>: \<open>start\<close> beside the health check server.\<close>

definition data_plane_process :: "bool \<Rightarrow> dp_world \<Rightarrow> bool join_outcome" where
  "data_plane_process network_egress W =
     join_tasks (\<lambda>b. if b then (case start_plane network_egress W of ProcessDied \<Rightarrow> TaskPanicked | StillWaits \<Rightarrow> Runs | AllEnded _ \<Rightarrow> Ended (Inr ()))
                     else start_health_check_server W) [True, False]"

section \<open>The control plane\<close>

datatype cp_task = TcpTask | DnsProxyTask | EgressProxyTask | E3Task | HealthTask | ConfigTask | ProvisionerTask | AcmeTask | StatsProxyTask

text \<open>
  The health check server is bound before the join, and an error of \<open>accept\<close> ends it; what becomes of the TLS proxies is the result of
  \<open>tls_listen\<close> on the connections that came: an error of the first read of a connection ends them, a hello that is cut panics;
  counting a request may panic in the loop of the TCP server.
\<close>

record cp_world =
  cw_bound :: "cp_task \<Rightarrow> bool"
  cw_uncounted :: bool
  cw_accept_failed :: bool
  cw_tls_env :: tls_env
  cw_provisioner :: "TlsProxy \<times> tls_event list"
  cw_acme :: "TlsProxy \<times> tls_event list"

definition tls_proxy_fate :: "bool \<Rightarrow> tls_env \<Rightarrow> TlsProxy \<times> tls_event list \<Rightarrow> fate" where
  "tls_proxy_fate bound E p =
     (if \<not> bound then Ended (Inl ())
      else (case snd (tls_listen E (fst p) (snd p)) of
              None \<Rightarrow> Runs
            | Some (Some e) \<Rightarrow> Ended (Inl ())
            | Some None \<Rightarrow> TaskPanicked))"

fun cp_fate :: "cp_world \<Rightarrow> cp_task \<Rightarrow> fate" where
  "cp_fate W TcpTask = (if cw_bound W TcpTask \<and> cw_uncounted W then TaskPanicked else endless_listener (cw_bound W TcpTask))"
| "cp_fate W HealthTask = endless_listener (\<not> cw_accept_failed W)"
| "cp_fate W ProvisionerTask = tls_proxy_fate (cw_bound W ProvisionerTask) (cw_tls_env W) (cw_provisioner W)"
| "cp_fate W AcmeTask = tls_proxy_fate (cw_bound W AcmeTask) (cw_tls_env W) (cw_acme W)"
| "cp_fate W t = endless_listener (cw_bound W t)"

definition control_plane_tasks :: "bool \<Rightarrow> cp_task list" where
  "control_plane_tasks network_egress =
     (if network_egress
      then [TcpTask, DnsProxyTask, EgressProxyTask, E3Task, HealthTask, ConfigTask, ProvisionerTask, AcmeTask, StatsProxyTask]
      else [TcpTask, E3Task, HealthTask, ConfigTask, ProvisionerTask, AcmeTask, StatsProxyTask])"

definition control_plane_reported :: "bool \<Rightarrow> cp_task list" where
  "control_plane_reported network_egress = butlast (control_plane_tasks network_egress)"

definition control_plane_process :: "bool \<Rightarrow> cp_world \<Rightarrow> cp_task join_outcome" where
  "control_plane_process network_egress W = join_tasks (cp_fate W) (control_plane_tasks network_egress)"

section \<open>What the joins mean for the processes\<close>

lemma start_plane_never_done:
  "dw_context W \<Longrightarrow> start_plane network_egress W \<in> {ProcessDied, StillWaits}"
  using join_tasks_Runs [of ClockTask "data_plane_tasks network_egress" "dp_fate W"]
  by (simp add: start_plane_def data_plane_tasks_def)

text \<open>
  The data plane goes down with the API of the user process, the health check server or the server of the enclave, and
  with nothing else; as long as it is up, no error of the services it joins is ever logged, since the clock is synchronised
  for ever.
\<close>

theorem data_plane_process_fate:
  assumes "dw_context W"
  shows "data_plane_process network_egress W =
      (if \<not> dw_bound W CryptoTask \<or> \<not> dw_health_bound W \<or> start_data_plane W = TaskPanicked then ProcessDied else StillWaits)"
    and "errors_logged (data_plane_reported network_egress) (start_plane network_egress W) = []"
proof -
  have "start_plane network_egress W = ProcessDied \<longleftrightarrow> \<not> dw_bound W CryptoTask \<or> start_data_plane W = TaskPanicked"
    using assms by (auto simp: start_plane_def join_tasks_Died data_plane_tasks_def endless_listener_def crypto_api_listen_def)
  with start_plane_never_done [OF assms, of network_egress]
  show "data_plane_process network_egress W =
      (if \<not> dw_bound W CryptoTask \<or> \<not> dw_health_bound W \<or> start_data_plane W = TaskPanicked then ProcessDied else StillWaits)"
    by (auto simp: data_plane_process_def join_tasks_def start_health_check_server_def)
  show "errors_logged (data_plane_reported network_egress) (start_plane network_egress W) = []"
    using start_plane_never_done [OF assms, of network_egress] by auto
qed

text \<open>
  The control plane goes down with a request it cannot count, and with a hello that makes one of its TLS proxies panic. It logs the
  error of a service only when all services have ended, in particular only when none of the services the enclave depends on could
  be bound.
\<close>

lemma tls_proxy_fate_panics:
  "tls_proxy_fate bound E p = TaskPanicked \<longleftrightarrow> bound \<and> snd (tls_listen E (fst p) (snd p)) = Some None"
  by (auto simp: tls_proxy_fate_def split: option.splits)

theorem control_plane_process_fate:
  shows "control_plane_process network_egress W = ProcessDied \<longleftrightarrow> cw_bound W TcpTask \<and> cw_uncounted W
      \<or> cw_bound W ProvisionerTask \<and> snd (tls_listen (cw_tls_env W) (fst (cw_provisioner W)) (snd (cw_provisioner W))) = Some None
      \<or> cw_bound W AcmeTask \<and> snd (tls_listen (cw_tls_env W) (fst (cw_acme W)) (snd (cw_acme W))) = Some None"
    and "errors_logged (control_plane_reported network_egress) (control_plane_process network_egress W) \<noteq> [] \<Longrightarrow>
      \<not> cw_bound W ConfigTask \<and> \<not> cw_bound W E3Task \<and> \<not> cw_bound W StatsProxyTask \<and> cw_accept_failed W"
proof -
  show "control_plane_process network_egress W = ProcessDied \<longleftrightarrow> cw_bound W TcpTask \<and> cw_uncounted W
      \<or> cw_bound W ProvisionerTask \<and> snd (tls_listen (cw_tls_env W) (fst (cw_provisioner W)) (snd (cw_provisioner W))) = Some None
      \<or> cw_bound W AcmeTask \<and> snd (tls_listen (cw_tls_env W) (fst (cw_acme W)) (snd (cw_acme W))) = Some None"
    by (auto simp: control_plane_process_def join_tasks_Died control_plane_tasks_def endless_listener_def tls_proxy_fate_panics)
next
  assume "errors_logged (control_plane_reported network_egress) (control_plane_process network_egress W) \<noteq> []"
  then obtain e where "e \<in> set (errors_logged (control_plane_reported network_egress) (control_plane_process network_egress W))"
    by (meson list.set_sel(1))
  then have "\<exists>r. cp_fate W t = Ended r" if "t \<in> {ConfigTask, E3Task, StatsProxyTask, HealthTask}" for t
    using that error_logged_all_ended [of e _ "cp_fate W" _ t] by (auto simp: control_plane_process_def control_plane_tasks_def)
  from this [of ConfigTask] this [of E3Task] this [of StatsProxyTask] this [of HealthTask]
  show "\<not> cw_bound W ConfigTask \<and> \<not> cw_bound W E3Task \<and> \<not> cw_bound W StatsProxyTask \<and> cw_accept_failed W"
    by (auto simp: endless_listener_def split: if_splits)
qed

end
