(* ===== verification/Spec2Isabelle.thy ===== *)
theory Spec2Isabelle
  imports Dns_Driver Acme_World Clock_Sync Vsock_Proxy Config_Listen Mock_Crypto Plane_Tasks
begin

text \<open>
  \<^bold>\<open>Evervault Enclaves.\<close>

  An enclave runs a user process inside an AWS Nitro enclave. The \<^emph>\<open>data plane\<close>
  (\<open>src/data-plane\<close>) runs beside the user process in the enclave: it terminates TLS, logs, authenticates
  and decrypts the requests, attests the enclave and forwards the requests to the user process; it also
  carries the outgoing traffic of the user process. The \<^emph>\<open>control plane\<close> (\<open>src/control-plane\<close>) runs on the
  host: it forwards the incoming connections and opens the outgoing ones, after the egress policy both
  planes share (\<open>src/shared\<close>). The control plane also serves the data plane: it signs ACME messages, keeps
  objects for it, hands out tokens and tells the time. This development models both planes as executable functions,
  from the first bytes of a connection to the start and the shutdown of the processes, and proves what the
  parts promise.

  \<^bold>\<open>Theories\<close>, in the order of their imports:

  \<^item> \<open>Enclave_Prelude\<close>: bytes (lists of \<^typ>\<open>char\<close>), results (\<open>Inl\<close> is \<open>Err\<close>), ASCII classes, splitting,
    decimal numbers, UTF-8.
  \<^item> \<open>Nom_Interface\<close>: the streaming parsers of \<open>nom\<close> that the ciphertext parser calls, as the record
    \<open>nom\<close>, their documented behaviour as the locale \<open>nom_streaming\<close> and an executable instance.
  \<^item> \<open>Ciphertext_Parser\<close> (\<open>data-plane/src/crypto/parser.rs\<close>): the token format, its parser and printer;
    the parser accepts exactly the format and printing parses back.
  \<^item> \<open>Stream_Decoder\<close> (\<open>data-plane/src/crypto/stream.rs\<close>): the incremental decoder. Its reader is the step
    relation \<open>stream_step\<close>; the frames of every reachable state partition the bytes read, the ranges of
    ciphertexts are their positions but for a quote on one side, no call panics, and the calls at the end of the input end.
  \<^item> \<open>Http_Types\<close>: requests, responses and the header map of \<open>http\<close> as a parameter (locale
    \<open>header_map\<close>, with an executable instance).
  \<^item> \<open>Decrypt_Layer\<close> (\<open>data-plane/src/server/layers/decrypt.rs\<close>, \<open>data-plane/src/e3client/mod.rs\<close>): the
    ciphertexts of a body are extracted, decrypted by E3 and spliced from the last to the first, which
    equals a substitution from left to right; failures are answered with their status.
  \<^item> \<open>Ip_Address\<close>, \<open>Egress_Policy\<close> (\<open>shared/src/server/egress.rs\<close>): the address classes of
    \<open>control-plane/src/egressproxy.rs\<close> as special-purpose blocks, the allow list and the cache of resolved
    addresses (locale \<open>ttl_cache\<close>).
  \<^item> \<open>Egress_Proxy\<close> (\<open>control-plane/src/egressproxy.rs\<close>, \<open>control-plane/src/dnsproxy.rs\<close>,
    \<open>data-plane/src/dns/egressproxy.rs\<close>, \<open>shared/src/rpc\<close>): both ends of a proxied connection, the DNS proxy
    and the message between the planes (locale \<open>rmp_messages\<close>); only permitted addresses are connected.
  \<^item> \<open>Dns_Driver\<close> (\<open>data-plane/src/dns/enclavedns.rs\<close>): the lookup loop with its channel and permits as a
    step relation; the number of lookups is bounded and every accepted question is answered or dropped.
  \<^item> \<open>Tls_Proxy\<close> (\<open>control-plane/src/tls_proxy.rs\<close>, \<open>control-plane/src/e3proxy.rs\<close>,
    \<open>shared/src/server/sni.rs\<close>): connections are forwarded to the host their ClientHello names.
  \<^item> \<open>Health_Check\<close> (\<open>data-plane/src/health\<close>, \<open>control-plane/src/health.rs\<close>, \<open>shared/src/server/health.rs\<close>):
    from the checks of the user process to the status that ECS sees.
  \<^item> \<open>Proxy_Protocol\<close> (\<open>shared/src/server/proxy_protocol.rs\<close>): the header in front of a connection.
  \<^item> \<open>Trx_Logging\<close> (\<open>shared/src/logging.rs\<close>, \<open>data-plane/src/utils/trx_handler.rs\<close>): the log record of a
    request, the masking of headers, the batching of records and the timer behind it.
  \<^item> \<open>Service_Layers\<close> (\<open>data-plane/src/server/layers\<close>, \<open>data-plane/src/crypto/attest.rs\<close>): attestation,
    logging, authentication, decryption and forwarding, composed as \<open>data-plane/src/server/server.rs\<close> does.
  \<^item> \<open>Http_Server\<close> (\<open>data-plane/src/server/http\<close>, \<open>data-plane/src/server/server.rs\<close>): reading requests from
    a stream, writing messages, and the loop of a connection.
  \<^item> \<open>Cert_Resolver\<close> (\<open>data-plane/src/server/tls/cert_resolver.rs\<close>): the certificate of a handshake, with the
    attestation document in its names.
  \<^item> \<open>Acme_Jws\<close> (\<open>shared/src/acme/jws.rs\<close>), \<open>Config_Server\<close> (\<open>control-plane/src/config_server.rs\<close>),
    \<open>Config_Client\<close> (\<open>data-plane/src/config_client.rs\<close>): the services of the control plane for the data plane and
    their client. Through lost connections and repeated calls the storage behaves as a map.
  \<^item> \<open>Config_Listen\<close>: the accept loop of the configuration server and its tasks as a step relation. Interleaved
    connections share one map, on which every call acts between its arrival and its answer.
  \<^item> \<open>Acme_State\<close>, \<open>Acme_Lock\<close>, \<open>Acme_Order\<close>, \<open>Acme_Cert\<close> (\<open>data-plane/src/acme\<close>): the ACME client as
    computations over a state with a trace of what they send, sign, store and wait for; the lock between instances
    as a step relation. Orders exclude each other, nonces are used once, polling ends.
  \<^item> \<open>Acme_World\<close>: the ACME client on the configuration server; the laws assumed of the services hold there.
  \<^item> \<open>Statistics\<close> (\<open>shared/src/stats.rs\<close>, \<open>stats_client.rs\<close> of both planes, \<open>data-plane/src/stats.rs\<close>,
    \<open>control-plane/src/stats_proxy.rs\<close>): the metrics and the way of a datagram out of the enclave.
  \<^item> \<open>Base_Client\<close> (\<open>data-plane/src/base_tls_client\<close>), \<open>E3_Client\<close> (\<open>data-plane/src/e3client\<close>,
    \<open>data-plane/src/crypto/token.rs\<close>, \<open>data-plane/src/cache.rs\<close>), \<open>Crypto_Api\<close>
    (\<open>data-plane/src/crypto/api.rs\<close>): the way of the data plane to E3 with its token cache (locale
    \<open>timed_cache\<close>), its retries (locale \<open>tokio_retry\<close>), and the API it offers the user process. Requests carry a token and a
    document bound to it, and the API answers every request.
  \<^item> \<open>Enclave_Startup\<close> (\<open>data-plane/src/env\<close>, \<open>data-plane/src/cert_provisioner_client\<close>,
    \<open>data-plane/src/server/tls\<close>): from the contexts of the process to the mark in the environment file that the
    health agent waits for.
  \<^item> \<open>Clock_Sync\<close> (\<open>data-plane/src/time\<close>): the clock of the enclave follows the clock of the host.
  \<^item> \<open>Vsock_Proxy\<close> (\<open>crates/vsock-proxy\<close>): options, addresses, sockets and the loop of the forwarder.
  \<^item> \<open>Plane_Main\<close> (\<open>main.rs\<close> of both planes, \<open>control-plane/src/configuration.rs\<close>,
    \<open>control-plane/src/clients\<close>): what the processes read from their environment, the listener for clients and the
    shutdown.
  \<^item> \<open>Enclave_Server\<close> (\<open>data-plane/src/server/server.rs\<close>, \<open>data-plane/src/server/tls/tls_server.rs\<close>): the server as a
    whole, from the start over the handshakes to the tasks of the connections. Every stream it serves is a session
    with an attested certificate; clients that fail do not keep it from others, a client that falls silent in the handshake does.
  \<^item> \<open>Plane_Wiring\<close> (\<open>control-plane/src/main.rs\<close>, \<open>data-plane/src/acme/client.rs\<close>): what the control plane needs to come
    up, and which TLS connections of the data plane its proxies forward.
  \<^item> \<open>Plane_Tasks\<close> (\<open>main.rs\<close> of both planes): the tasks the processes join; which failures end a process, and that
    the errors of services go unreported while another one runs.
  \<^item> \<open>Base64_Interface\<close>, \<open>Mock_Crypto\<close> (\<open>e2e-tests/mock-crypto\<close>): base64 as the locale \<open>base64_codec\<close> with the
    standard alphabet as its instance, and the mock of E3 of the end-to-end tests. The enclave reads the ciphertexts of
    the mock with the types of the values they stand for; what comes back from a decryption.

  \<^bold>\<open>Conventions.\<close> An \<open>async\<close> function is the function of the outcomes its awaits deliver: a stream is the
  list of the outcomes of its reads, a client is a function from requests to answers. A panic is a value
  (\<open>None\<close>, or \<open>Panic\<close> of a service). Loops recurse over the events they consume, so they are total
  and no fuel is needed; a loop over connections returns when its events are used up. The retries of a storage call
  recurse over the attempts that its strategy grants; their delays are in the trace of the ACME client. Concurrent tasks
  (the lookups of the DNS driver, the reader of the decoder) are step relations whose
  schedules are arbitrary. Code outside the repository is an argument of the definitions, its documented
  behaviour the assumptions of a locale that is interpreted on an executable instance.

  \<^bold>\<open>Simplifications.\<close> The instances that compete for the certificate lock share one clock, while each machine writes and tests
  the expiry with its own, and the retries of a write of the lock are one step. An attempt of a call to E3 happens at one moment. A
  request to the configuration server whose response is lost takes effect at once or not at all. A key pair is one value, and the
  signature of a CA is the name of the issuer. The offset of the decoder is a natural number, which differs from \<open>usize\<close> only
  beyond \<open>2\<^sup>6\<^sup>4\<close> bytes of one body.

  \<^bold>\<open>Not modelled\<close>: TLS, cryptography, JSON and the other libraries, which are parameters; the parts of
  \<open>main\<close> and of the accept loops that only spawn tasks; the configuration of the logger; timers, other than
  as the events they deliver; the build scripts; \<open>Cargo\<close> features other than those
  of the enclave build.
\<close>

section \<open>Orders the control plane signs\<close>

text \<open>The names both planes build for the trusted certificate are the same.\<close>

lemma valid_order_identifiers_iff:
  assumes "cx_name c = ec_name ctx" and "cx_app_uuid c = ec_app_uuid ctx"
  shows "valid_order_identifiers ids c \<longleftrightarrow> (\<forall>i \<in> set ids. id_value i \<in> set (get_trusted_cert_domains ctx))"
proof -
  have "cp_hyphenated_app_uuid c = hyphenated_app_uuid ctx"
    by (simp add: cp_hyphenated_app_uuid_def hyphenated_app_uuid_def assms)
  then show ?thesis
    by (simp add: valid_order_identifiers_def get_trusted_cert_base_domains_def get_trusted_cert_domains_def assms
        list_all_iff)
qed

text \<open>
  (C12) The control plane signs a new order for the enclave exactly when every name in it is one of the enclave's own
  trusted domains: the data plane, which orders these domains, gets its signature, and a data plane that asks for
  any other name gets none.
\<close>

theorem new_orders_signed_iff_own_domains:
  assumes "config_messages (cf_json C)"
    and "sublist ''/newOrder'' (jq_url q) \<or> sublist ''/new-order'' (jq_url q)"
    and "cj_new_order (cf_json C) (jq_payload q) = Some ids"
    and "cx_name (cf_context C) = ec_name ctx" and "cx_app_uuid (cf_context C) = ec_app_uuid ctx"
    and "signing_key (cf_acme C) q = (key, key_id)"
    and "jws (cf_openssl C) (jq_url q) (jq_nonce q) (jq_payload q) key key_id = Some (Inr r)"
  shows "client_jws C q Delivered st = (Inr r, st) \<longleftrightarrow> (\<forall>i \<in> set ids. id_value i \<in> set (get_trusted_cert_domains ctx))"
proof -
  let ?req = "\<lparr>cq_method = ''GET'', cq_path = path_to_str AcmeSign, cq_body = Some (cj_to_vec (cf_json C) (JwsRequestPayload q))\<rparr>"
  have "sign_acme_payload C ?req =
      Some (Inr (if valid_order_identifiers ids (cf_context C)
        then build_success_response (Some (cj_to_vec (cf_json C) (JwsResponsePayload r))) else build_bad_request_response))"
    using assms(2,3,6,7) config_messages.jws_request [OF assms(1)]
    by (auto simp: sign_acme_payload_def parse_request_def)
  then have "client_jws C q Delivered st =
      (if valid_order_identifiers ids (cf_context C) then Inr r else Inl (failed_response build_bad_request_response), st)"
    using config_messages.jws_response [OF assms(1)]
    by (simp add: client_jws_def then_parse_def client_send_def handle_incoming_request_def handle_acme_signing_request_def
        build_success_response_def build_bad_request_response_def parse_response_def Let_def)
  then show ?thesis using valid_order_identifiers_iff [OF assms(4,5)] by simp
qed

definition sample_new_order :: "string \<Rightarrow> JwsRequest" where
  "sample_new_order domain = \<lparr>jq_signature_type = SignECDSA, jq_url = ''/new-order'', jq_nonce = Some ''n'',
     jq_payload = enc_str domain, jq_account_id = None\<rparr>"

definition sample_dp_context :: EnclaveContext where
  "sample_dp_context = \<lparr>ec_team_uuid = ''team'', ec_app_uuid = ''app_1'', ec_uuid = ''uuid'', ec_name = ''name''\<rparr>"

theorem new_orders_signed_iff_own_domains_witness:
  "(\<exists>r. client_jws sample_config (sample_new_order ''name.app-1.cage.evervault.com'') Delivered \<lparr>cs_store = (9, []), cs_logs = []\<rparr>
      = (Inr r, \<lparr>cs_store = (9, []), cs_logs = []\<rparr>))
   \<and> get_trusted_cert_domains sample_dp_context = [''name.app-1.cage.evervault.com'', ''name.app-1.enclave.evervault.com'']"
proof -
  let ?d = "''name.app-1.cage.evervault.com''"
  have domains: "get_trusted_cert_domains sample_dp_context = [?d, ''name.app-1.enclave.evervault.com'']"
    by (simp add: get_trusted_cert_domains_def hyphenated_app_uuid_def sample_dp_context_def)
  have messages: "config_messages (cf_json sample_config)" by (simp add: sample_config_def ref_cfg.config_messages_axioms)
  have url: "sublist ''/newOrder'' (jq_url (sample_new_order ?d)) \<or> sublist ''/new-order'' (jq_url (sample_new_order ?d))"
    by (simp add: sample_new_order_def)
  have ids: "cj_new_order (cf_json sample_config) (jq_payload (sample_new_order ?d)) = Some [\<lparr>id_type = ''dns'', id_value = ?d\<rparr>]"
    using dec_enc_strs [of "[?d]"] by (simp add: sample_config_def ref_json_def sample_new_order_def)
  have ctx: "cx_name (cf_context sample_config) = ec_name sample_dp_context" "cx_app_uuid (cf_context sample_config) = ec_app_uuid sample_dp_context"
    by (simp_all add: sample_config_def sample_cp_context_def sample_dp_context_def)
  have key: "signing_key (cf_acme sample_config) (sample_new_order ?d) = (Some \<lparr>pk_id = EC, pk_material = ''AB''\<rparr>, None)"
    by (simp add: signing_key_def sample_config_def sample_new_order_def)
  have sig: "jws (cf_openssl sample_config) (jq_url (sample_new_order ?d)) (jq_nonce (sample_new_order ?d)) (jq_payload (sample_new_order ?d))
      (Some \<lparr>pk_id = EC, pk_material = ''AB''\<rparr>) None = Some (Inr \<lparr>jr_protected = jq_url (sample_new_order ?d),
        jr_payload = jq_payload (sample_new_order ?d), jr_signature = sample_signature\<rparr>)"
    using sample_jws by (simp add: sample_config_def)
  from new_orders_signed_iff_own_domains [OF messages url ids ctx key sig] domains show ?thesis by auto
qed

end
